theory Spec2Isabelle
  imports Main "HOL-Library.Word"
begin

chapter \<open>Definitions\<close>

section \<open>The POSIX wrappers of src/ipc/kv_posix.cc\<close>

text \<open>
  Every wrapper calls one system call and inspects its return value. The return value
  (and errno where the wrapper reads it) is an input of the model: the kernel decides it.
  \<^verbatim>\<open>ereport(WARNING, ...)\<close> prints a diagnostic and returns to the caller;
  \<^verbatim>\<open>ereport(ERROR, ...)\<close> leaves the wrapper by a non-local exit, so the caller's
  remaining statements do not run. A result is \<open>Inl msg\<close> when ERROR was raised and
  \<open>Inr (value, warnings)\<close> when the wrapper returned.
\<close>

datatype errno = EAGAIN | EINTR | EINVAL | ENOENT | ENOMEM

type_synonym 'a ereport = "string + 'a \<times> string list"

definition aborts :: "'a ereport \<Rightarrow> bool" where
  "aborts r = (case r of Inl _ \<Rightarrow> True | Inr _ \<Rightarrow> False)"

definition warnings :: "'a ereport \<Rightarrow> string list" where
  "warnings r = (case r of Inl _ \<Rightarrow> [] | Inr (_, ws) \<Rightarrow> ws)"

definition ShmOpen :: "int \<Rightarrow> string \<Rightarrow> int ereport" where
  "ShmOpen fd func =
     (if fd = -1 then Inl (func @ '' ShmOpen failed'') else Inr (fd, []))"

definition ShmUnlink :: "int \<Rightarrow> string \<Rightarrow> unit ereport" where
  "ShmUnlink rc func =
     (if rc = -1 then Inr ((), [func @ '' ShmUnlink failed'']) else Inr ((), []))"

text \<open>\<open>mmap\<close> returns a mapping or \<open>MAP_FAILED\<close> (\<open>None\<close>).\<close>

definition Mmap :: "nat option \<Rightarrow> string \<Rightarrow> nat ereport" where
  "Mmap ptr func =
     (case ptr of None \<Rightarrow> Inl (func @ '' Mmap failed'') | Some p \<Rightarrow> Inr (p, []))"

definition Munmap :: "int \<Rightarrow> string \<Rightarrow> unit ereport" where
  "Munmap rc func =
     (if rc = -1 then Inl (func @ '' Munmap failed'') else Inr ((), []))"

definition Ftruncate :: "int \<Rightarrow> string \<Rightarrow> unit ereport" where
  "Ftruncate rc func =
     (if rc = -1 then Inl (func @ '' Ftruncate failed'') else Inr ((), []))"

definition Fclose :: "int \<Rightarrow> string \<Rightarrow> unit ereport" where
  "Fclose rc func =
     (if rc = -1 then Inl (func @ '' Fclose failed'') else Inr ((), []))"

definition SemInit :: "int \<Rightarrow> string \<Rightarrow> unit ereport" where
  "SemInit rc func =
     (if rc = -1 then Inl (func @ '' SemInit failed'') else Inr ((), []))"

definition SemDestroy :: "int \<Rightarrow> string \<Rightarrow> unit ereport" where
  "SemDestroy rc func =
     (if rc = -1 then Inl (func @ '' SemDestroy failed'') else Inr ((), []))"

definition SemPost :: "int \<Rightarrow> string \<Rightarrow> unit ereport" where
  "SemPost rc func =
     (if rc = -1 then Inl (func @ '' SemPost failed'') else Inr ((), []))"

definition SemWait :: "int \<Rightarrow> errno \<Rightarrow> string \<Rightarrow> int ereport" where
  "SemWait rc en func =
     (if rc = -1
      then (if en = EINTR then Inr (-1, []) else Inl (func @ '' SemWait failed''))
      else Inr (0, []))"

definition SemTryWait :: "int \<Rightarrow> errno \<Rightarrow> string \<Rightarrow> int ereport" where
  "SemTryWait ret en func =
     (if ret = -1 \<and> en \<noteq> EAGAIN then Inl (func @ '' SemTryWait failed'')
      else Inr (ret, []))"

section \<open>Messages (src/ipc/kv_message.h)\<close>

text \<open>
  The header's \<open>op\<close> field is read from shared memory, so a value outside the
  enumerators can arrive: \<open>KVOpUnknown n\<close> stands for the raw value \<open>n\<close>.
\<close>

datatype KVOperation =
    KVOpDummy | KVOpOpen | KVOpClose | KVOpCount | KVOpPut | KVOpGet | KVOpDel
  | KVOpLoad | KVOpReadBatch | KVOpDelCursor | KVOpRangeQuery | KVOpClearRangeQuery
  | KVOpLaunch | KVOpTerminate | KVOpUnknown int

datatype KVMessageStatus =
  KVStatusDummy | KVStatusSuccess | KVStatusFailure | KVStatusException

record KVMessageHeader =
  op :: KVOperation
  dbId :: nat
  relId :: nat
  status :: KVMessageStatus
  rpsId :: nat
  etySize :: nat

record OpenArgs =
  opts :: nat
  useColumn :: bool
  attrCount :: int
  path :: string

record RangeQueryOpts =
  startLen :: nat
  start :: "nat list"
  limitLen :: nat
  limit :: "nat list"
  batchCapacity :: nat
  rq_attrCount :: int
  attrs :: "int list"

record KVCursorKey =
  pid :: int
  opid :: nat

text \<open>
  The channel that frames a message into bytes (KVChannel, KVMessageQueue) is not among
  the sources, so a message body is modelled as the value its read function decodes:
  the open arguments, the raw bytes of a key, a length-prefixed key/value pair, a cursor
  key, a cursor key followed by optional range-query options, a count, or a batch state
  \<open>{next, size}\<close>.
\<close>

datatype entity =
    NoEntity
  | OpenEntity OpenArgs
  | BytesEntity "nat list"
  | PutEntity nat "nat list"
  | CursorEntity KVCursorKey
  | RangeQueryEntity KVCursorKey "RangeQueryOpts option"
  | CountEntity nat
  | StateEntity bool nat

record KVMessage =
  hdr :: KVMessageHeader
  ety :: entity

text \<open>The default member initialisers of KVMessageHeader and KVMessage.\<close>

definition KVMessageHeader0 :: KVMessageHeader where
  "KVMessageHeader0 =
     \<lparr>op = KVOpDummy, dbId = 0, relId = 0, status = KVStatusDummy, rpsId = 0, etySize = 0\<rparr>"

definition KVMessage0 :: KVMessage where
  "KVMessage0 = \<lparr>hdr = KVMessageHeader0, ety = NoEntity\<rparr>"

text \<open>
  Modelled from the spec: \<open>SuccessMessage\<close>, \<open>FailureMessage\<close> and \<open>SimpleMessage\<close>
  are declared in kv_message.h and defined in a file that is not among the sources. By
  the spec's status values (Success, Failure for an operation-level failure) and the
  declarations' parameters, they build a default message with that status for the given
  response channel, respectively a request with the given opcode and routing ids.
\<close>

definition SuccessMessage :: "nat \<Rightarrow> KVMessage" where
  "SuccessMessage channel =
     KVMessage0\<lparr>hdr := KVMessageHeader0\<lparr>status := KVStatusSuccess, rpsId := channel\<rparr>\<rparr>"

definition FailureMessage :: "nat \<Rightarrow> KVMessage" where
  "FailureMessage channel =
     KVMessage0\<lparr>hdr := KVMessageHeader0\<lparr>status := KVStatusFailure, rpsId := channel\<rparr>\<rparr>"

definition SimpleMessage :: "KVOperation \<Rightarrow> nat \<Rightarrow> nat \<Rightarrow> KVMessage" where
  "SimpleMessage opc rid db =
     KVMessage0\<lparr>hdr := KVMessageHeader0\<lparr>op := opc, relId := rid, dbId := db\<rparr>\<rparr>"

text \<open>The decoders: what a handler reads out of its message body.\<close>

fun open_args :: "entity \<Rightarrow> OpenArgs" where
  "open_args (OpenEntity a) = a"
| "open_args _ = \<lparr>opts = 0, useColumn = False, attrCount = 0, path = []\<rparr>"

fun raw_bytes :: "entity \<Rightarrow> nat list" where
  "raw_bytes (BytesEntity bs) = bs"
| "raw_bytes (PutEntity k bs) = bs"
| "raw_bytes _ = []"

fun put_keyLen :: "entity \<Rightarrow> nat" where
  "put_keyLen (PutEntity k bs) = k"
| "put_keyLen _ = 0"

fun cursor_key :: "entity \<Rightarrow> KVCursorKey" where
  "cursor_key (CursorEntity k) = k"
| "cursor_key (RangeQueryEntity k os) = k"
| "cursor_key _ = \<lparr>pid = 0, opid = 0\<rparr>"

fun range_opts :: "entity \<Rightarrow> RangeQueryOpts option" where
  "range_opts (RangeQueryEntity k os) = os"
| "range_opts _ = None"

text \<open>Subtraction of two uint64 values, as C computes it.\<close>

definition sub64 :: "nat \<Rightarrow> nat \<Rightarrow> nat" where
  "sub64 a b = (a mod 2 ^ 64 + 2 ^ 64 - b mod 2 ^ 64) mod 2 ^ 64"

section \<open>The storage engine and the kernel as collaborators\<close>

text \<open>
  The storage engine (kv_storage.h) is outside the sources. Its functions are the fields
  of a record, and every handler takes that record as a parameter; the engine's own state
  is the type \<open>'db\<close>, which the worker threads through its calls. A connection, a cursor
  and a range handle are pointers: \<open>None\<close> is the null connection.
\<close>

record KVRangeQueryEntry =
  range_h :: nat
  readOpts :: nat

record 'db storage =
  OpenConn :: "OpenArgs \<Rightarrow> 'db \<Rightarrow> nat option \<times> 'db"
  CloseConn :: "nat \<Rightarrow> 'db \<Rightarrow> 'db"
  GetCount :: "nat option \<Rightarrow> 'db \<Rightarrow> nat"
  PutRecord :: "nat option \<Rightarrow> nat list \<Rightarrow> nat \<Rightarrow> nat \<Rightarrow> 'db \<Rightarrow> bool \<times> 'db"
  GetRecord :: "nat option \<Rightarrow> nat list \<Rightarrow> nat \<Rightarrow> 'db \<Rightarrow> bool \<times> nat list"
  DelRecord :: "nat option \<Rightarrow> nat list \<Rightarrow> nat \<Rightarrow> 'db \<Rightarrow> bool \<times> 'db"
  GetIter :: "nat option \<Rightarrow> 'db \<Rightarrow> nat \<times> 'db"
  DelIter :: "nat \<Rightarrow> 'db \<Rightarrow> 'db"
  BatchRead :: "nat option \<Rightarrow> nat \<Rightarrow> 'db \<Rightarrow> (bool \<times> nat) \<times> 'db"
  ParseRangeQueryOptions :: "RangeQueryOpts option \<Rightarrow> 'db \<Rightarrow> KVRangeQueryEntry \<times> 'db"
  RangeQueryRead :: "nat option \<Rightarrow> nat \<Rightarrow> nat \<Rightarrow> 'db \<Rightarrow> (bool \<times> nat) \<times> nat \<times> 'db"
  ClearRangeQueryMeta :: "KVRangeQueryEntry \<Rightarrow> 'db \<Rightarrow> 'db"

text \<open>
  The results the kernel gives to the shared-memory system calls a handler makes while
  it serves one message.
\<close>

record sys =
  unlink_rc :: int
  open_fd :: int
  ftruncate_rc :: int
  mmap_ptr :: "nat option"
  close_rc :: int
  munmap_rc :: int

text \<open>
  What a handler or a loop does: it returns a new state, it raises ERROR (which ends the
  worker process: nothing of the loop runs afterwards), or it never returns.
\<close>

datatype 'a outcome = Returns 'a | Raises string | Diverges

definition ebind :: "'a ereport \<Rightarrow> ('a \<Rightarrow> string list \<Rightarrow> 'b outcome) \<Rightarrow> 'b outcome" where
  "ebind r k = (case r of Inl e \<Rightarrow> Raises e | Inr (v, ws) \<Rightarrow> k v ws)"

section \<open>The worker of src/server/kv_worker.cc\<close>

text \<open>
  The fields of class KVWorker (\<open>running_\<close>, \<open>conn_\<close>, \<open>ref_\<close>, \<open>cursors_\<close>,
  \<open>ranges_\<close>; a name cannot end in an underscore here, hence the suffix), and what the
  worker does to its surroundings: \<open>sent\<close> lists the messages handed to
  \<open>queue_->Send\<close>, oldest first, \<open>diag\<close> the warnings reported, \<open>queue_stopped\<close>
  tells whether \<open>queue_->Stop()\<close> was called, and \<open>store\<close> is the storage engine's
  state.
\<close>

text \<open>
  Modelled from the spec: the type of the counter. \<open>ref_\<close> is declared in kv_worker.h,
  outside the sources; the specification calls it a reference count that Open
  increments and Close decrements, so it is counted in \<open>int\<close>, without a bound. The
  handlers only increment and decrement it and never test it.
\<close>

record 'db KVWorker =
  running_s :: bool
  conn_s :: "nat option"
  ref_s :: int
  cursors_s :: "KVCursorKey \<rightharpoonup> nat"
  ranges_s :: "KVCursorKey \<rightharpoonup> KVRangeQueryEntry"
  queue_stopped :: bool
  sent :: "KVMessage list"
  diag :: "string list"
  store :: 'db

definition KVWorker_new :: "'db \<Rightarrow> 'db KVWorker" where
  "KVWorker_new db =
     \<lparr>running_s = False, conn_s = None, ref_s = 0, cursors_s = Map.empty,
      ranges_s = Map.empty, queue_stopped = False, sent = [], diag = [], store = db\<rparr>"

text \<open>The destructor: it closes the connection if there is one.\<close>

definition KVWorker_delete :: "'db storage \<Rightarrow> 'db KVWorker \<Rightarrow> 'db" where
  "KVWorker_delete S w = (case conn_s w of None \<Rightarrow> store w | Some c \<Rightarrow> CloseConn S c (store w))"

definition Send :: "KVMessage \<Rightarrow> 'db KVWorker \<Rightarrow> 'db KVWorker" where
  "Send m w = w\<lparr>sent := sent w @ [m]\<rparr>"

definition Start :: "'db KVWorker \<Rightarrow> 'db KVWorker" where
  "Start w = w\<lparr>running_s := True\<rparr>"

definition Stop :: "'db KVWorker \<Rightarrow> 'db KVWorker" where
  "Stop w = w\<lparr>running_s := False, queue_stopped := True\<rparr>"

definition Open :: "'db storage \<Rightarrow> 'db KVWorker \<Rightarrow> KVMessage \<Rightarrow> 'db KVWorker" where
  "Open S w msg =
     (let args = open_args (ety msg);
          w1 = (if conn_s w = None
                then (case OpenConn S args (store w) of
                        (c, db) \<Rightarrow> w\<lparr>conn_s := c, store := db\<rparr>)
                else w)
      in w1\<lparr>ref_s := ref_s w1 + 1\<rparr>)"

definition Close :: "'db KVWorker \<Rightarrow> KVMessage \<Rightarrow> 'db KVWorker" where
  "Close w msg = (if conn_s w \<noteq> None then w\<lparr>ref_s := ref_s w - 1\<rparr> else w)"

definition Count :: "'db storage \<Rightarrow> 'db KVWorker \<Rightarrow> KVMessage \<Rightarrow> 'db KVWorker" where
  "Count S w msg =
     Send (KVMessage0\<lparr>hdr := KVMessageHeader0\<lparr>etySize := 8, rpsId := rpsId (hdr msg)\<rparr>,
                       ety := CountEntity (GetCount S (conn_s w) (store w))\<rparr>) w"

definition Put :: "'db storage \<Rightarrow> 'db KVWorker \<Rightarrow> KVMessage \<Rightarrow> 'db KVWorker" where
  "Put S w msg =
     (let keyLen = put_keyLen (ety msg);
          valLen = sub64 (sub64 (etySize (hdr msg)) keyLen) 8
      in case PutRecord S (conn_s w) (raw_bytes (ety msg)) keyLen valLen (store w) of
           (success, db) \<Rightarrow>
             Send (if success then SuccessMessage (rpsId (hdr msg))
                   else FailureMessage (rpsId (hdr msg)))
                  (w\<lparr>store := db\<rparr>))"

definition Get :: "'db storage \<Rightarrow> 'db KVWorker \<Rightarrow> KVMessage \<Rightarrow> 'db KVWorker" where
  "Get S w msg =
     (case GetRecord S (conn_s w) (raw_bytes (ety msg)) (etySize (hdr msg)) (store w) of
        (success, val) \<Rightarrow>
          if success
          then Send (KVMessage0\<lparr>hdr := (hdr (SuccessMessage (rpsId (hdr msg))))
                                         \<lparr>etySize := length val\<rparr>,
                                  ety := BytesEntity val\<rparr>) w
          else Send (FailureMessage (rpsId (hdr msg))) w)"

definition Delete :: "'db storage \<Rightarrow> 'db KVWorker \<Rightarrow> KVMessage \<Rightarrow> 'db KVWorker" where
  "Delete S w msg =
     (case DelRecord S (conn_s w) (raw_bytes (ety msg)) (etySize (hdr msg)) (store w) of
        (success, db) \<Rightarrow>
          Send (if success then SuccessMessage (rpsId (hdr msg))
                else FailureMessage (rpsId (hdr msg)))
               (w\<lparr>store := db\<rparr>))"

definition Load :: "'db storage \<Rightarrow> 'db KVWorker \<Rightarrow> KVMessage \<Rightarrow> 'db KVWorker" where
  "Load S w msg =
     (let keyLen = put_keyLen (ety msg);
          valLen = sub64 (sub64 (etySize (hdr msg)) keyLen) 8
      in case PutRecord S (conn_s w) (raw_bytes (ety msg)) keyLen valLen (store w) of
           (success, db) \<Rightarrow> w\<lparr>store := db\<rparr>)"

text \<open>The response of ReadBatch and RangeQuery: Success, with the state \<open>{next, size}\<close>.\<close>

definition StateMessage :: "nat \<Rightarrow> bool \<Rightarrow> nat \<Rightarrow> KVMessage" where
  "StateMessage channel nxt sz =
     KVMessage0\<lparr>hdr := (hdr (SuccessMessage channel))\<lparr>etySize := 16\<rparr>,
                 ety := StateEntity nxt sz\<rparr>"

definition ReadBatch ::
  "'db storage \<Rightarrow> sys \<Rightarrow> 'db KVWorker \<Rightarrow> KVMessage \<Rightarrow> 'db KVWorker outcome" where
  "ReadBatch S env w msg =
     (let key = cursor_key (ety msg);
          (cursor, w1) =
            (case cursors_s w key of
               None \<Rightarrow> (case GetIter S (conn_s w) (store w) of
                          (c, db) \<Rightarrow> (c, w\<lparr>cursors_s := (cursors_s w)(key \<mapsto> c), store := db\<rparr>))
             | Some c \<Rightarrow> (c, w))
      in ebind (ShmUnlink (unlink_rc env) ''ReadBatch'') (\<lambda>_ ws.
         ebind (ShmOpen (open_fd env) ''ReadBatch'') (\<lambda>fd _.
         ebind (Ftruncate (ftruncate_rc env) ''ReadBatch'') (\<lambda>_ _.
         ebind (Mmap (mmap_ptr env) ''ReadBatch'') (\<lambda>shm _.
         ebind (Fclose (close_rc env) ''ReadBatch'') (\<lambda>_ _.
           case BatchRead S (conn_s w1) cursor (store w1) of
             ((nxt, sz), db) \<Rightarrow>
               ebind (Munmap (munmap_rc env) ''ReadBatch'') (\<lambda>_ _.
                 Returns (Send (StateMessage (rpsId (hdr msg)) nxt sz)
                            (w1\<lparr>store := db, diag := diag w1 @ ws\<rparr>)))))))))"

definition CloseCursor :: "'db storage \<Rightarrow> 'db KVWorker \<Rightarrow> KVMessage \<Rightarrow> 'db KVWorker" where
  "CloseCursor S w msg =
     (let key = cursor_key (ety msg)
      in case cursors_s w key of
           None \<Rightarrow> w
         | Some c \<Rightarrow> w\<lparr>store := DelIter S c (store w), cursors_s := (cursors_s w)(key := None)\<rparr>)"

text \<open>
  The do-while loop of RangeQuery: it reads the next chunk again as long as the
  collaborator reports more data and an empty chunk. \<open>ro\<close> is the local copy of the
  entry's read options, which the collaborator may update through the pointer it gets.
  The loop has no bound of its own, so it is a partial function: \<open>None\<close> means that
  it never ends.
\<close>

partial_function (option) RangeQueryRead_loop ::
  "'db storage \<Rightarrow> nat option \<Rightarrow> nat \<Rightarrow> nat \<Rightarrow> 'db \<Rightarrow> ((bool \<times> nat) \<times> nat \<times> 'db) option" where
  "RangeQueryRead_loop S c r ro db =
     (case RangeQueryRead S c r ro db of
        ((nxt, sz), ro', db') \<Rightarrow>
          if nxt \<and> sz = 0 then RangeQueryRead_loop S c r ro' db'
          else Some ((nxt, sz), ro', db'))"

definition RangeQuery ::
  "'db storage \<Rightarrow> sys \<Rightarrow> 'db KVWorker \<Rightarrow> KVMessage \<Rightarrow> 'db KVWorker outcome" where
  "RangeQuery S env w msg =
     (let key = cursor_key (ety msg);
          (entry, w1) =
            (case ranges_s w key of
               None \<Rightarrow> (case ParseRangeQueryOptions S (range_opts (ety msg)) (store w) of
                          (e, db) \<Rightarrow> (e, w\<lparr>ranges_s := (ranges_s w)(key \<mapsto> e), store := db\<rparr>))
             | Some e \<Rightarrow> (e, w))
      in case RangeQueryRead_loop S (conn_s w1) (range_h entry) (readOpts entry) (store w1) of
           None \<Rightarrow> Diverges
         | Some ((nxt, sz), ro, db) \<Rightarrow>
             ebind (ShmUnlink (unlink_rc env) ''RangeQuery'') (\<lambda>_ ws.
             ebind (if sz > 0 then ShmOpen (open_fd env) ''RangeQuery'' else Inr (0, [])) (\<lambda>fd _.
             ebind (if sz > 0 then Ftruncate (ftruncate_rc env) ''RangeQuery'' else Inr ((), [])) (\<lambda>_ _.
             ebind (if sz > 0 then Mmap (mmap_ptr env) ''RangeQuery'' else Inr (0, [])) (\<lambda>shm _.
             ebind (if sz > 0 then Fclose (close_rc env) ''RangeQuery'' else Inr ((), [])) (\<lambda>_ _.
             ebind (if sz > 0 then Munmap (munmap_rc env) ''RangeQuery'' else Inr ((), [])) (\<lambda>_ _.
               Returns (Send (StateMessage (rpsId (hdr msg)) nxt sz)
                          (w1\<lparr>store := db, diag := diag w1 @ ws\<rparr>)))))))))"

definition ClearRangeQuery ::
  "'db storage \<Rightarrow> sys \<Rightarrow> 'db KVWorker \<Rightarrow> KVMessage \<Rightarrow> 'db KVWorker" where
  "ClearRangeQuery S env w msg =
     (let key = cursor_key (ety msg)
      in case ranges_s w key of
           None \<Rightarrow> w
         | Some e \<Rightarrow>
             w\<lparr>store := ClearRangeQueryMeta S e (store w),
               ranges_s := (ranges_s w)(key := None),
               diag := diag w @ warnings (ShmUnlink (unlink_rc env) ''ClearRangeQuery'')\<rparr>)"

definition Terminate :: "'db KVWorker \<Rightarrow> KVMessage \<Rightarrow> 'db KVWorker" where
  "Terminate w msg = Stop w"

text \<open>The switch of \<open>KVWorker::Run\<close>, and the loop around it over the incoming messages.
  Each message comes with the results of the system calls made while it is served. When
  the messages are used up the worker waits in \<open>Recv\<close>: the state reached is the result.\<close>

definition Run_switch ::
  "'db storage \<Rightarrow> sys \<Rightarrow> 'db KVWorker \<Rightarrow> KVMessage \<Rightarrow> 'db KVWorker outcome" where
  "Run_switch S env w msg =
     (case op (hdr msg) of
        KVOpDummy \<Rightarrow> Returns w
      | KVOpOpen \<Rightarrow> Returns (Open S w msg)
      | KVOpClose \<Rightarrow> Returns (Close w msg)
      | KVOpCount \<Rightarrow> Returns (Count S w msg)
      | KVOpPut \<Rightarrow> Returns (Put S w msg)
      | KVOpGet \<Rightarrow> Returns (Get S w msg)
      | KVOpDel \<Rightarrow> Returns (Delete S w msg)
      | KVOpLoad \<Rightarrow> Returns (Load S w msg)
      | KVOpReadBatch \<Rightarrow> ReadBatch S env w msg
      | KVOpDelCursor \<Rightarrow> Returns (CloseCursor S w msg)
      | KVOpRangeQuery \<Rightarrow> RangeQuery S env w msg
      | KVOpClearRangeQuery \<Rightarrow> Returns (ClearRangeQuery S env w msg)
      | KVOpTerminate \<Rightarrow> Returns (Terminate w msg)
      | KVOpLaunch \<Rightarrow> Returns (w\<lparr>diag := diag w @ [''invalid operation'']\<rparr>)
      | KVOpUnknown n \<Rightarrow> Returns (w\<lparr>diag := diag w @ [''invalid operation'']\<rparr>))"

fun Run :: "'db storage \<Rightarrow> 'db KVWorker \<Rightarrow> (KVMessage \<times> sys) list \<Rightarrow> 'db KVWorker outcome" where
  "Run S w [] = Returns w"
| "Run S w ((msg, env) # rest) =
     (if running_s w
      then (case Run_switch S env w msg of
              Returns w' \<Rightarrow> Run S w' rest
            | Raises e \<Rightarrow> Raises e
            | Diverges \<Rightarrow> Diverges)
      else Returns w)"

text \<open>The messages sent between two states of a \<open>sent\<close> list.\<close>

definition replies :: "KVMessage list \<Rightarrow> KVMessage list \<Rightarrow> KVMessage list" where
  "replies before after = drop (length before) after"

section \<open>The worker of src/kv_worker.cc\<close>

text \<open>
  The older worker names the header's fields \<open>resChan\<close> and \<open>bdySize\<close> and the body
  \<open>bdy\<close>, and its \<open>RangeQueryRead\<close> takes no connection. Its message helpers
  \<open>SimpleSuccessMessage\<close> and \<open>SimpleFailureMessage\<close> come from a header that is not
  among the sources.
\<close>

abbreviation resChan :: "KVMessageHeader \<Rightarrow> nat" where
  "resChan \<equiv> rpsId"

abbreviation bdySize :: "KVMessageHeader \<Rightarrow> nat" where
  "bdySize \<equiv> etySize"

abbreviation bdy :: "KVMessage \<Rightarrow> entity" where
  "bdy \<equiv> ety"

text \<open>
  Modelled from the spec: \<open>SimpleSuccessMessage\<close> and \<open>SimpleFailureMessage\<close> are
  not defined in the sources; by their names and the spec's status values they are the
  Success and the Failure message for a response channel.
\<close>

definition SimpleSuccessMessage :: "nat \<Rightarrow> KVMessage" where
  "SimpleSuccessMessage channel = SuccessMessage channel"

definition SimpleFailureMessage :: "nat \<Rightarrow> KVMessage" where
  "SimpleFailureMessage channel = FailureMessage channel"

record 'db storage_m = "'db storage" +
  RangeQueryRead_m :: "nat \<Rightarrow> nat \<Rightarrow> 'db \<Rightarrow> (bool \<times> nat) \<times> nat \<times> 'db"

record 'db KVWorker_m =
  running :: bool
  conn :: "nat option"
  ref :: int
  cursors :: "KVCursorKey \<rightharpoonup> nat"
  ranges :: "KVCursorKey \<rightharpoonup> KVRangeQueryEntry"
  channel_terminated :: bool
  sent_m :: "KVMessage list"
  diag_m :: "string list"
  store_m :: 'db

definition KVWorker_delete_m :: "'db storage_m \<Rightarrow> 'db KVWorker_m \<Rightarrow> 'db" where
  "KVWorker_delete_m S w = (case conn w of None \<Rightarrow> store_m w | Some c \<Rightarrow> CloseConn S c (store_m w))"

definition Send_m :: "KVMessage \<Rightarrow> 'db KVWorker_m \<Rightarrow> 'db KVWorker_m" where
  "Send_m m w = w\<lparr>sent_m := sent_m w @ [m]\<rparr>"

definition Start_m :: "'db KVWorker_m \<Rightarrow> 'db KVWorker_m" where
  "Start_m w = w\<lparr>running := True\<rparr>"

definition Stop_m :: "'db KVWorker_m \<Rightarrow> 'db KVWorker_m" where
  "Stop_m w = w\<lparr>running := False, channel_terminated := True\<rparr>"

definition Open_m :: "'db storage_m \<Rightarrow> 'db KVWorker_m \<Rightarrow> KVMessage \<Rightarrow> 'db KVWorker_m" where
  "Open_m S w msg =
     (let args = open_args (bdy msg);
          w1 = (if conn w \<noteq> None then w\<lparr>ref := ref w + 1\<rparr>
                else (case OpenConn S args (store_m w) of
                        (c, db) \<Rightarrow> w\<lparr>conn := c, store_m := db\<rparr>))
      in Send_m (SimpleSuccessMessage (resChan (hdr msg))) w1)"

definition Put_m :: "'db storage_m \<Rightarrow> 'db KVWorker_m \<Rightarrow> KVMessage \<Rightarrow> 'db KVWorker_m" where
  "Put_m S w msg =
     (let keyLen = put_keyLen (bdy msg);
          valLen = sub64 (sub64 (bdySize (hdr msg)) keyLen) 8
      in case PutRecord S (conn w) (raw_bytes (bdy msg)) keyLen valLen (store_m w) of
           (success, db) \<Rightarrow>
             (if success then Send_m (SimpleSuccessMessage (resChan (hdr msg))) (w\<lparr>store_m := db\<rparr>)
              else Send_m (SimpleFailureMessage (resChan (hdr msg))) (w\<lparr>store_m := db\<rparr>)))"

definition Delete_m :: "'db storage_m \<Rightarrow> 'db KVWorker_m \<Rightarrow> KVMessage \<Rightarrow> 'db KVWorker_m" where
  "Delete_m S w msg =
     (case DelRecord S (conn w) (raw_bytes (bdy msg)) (bdySize (hdr msg)) (store_m w) of
        (success, db) \<Rightarrow>
          (if success then Send_m (SimpleSuccessMessage (resChan (hdr msg))) (w\<lparr>store_m := db\<rparr>)
           else Send_m (SimpleFailureMessage (resChan (hdr msg))) (w\<lparr>store_m := db\<rparr>)))"

definition Load_m :: "'db storage_m \<Rightarrow> 'db KVWorker_m \<Rightarrow> KVMessage \<Rightarrow> 'db KVWorker_m" where
  "Load_m S w msg =
     (let keyLen = put_keyLen (bdy msg);
          valLen = sub64 (sub64 (bdySize (hdr msg)) keyLen) 8
      in case PutRecord S (conn w) (raw_bytes (bdy msg)) keyLen valLen (store_m w) of
           (success, db) \<Rightarrow> w\<lparr>store_m := db\<rparr>)"

definition Get_m :: "'db storage_m \<Rightarrow> 'db KVWorker_m \<Rightarrow> KVMessage \<Rightarrow> 'db KVWorker_m" where
  "Get_m S w msg =
     (case GetRecord S (conn w) (raw_bytes (bdy msg)) (bdySize (hdr msg)) (store_m w) of
        (success, val) \<Rightarrow>
          if success
          then Send_m (KVMessage0\<lparr>hdr := (hdr (SimpleSuccessMessage (resChan (hdr msg))))
                                           \<lparr>etySize := length val\<rparr>,
                                    ety := BytesEntity val\<rparr>) w
          else Send_m (SimpleFailureMessage (resChan (hdr msg))) w)"

definition Close_m :: "'db KVWorker_m \<Rightarrow> KVMessage \<Rightarrow> 'db KVWorker_m" where
  "Close_m w msg =
     Send_m (SimpleSuccessMessage (resChan (hdr msg)))
       (if conn w \<noteq> None then w\<lparr>ref := ref w - 1\<rparr> else w)"

definition Count_m :: "'db storage_m \<Rightarrow> 'db KVWorker_m \<Rightarrow> KVMessage \<Rightarrow> 'db KVWorker_m" where
  "Count_m S w msg =
     Send_m (KVMessage0\<lparr>hdr := KVMessageHeader0\<lparr>etySize := 8, rpsId := resChan (hdr msg)\<rparr>,
                         ety := CountEntity (GetCount S (conn w) (store_m w))\<rparr>) w"

definition Terminate_m :: "'db KVWorker_m \<Rightarrow> KVMessage \<Rightarrow> 'db KVWorker_m" where
  "Terminate_m w msg = Stop_m w"

definition StateMessage_m :: "nat \<Rightarrow> bool \<Rightarrow> nat \<Rightarrow> KVMessage" where
  "StateMessage_m channel nxt sz =
     KVMessage0\<lparr>hdr := (hdr (SimpleSuccessMessage channel))\<lparr>etySize := 16\<rparr>,
                 ety := StateEntity nxt sz\<rparr>"

definition ReadBatch_m ::
  "'db storage_m \<Rightarrow> sys \<Rightarrow> 'db KVWorker_m \<Rightarrow> KVMessage \<Rightarrow> 'db KVWorker_m outcome" where
  "ReadBatch_m S env w msg =
     (let key = cursor_key (bdy msg);
          (cursor, w1) =
            (case cursors w key of
               None \<Rightarrow> (case GetIter S (conn w) (store_m w) of
                          (c, db) \<Rightarrow> (c, w\<lparr>cursors := (cursors w)(key \<mapsto> c), store_m := db\<rparr>))
             | Some c \<Rightarrow> (c, w))
      in ebind (ShmUnlink (unlink_rc env) ''ReadBatch'') (\<lambda>_ ws.
         ebind (ShmOpen (open_fd env) ''ReadBatch'') (\<lambda>fd _.
         ebind (Ftruncate (ftruncate_rc env) ''ReadBatch'') (\<lambda>_ _.
         ebind (Mmap (mmap_ptr env) ''ReadBatch'') (\<lambda>shm _.
         ebind (Fclose (close_rc env) ''ReadBatch'') (\<lambda>_ _.
           case BatchRead S (conn w1) cursor (store_m w1) of
             ((nxt, sz), db) \<Rightarrow>
               Returns (Send_m (StateMessage_m (resChan (hdr msg)) nxt sz)
                          (w1\<lparr>store_m := db, diag_m := diag_m w1 @ ws\<rparr>))))))))"

definition CloseCursor_m :: "'db storage_m \<Rightarrow> 'db KVWorker_m \<Rightarrow> KVMessage \<Rightarrow> 'db KVWorker_m" where
  "CloseCursor_m S w msg =
     (let key = cursor_key (bdy msg)
      in case cursors w key of
           None \<Rightarrow> Send_m (SimpleSuccessMessage (resChan (hdr msg))) w
         | Some c \<Rightarrow>
             Send_m (SimpleSuccessMessage (resChan (hdr msg)))
               (w\<lparr>store_m := DelIter S c (store_m w), cursors := (cursors w)(key := None)\<rparr>))"

partial_function (option) RangeQueryRead_loop_m ::
  "'db storage_m \<Rightarrow> nat \<Rightarrow> nat \<Rightarrow> 'db \<Rightarrow> ((bool \<times> nat) \<times> nat \<times> 'db) option" where
  "RangeQueryRead_loop_m S r ro db =
     (case RangeQueryRead_m S r ro db of
        ((nxt, sz), ro', db') \<Rightarrow>
          if nxt \<and> sz = 0 then RangeQueryRead_loop_m S r ro' db'
          else Some ((nxt, sz), ro', db'))"

definition RangeQuery_m ::
  "'db storage_m \<Rightarrow> sys \<Rightarrow> 'db KVWorker_m \<Rightarrow> KVMessage \<Rightarrow> 'db KVWorker_m outcome" where
  "RangeQuery_m S env w msg =
     (let key = cursor_key (bdy msg);
          (entry, w1) =
            (case ranges w key of
               None \<Rightarrow> (case ParseRangeQueryOptions S (range_opts (bdy msg)) (store_m w) of
                          (e, db) \<Rightarrow> (e, w\<lparr>ranges := (ranges w)(key \<mapsto> e), store_m := db\<rparr>))
             | Some e \<Rightarrow> (e, w))
      in case RangeQueryRead_loop_m S (range_h entry) (readOpts entry) (store_m w1) of
           None \<Rightarrow> Diverges
         | Some ((nxt, sz), ro, db) \<Rightarrow>
             ebind (ShmUnlink (unlink_rc env) ''RangeQuery'') (\<lambda>_ ws.
             ebind (if sz > 0 then ShmOpen (open_fd env) ''RangeQuery'' else Inr (0, [])) (\<lambda>fd _.
             ebind (if sz > 0 then Ftruncate (ftruncate_rc env) ''RangeQuery'' else Inr ((), [])) (\<lambda>_ _.
             ebind (if sz > 0 then Mmap (mmap_ptr env) ''RangeQuery'' else Inr (0, [])) (\<lambda>shm _.
             ebind (if sz > 0 then Fclose (close_rc env) ''RangeQuery'' else Inr ((), [])) (\<lambda>_ _.
             ebind (if sz > 0 then Munmap (munmap_rc env) ''RangeQuery'' else Inr ((), [])) (\<lambda>_ _.
               Returns (Send_m (StateMessage_m (resChan (hdr msg)) nxt sz)
                          (w1\<lparr>store_m := db, diag_m := diag_m w1 @ ws\<rparr>)))))))))"

definition ClearRangeQuery_m ::
  "'db storage_m \<Rightarrow> sys \<Rightarrow> 'db KVWorker_m \<Rightarrow> KVMessage \<Rightarrow> 'db KVWorker_m" where
  "ClearRangeQuery_m S env w msg =
     (let key = cursor_key (bdy msg)
      in case ranges w key of
           None \<Rightarrow> w
         | Some e \<Rightarrow>
             w\<lparr>store_m := ClearRangeQueryMeta S e (store_m w),
               ranges := (ranges w)(key := None),
               diag_m := diag_m w @ warnings (ShmUnlink (unlink_rc env) ''ClearRangeQuery'')\<rparr>)"

definition Run_switch_m ::
  "'db storage_m \<Rightarrow> sys \<Rightarrow> 'db KVWorker_m \<Rightarrow> KVMessage \<Rightarrow> 'db KVWorker_m outcome" where
  "Run_switch_m S env w msg =
     (case op (hdr msg) of
        KVOpDummy \<Rightarrow> Returns w
      | KVOpOpen \<Rightarrow> Returns (Open_m S w msg)
      | KVOpClose \<Rightarrow> Returns (Close_m w msg)
      | KVOpCount \<Rightarrow> Returns (Count_m S w msg)
      | KVOpPut \<Rightarrow> Returns (Put_m S w msg)
      | KVOpGet \<Rightarrow> Returns (Get_m S w msg)
      | KVOpDel \<Rightarrow> Returns (Delete_m S w msg)
      | KVOpLoad \<Rightarrow> Returns (Load_m S w msg)
      | KVOpTerminate \<Rightarrow> Returns (Terminate_m w msg)
      | KVOpReadBatch \<Rightarrow> ReadBatch_m S env w msg
      | KVOpDelCursor \<Rightarrow> Returns (CloseCursor_m S w msg)
      | KVOpRangeQuery \<Rightarrow> RangeQuery_m S env w msg
      | KVOpClearRangeQuery \<Rightarrow> Returns (ClearRangeQuery_m S env w msg)
      | KVOpLaunch \<Rightarrow> Returns (w\<lparr>diag_m := diag_m w @ [''unsupported op in kv worker'']\<rparr>)
      | KVOpUnknown n \<Rightarrow> Returns (w\<lparr>diag_m := diag_m w @ [''unsupported op in kv worker'']\<rparr>))"

fun Run_m ::
  "'db storage_m \<Rightarrow> 'db KVWorker_m \<Rightarrow> (KVMessage \<times> sys) list \<Rightarrow> 'db KVWorker_m outcome" where
  "Run_m S w [] = Returns w"
| "Run_m S w ((msg, env) # rest) =
     (if running w
      then (case Run_switch_m S env w msg of
              Returns w' \<Rightarrow> Run_m S w' rest
            | Raises e \<Rightarrow> Raises e
            | Diverges \<Rightarrow> Diverges)
      else Returns w)"

section \<open>The worker process of src/kv_shm.c\<close>

text \<open>
  The enumeration \<open>FuncName\<close> is declared in kv_fdw.h, outside the sources; its
  enumerators are the ones kv_shm.c names. \<open>FuncOther n\<close> is any other value found in
  the first bytes of the command area.
\<close>

datatype FuncName =
    OPEN | CLOSE | COUNT | GETITER | DELITER | NEXT | GET | PUT | DELETE | RANGEQUERY
  | TERMINATE | FuncOther int

record KVHashEntry =
  ref_l :: "32 word"
  db_h :: nat

record KVIterHashKey =
  relationId :: nat
  pid_k :: int

text \<open>
  What follows the function code and the response id in the command area, as the
  handler of that function decodes it.
\<close>

datatype payload =
    PNone
  | POpen bool int string
  | PRel nat
  | PIter KVIterHashKey
  | PKey nat "nat list"
  | PKeyVal nat "nat list" "nat list"
  | PRange KVIterHashKey RangeQueryOpts

record command =
  func :: FuncName
  responseId :: nat
  body :: payload

text \<open>What a handler writes into the response buffer \<open>ResponseQueue[responseId]\<close>.\<close>

datatype response =
    RNothing
  | RCount nat
  | RNextEnd nat
  | RNext nat "nat list" nat "nat list"
  | RGetMiss
  | RGet nat "nat list"
  | RRangeEmpty
  | RRange nat bool

text \<open>The storage engine as kv_shm.c calls it (kv_storage.h, outside the sources).\<close>

record 'db storage_l =
  Open_db :: "string \<Rightarrow> bool \<Rightarrow> int \<Rightarrow> 'db \<Rightarrow> nat \<times> 'db"
  Close_db :: "nat \<Rightarrow> 'db \<Rightarrow> 'db"
  Count_db :: "nat \<Rightarrow> 'db \<Rightarrow> nat"
  GetIter_db :: "nat \<Rightarrow> 'db \<Rightarrow> nat \<times> 'db"
  DelIter_db :: "nat \<Rightarrow> 'db \<Rightarrow> 'db"
  Next_db :: "nat \<Rightarrow> nat option \<Rightarrow> 'db \<Rightarrow> (bool \<times> nat \<times> nat list \<times> nat \<times> nat list) \<times> 'db"
  Get_db :: "nat \<Rightarrow> nat list \<Rightarrow> nat \<Rightarrow> 'db \<Rightarrow> bool \<times> nat \<times> nat list"
  Put_db :: "nat \<Rightarrow> nat list \<Rightarrow> nat \<Rightarrow> nat list \<Rightarrow> nat \<Rightarrow> 'db \<Rightarrow> bool \<times> 'db"
  Delete_db :: "nat \<Rightarrow> nat list \<Rightarrow> nat \<Rightarrow> 'db \<Rightarrow> bool \<times> 'db"
  RangeQuery_db ::
    "nat \<Rightarrow> nat option \<Rightarrow> RangeQueryOpts \<Rightarrow> int \<Rightarrow> 'db \<Rightarrow> (bool \<times> nat) \<times> nat option \<times> 'db"

text \<open>
  The worker's private tables and what it leaves in shared memory. \<open>kvTableHash\<close> is
  kept as an association list because the shutdown walks over its entries; an iterator
  or read-options pointer may be NULL (\<open>None\<close>). \<open>responseSync_posts\<close> lists the
  response ids whose \<open>responseSync\<close> semaphore the worker has posted, oldest first,
  and \<open>full_posts\<close> counts its posts of \<open>full\<close>.
\<close>

record 'db KVWorkerProc =
  kvTableHash :: "(nat \<times> KVHashEntry) list"
  kvIterHash :: "KVIterHashKey \<rightharpoonup> nat option"
  kvReadOptionsHash :: "KVIterHashKey \<rightharpoonup> nat option"
  ResponseQueue :: "nat \<Rightarrow> response"
  responseSync_posts :: "nat list"
  full_posts :: nat
  store_l :: 'db

definition hash_update ::
  "nat \<Rightarrow> (KVHashEntry \<Rightarrow> KVHashEntry) \<Rightarrow> (nat \<times> KVHashEntry) list \<Rightarrow> (nat \<times> KVHashEntry) list" where
  "hash_update k f t = map (\<lambda>(k', e). if k' = k then (k', f e) else (k', e)) t"

text \<open>\<open>strrchr(path, '/') + 1\<close>: the part after the last slash; no slash gives NULL.\<close>

definition after_last_slash :: "string \<Rightarrow> string option" where
  "after_last_slash p =
     (if CHR ''/'' \<in> set p then Some (rev (takeWhile (\<lambda>c. c \<noteq> CHR ''/'') (rev p))) else None)"

definition isdigit :: "char \<Rightarrow> bool" where
  "isdigit c = (48 \<le> (of_char c :: nat) \<and> (of_char c :: nat) \<le> 57)"

definition isspace :: "char \<Rightarrow> bool" where
  "isspace c = ((of_char c :: nat) = 32 \<or> (9 \<le> (of_char c :: nat) \<and> (of_char c :: nat) \<le> 13))"

fun digits_val :: "nat \<Rightarrow> string \<Rightarrow> nat" where
  "digits_val acc [] = acc"
| "digits_val acc (c # cs) =
     (if isdigit c then digits_val (acc * 10 + ((of_char c :: nat) - 48)) cs else acc)"

definition atoi :: "string \<Rightarrow> int" where
  "atoi s =
     (case dropWhile isspace s of
        [] \<Rightarrow> 0
      | c # cs \<Rightarrow>
          if c = CHR ''-'' then - int (digits_val 0 cs)
          else if c = CHR ''+'' then int (digits_val 0 cs)
          else int (digits_val 0 (c # cs)))"

definition OpenResponse ::
  "'db storage_l \<Rightarrow> 'db KVWorkerProc \<Rightarrow> payload \<Rightarrow> string + 'db KVWorkerProc" where
  "OpenResponse S w area =
     (case area of
        POpen useCol attrCnt pth \<Rightarrow>
          (case after_last_slash pth of
             None \<Rightarrow> Inl ''OpenResponse: no slash in path''
           | Some rest \<Rightarrow>
               (let rel = nat (atoi rest mod 2 ^ 32)
                in case map_of (kvTableHash w) rel of
                     None \<Rightarrow>
                       (case Open_db S pth useCol attrCnt (store_l w) of
                          (d, st) \<Rightarrow>
                            Inr (w\<lparr>kvTableHash := kvTableHash w @ [(rel, \<lparr>ref_l = 1, db_h = d\<rparr>)],
                                       store_l := st\<rparr>))
                   | Some e \<Rightarrow>
                       Inr (w\<lparr>kvTableHash :=
                                    hash_update rel (\<lambda>e. e\<lparr>ref_l := ref_l e + 1\<rparr>) (kvTableHash w)\<rparr>)))
      | _ \<Rightarrow> Inl ''OpenResponse: malformed command'')"

fun payload_rel :: "payload \<Rightarrow> nat" where
  "payload_rel (PRel r) = r"
| "payload_rel (PIter k) = relationId k"
| "payload_rel (PKey r k) = r"
| "payload_rel (PKeyVal r k v) = r"
| "payload_rel (PRange k os) = relationId k"
| "payload_rel _ = 0"

fun payload_iter :: "payload \<Rightarrow> KVIterHashKey" where
  "payload_iter (PIter k) = k"
| "payload_iter (PRange k os) = k"
| "payload_iter p = \<lparr>relationId = payload_rel p, pid_k = 0\<rparr>"

fun payload_key :: "payload \<Rightarrow> nat list" where
  "payload_key (PKey r k) = k"
| "payload_key (PKeyVal r k v) = k"
| "payload_key _ = []"

fun payload_val :: "payload \<Rightarrow> nat list" where
  "payload_val (PKeyVal r k v) = v"
| "payload_val _ = []"

definition CloseResponse :: "'db KVWorkerProc \<Rightarrow> payload \<Rightarrow> string + 'db KVWorkerProc" where
  "CloseResponse w area =
     (let rel = payload_rel area
      in case map_of (kvTableHash w) rel of
           None \<Rightarrow> Inl ''CloseResponse failed in hash search''
         | Some e \<Rightarrow>
             Inr (w\<lparr>kvTableHash :=
                          hash_update rel (\<lambda>e. e\<lparr>ref_l := ref_l e - 1\<rparr>) (kvTableHash w)\<rparr>))"

definition CountResponse ::
  "'db storage_l \<Rightarrow> 'db KVWorkerProc \<Rightarrow> nat \<Rightarrow> payload \<Rightarrow> string + 'db KVWorkerProc" where
  "CountResponse S w rid area =
     (case map_of (kvTableHash w) (payload_rel area) of
        None \<Rightarrow> Inl ''CountResponse failed in hash search''
      | Some e \<Rightarrow>
          Inr (w\<lparr>ResponseQueue :=
                       (ResponseQueue w)(rid := RCount (Count_db S (db_h e) (store_l w)))\<rparr>))"

definition GetIterResponse ::
  "'db storage_l \<Rightarrow> 'db KVWorkerProc \<Rightarrow> payload \<Rightarrow> string + 'db KVWorkerProc" where
  "GetIterResponse S w area =
     (let iterKey = payload_iter area
      in case map_of (kvTableHash w) (relationId iterKey) of
           None \<Rightarrow> Inl ''GetIterResponse failed in hash search''
         | Some e \<Rightarrow>
             (case GetIter_db S (db_h e) (store_l w) of
                (it, st) \<Rightarrow>
                  Inr (w\<lparr>kvIterHash := (kvIterHash w)(iterKey \<mapsto> Some it), store_l := st\<rparr>)))"

definition DelIterResponse ::
  "'db storage_l \<Rightarrow> 'db KVWorkerProc \<Rightarrow> payload \<Rightarrow> string + 'db KVWorkerProc" where
  "DelIterResponse S w area =
     (let iterKey = payload_iter area
      in case kvIterHash w iterKey of
           None \<Rightarrow> Inl ''DelIterResponse failed in hash search''
         | Some None \<Rightarrow> Inr w
         | Some (Some it) \<Rightarrow>
             Inr (w\<lparr>store_l := DelIter_db S it (store_l w),
                        kvIterHash := (kvIterHash w)(iterKey \<mapsto> None)\<rparr>))"

definition NextResponse ::
  "'db storage_l \<Rightarrow> 'db KVWorkerProc \<Rightarrow> nat \<Rightarrow> payload \<Rightarrow> string + 'db KVWorkerProc" where
  "NextResponse S w rid area =
     (let iterKey = payload_iter area
      in case map_of (kvTableHash w) (relationId iterKey) of
           None \<Rightarrow> Inl ''NextResponse failed in hash search''
         | Some e \<Rightarrow>
             (case kvIterHash w iterKey of
                None \<Rightarrow> Inl ''NextResponse failed in hash search for iterator''
              | Some it \<Rightarrow>
                  (case Next_db S (db_h e) it (store_l w) of
                     ((res, keyLen, key, valLen, val), st) \<Rightarrow>
                       Inr (w\<lparr>ResponseQueue :=
                                    (ResponseQueue w)
                                      (rid := (if res then RNext keyLen key valLen val
                                               else RNextEnd keyLen)),
                                  store_l := st\<rparr>))))"

definition GetResponse ::
  "'db storage_l \<Rightarrow> 'db KVWorkerProc \<Rightarrow> nat \<Rightarrow> payload \<Rightarrow> string + 'db KVWorkerProc" where
  "GetResponse S w rid area =
     (case map_of (kvTableHash w) (payload_rel area) of
        None \<Rightarrow> Inl ''GetResponse failed in hash search''
      | Some e \<Rightarrow>
          (case Get_db S (db_h e) (payload_key area) (length (payload_key area)) (store_l w) of
             (res, valLen, val) \<Rightarrow>
               Inr (w\<lparr>ResponseQueue :=
                            (ResponseQueue w)(rid := (if res then RGet valLen val else RGetMiss))\<rparr>)))"

definition PutResponse ::
  "'db storage_l \<Rightarrow> 'db KVWorkerProc \<Rightarrow> payload \<Rightarrow> string + 'db KVWorkerProc" where
  "PutResponse S w area =
     (case map_of (kvTableHash w) (payload_rel area) of
        None \<Rightarrow> Inl ''PutResponse failed in hash search''
      | Some e \<Rightarrow>
          (case Put_db S (db_h e) (payload_key area) (length (payload_key area))
                  (payload_val area) (length (payload_val area)) (store_l w) of
             (ok, st) \<Rightarrow>
               if ok then Inr (w\<lparr>store_l := st\<rparr>) else Inl ''error from PutResponse''))"

definition DeleteResponse ::
  "'db storage_l \<Rightarrow> 'db KVWorkerProc \<Rightarrow> payload \<Rightarrow> string + 'db KVWorkerProc" where
  "DeleteResponse S w area =
     (case map_of (kvTableHash w) (payload_rel area) of
        None \<Rightarrow> Inl ''DeleteResponse failed in hash search''
      | Some e \<Rightarrow>
          (case Delete_db S (db_h e) (payload_key area) (length (payload_key area)) (store_l w) of
             (ok, st) \<Rightarrow>
               if ok then Inr (w\<lparr>store_l := st\<rparr>) else Inl ''error from DeleteResponse''))"

fun payload_opts :: "payload \<Rightarrow> RangeQueryOpts" where
  "payload_opts (PRange k os) = os"
| "payload_opts _ =
     \<lparr>startLen = 0, start = [], limitLen = 0, limit = [], batchCapacity = 0,
      rq_attrCount = 0, attrs = []\<rparr>"

definition RangeQueryResponse ::
  "'db storage_l \<Rightarrow> 'db KVWorkerProc \<Rightarrow> nat \<Rightarrow> payload \<Rightarrow> string + 'db KVWorkerProc" where
  "RangeQueryResponse S w rid area =
     (let optionKey = payload_iter area
      in case map_of (kvTableHash w) (relationId optionKey) of
           None \<Rightarrow> Inl ''RangeQueryResponse failed in hash search''
         | Some e \<Rightarrow>
             (let ro = (case kvReadOptionsHash w optionKey of None \<Rightarrow> None | Some r \<Rightarrow> r)
              in case RangeQuery_db S (db_h e) ro (payload_opts area) (pid_k optionKey) (store_l w) of
                   ((ret, bufLen), ro', st) \<Rightarrow>
                     Inr (w\<lparr>kvReadOptionsHash := (kvReadOptionsHash w)(optionKey \<mapsto> ro'),
                                ResponseQueue :=
                                  (ResponseQueue w)
                                    (rid := (if bufLen = 0 then RRangeEmpty else RRange bufLen ret)),
                                store_l := st\<rparr>)))"

text \<open>The switch of \<open>KVWorkerMain\<close>; the default branch reports ERROR.\<close>

definition KVWorkerMain_switch ::
  "'db storage_l \<Rightarrow> 'db KVWorkerProc \<Rightarrow> command \<Rightarrow> string + 'db KVWorkerProc" where
  "KVWorkerMain_switch S w c =
     (case func c of
        OPEN \<Rightarrow> OpenResponse S w (body c)
      | CLOSE \<Rightarrow> CloseResponse w (body c)
      | COUNT \<Rightarrow> CountResponse S w (responseId c) (body c)
      | GETITER \<Rightarrow> GetIterResponse S w (body c)
      | DELITER \<Rightarrow> DelIterResponse S w (body c)
      | NEXT \<Rightarrow> NextResponse S w (responseId c) (body c)
      | GET \<Rightarrow> GetResponse S w (responseId c) (body c)
      | PUT \<Rightarrow> PutResponse S w (body c)
      | DELETE \<Rightarrow> DeleteResponse S w (body c)
      | RANGEQUERY \<Rightarrow> RangeQueryResponse S w (responseId c) (body c)
      | TERMINATE \<Rightarrow> Inl ''KVWorkerMain failed in switch''
      | FuncOther n \<Rightarrow> Inl ''KVWorkerMain failed in switch'')"

text \<open>
  How the worker process ends up: it waits in \<open>SemWait(&ptr->worker)\<close> for the next
  command, it has left the loop by \<open>break\<close> (it then closes every open database
  and exits), or it was ended by an ERROR.
\<close>

datatype 'a ending = Waiting 'a | Exited 'a | Died string 'a

definition post_full :: "'db KVWorkerProc \<Rightarrow> 'db KVWorkerProc" where
  "post_full w = w\<lparr>full_posts := full_posts w + 1\<rparr>"

definition post_responseSync :: "nat \<Rightarrow> 'db KVWorkerProc \<Rightarrow> 'db KVWorkerProc" where
  "post_responseSync rid w = w\<lparr>responseSync_posts := responseSync_posts w @ [rid]\<rparr>"

definition shutdown :: "'db storage_l \<Rightarrow> 'db KVWorkerProc \<Rightarrow> 'db KVWorkerProc" where
  "shutdown S w =
     w\<lparr>store_l := fold (\<lambda>(k, e) st. Close_db S (db_h e) st) (kvTableHash w) (store_l w)\<rparr>"

text \<open>
  The do-while loop of \<open>KVWorkerMain\<close> over the commands that reach the command area,
  one per wake-up: copy the command out, post \<open>full\<close>, leave on TERMINATE after
  posting the terminator's \<open>responseSync\<close>, otherwise run the switch and post the
  requester's \<open>responseSync\<close>. When ERROR is raised in the switch the state is the one
  at the raise: \<open>full\<close> was posted, \<open>responseSync\<close> was not.
\<close>

fun KVWorkerMain ::
  "'db storage_l \<Rightarrow> 'db KVWorkerProc \<Rightarrow> command list \<Rightarrow> 'db KVWorkerProc ending" where
  "KVWorkerMain S w [] = Waiting w"
| "KVWorkerMain S w (c # cs) =
     (let w1 = post_full w
      in if func c = TERMINATE
         then Exited (shutdown S (post_responseSync (responseId c) w1))
         else (case KVWorkerMain_switch S w1 c of
                 Inr w2 \<Rightarrow> KVWorkerMain S (post_responseSync (responseId c) w2) cs
               | Inl e \<Rightarrow> Died e w1))"

section \<open>Workers side by side, and a synthetic collaborator\<close>

text \<open>
  \<open>KVWorkerMain\<close> of src/server/kv_worker.cc builds one \<open>KVWorker\<close> per worker process
  from the worker id it is started with, and each has a message queue of its own. A pool
  maps a worker id to the fate of that worker; a message addressed to \<open>wid\<close> is served by
  that worker's loop.
\<close>

definition serve ::
  "'db storage \<Rightarrow> (nat \<Rightarrow> 'db KVWorker outcome) \<Rightarrow> nat \<Rightarrow> KVMessage \<times> sys
     \<Rightarrow> (nat \<Rightarrow> 'db KVWorker outcome)" where
  "serve S pool wid m =
     pool(wid := (case pool wid of Returns w \<Rightarrow> Run S w [m] | Raises e \<Rightarrow> Raises e
                  | Diverges \<Rightarrow> Diverges))"

text \<open>
  \<open>KVWorkerClient::Terminate\<close> hands its message to \<open>queue_->Send\<close> and returns: it
  leases no response channel (the header keeps the default \<open>rpsId\<close>) and waits for no
  response.
\<close>

definition KVWorkerClient_Terminate :: "nat \<Rightarrow> nat \<Rightarrow> KVMessage" where
  "KVWorkerClient_Terminate workerId db = SimpleMessage KVOpTerminate workerId db"

definition returned :: "'a outcome \<Rightarrow> 'a option" where
  "returned r = (case r of Returns x \<Rightarrow> Some x | Raises e \<Rightarrow> None | Diverges \<Rightarrow> None)"

text \<open>
  A synthetic storage engine for concrete runs: its state is the list of chunks
  \<open>(hasMore, size)\<close> that a range read will emit, one per call, and an exhausted list
  reads as \<open>(False, 0)\<close>. Opening gives connection 1; the other functions do nothing.
\<close>

definition synthetic :: "(bool \<times> nat) list storage" where
  "synthetic =
     \<lparr>OpenConn = (\<lambda>a db. (Some 1, db)),
      CloseConn = (\<lambda>c db. db),
      GetCount = (\<lambda>c db. length db),
      PutRecord = (\<lambda>c bs k v db. (True, db)),
      GetRecord = (\<lambda>c bs k db. (False, [])),
      DelRecord = (\<lambda>c bs k db. (True, db)),
      GetIter = (\<lambda>c db. (1, db)),
      DelIter = (\<lambda>c db. db),
      BatchRead = (\<lambda>c cur db. ((False, 0), db)),
      ParseRangeQueryOptions = (\<lambda>os db. (\<lparr>range_h = 1, readOpts = 0\<rparr>, db)),
      RangeQueryRead = (\<lambda>c r ro db. case db of [] \<Rightarrow> ((False, 0), ro, []) | x # xs \<Rightarrow> (x, ro, xs)),
      ClearRangeQueryMeta = (\<lambda>e db. db)\<rparr>"

definition synthetic_m :: "(bool \<times> nat) list storage_m" where
  "synthetic_m =
     \<lparr>OpenConn = (\<lambda>a db. (Some 1, db)),
      CloseConn = (\<lambda>c db. db),
      GetCount = (\<lambda>c db. length db),
      PutRecord = (\<lambda>c bs k v db. (True, db)),
      GetRecord = (\<lambda>c bs k db. (False, [])),
      DelRecord = (\<lambda>c bs k db. (True, db)),
      GetIter = (\<lambda>c db. (1, db)),
      DelIter = (\<lambda>c db. db),
      BatchRead = (\<lambda>c cur db. ((False, 0), db)),
      ParseRangeQueryOptions = (\<lambda>os db. (\<lparr>range_h = 1, readOpts = 0\<rparr>, db)),
      RangeQueryRead = (\<lambda>c r ro db. case db of [] \<Rightarrow> ((False, 0), ro, []) | x # xs \<Rightarrow> (x, ro, xs)),
      ClearRangeQueryMeta = (\<lambda>e db. db),
      RangeQueryRead_m = (\<lambda>r ro db. case db of [] \<Rightarrow> ((False, 0), ro, []) | x # xs \<Rightarrow> (x, ro, xs))\<rparr>"

definition synthetic_l :: "unit storage_l" where
  "synthetic_l =
     \<lparr>Open_db = (\<lambda>p u a db. (1, db)),
      Close_db = (\<lambda>d db. db),
      Count_db = (\<lambda>d db. 0),
      GetIter_db = (\<lambda>d db. (1, db)),
      DelIter_db = (\<lambda>it db. db),
      Next_db = (\<lambda>d it db. ((False, 0, [], 0, []), db)),
      Get_db = (\<lambda>d k n db. (False, 0, [])),
      Put_db = (\<lambda>d k n v m db. (True, db)),
      Delete_db = (\<lambda>d k n db. (True, db)),
      RangeQuery_db = (\<lambda>d ro os p db. ((False, 0), ro, db))\<rparr>"

definition sys_ok :: sys where
  "sys_ok = \<lparr>unlink_rc = -1, open_fd = 3, ftruncate_rc = 0, mmap_ptr = Some 4096,
            close_rc = 0, munmap_rc = 0\<rparr>"

definition KVWorkerProc0 :: "unit KVWorkerProc" where
  "KVWorkerProc0 =
     \<lparr>kvTableHash = [], kvIterHash = Map.empty, kvReadOptionsHash = Map.empty,
      ResponseQueue = (\<lambda>i. RNothing), responseSync_posts = [], full_posts = 0, store_l = ()\<rparr>"

text \<open>
  A request as \<open>KVWorkerClient::RangeQuery\<close> sends it: the opcode, the worker and
  database ids, the leased response channel 2, and the cursor key of client process 100
  and operation 1 (no options after the key).
\<close>

definition RangeQuery_request :: KVMessage where
  "RangeQuery_request =
     \<lparr>hdr = (hdr (SimpleMessage KVOpRangeQuery 1 1))\<lparr>rpsId := 2\<rparr>,
      ety = RangeQueryEntity \<lparr>pid = 100, opid = 1\<rparr> None\<rparr>"

section \<open>Semaphores and the shared control block (kv_shm.c)\<close>

text \<open>
  A POSIX semaphore is its counter. \<open>sem_trywait\<close> takes one unit when the counter is
  positive and returns 0; otherwise it returns -1 with errno EAGAIN and leaves the
  counter as it is. \<open>sem_post\<close> adds one unit.
\<close>

definition sem_trywait :: "nat \<Rightarrow> int \<times> nat" where
  "sem_trywait v = (if 0 < v then (0, v - 1) else (-1, v))"

definition sem_post :: "nat \<Rightarrow> nat" where
  "sem_post v = v + 1"

text \<open>
  The struct \<open>SharedMem\<close> is declared in kv_fdw.h, outside the sources; its fields are
  the ones kv_shm.c uses. The type of the command area is a parameter: bytes where the
  layout of a frame matters, a decoded command where only the protocol does.
\<close>

record 'a SharedMem =
  area :: 'a
  mutex :: nat
  full :: nat
  worker :: nat
  responseMutex :: "nat list"
  responseSync :: "nat list"

text \<open>
  The for loop of \<open>GetResponseQueueIndex\<close> from index \<open>i\<close>; the number of
  response slots (\<open>RESPONSEQUEUELENGTH\<close>, a macro of kv_fdw.h) is the length of
  \<open>responseMutex\<close>. The result is the ERROR of \<open>SemTryWait\<close>, no slot, or the slot
  taken together with the semaphores after taking it.
\<close>

function GetResponseQueueIndex_for :: "nat list \<Rightarrow> nat \<Rightarrow> string + (nat \<times> nat list) option" where
  "GetResponseQueueIndex_for sems i =
     (if i < length sems
      then (case SemTryWait (fst (sem_trywait (sems ! i))) EAGAIN ''GetResponseQueueIndex'' of
              Inl e \<Rightarrow> Inl e
            | Inr (ret, ws) \<Rightarrow>
                if ret = 0 then Inr (Some (i, sems[i := snd (sem_trywait (sems ! i))]))
                else GetResponseQueueIndex_for (sems[i := snd (sem_trywait (sems ! i))]) (i + 1))
      else Inr None)"
  by pat_completeness auto
termination
  by (relation "measure (\<lambda>(sems, i). length sems - i)") auto

text \<open>
  \<open>while (true)\<close> around the for loop: without a free slot the caller spins, so the
  function is partial and \<open>None\<close> means that it never returns.
\<close>

partial_function (option) GetResponseQueueIndex ::
  "nat list \<Rightarrow> (string + nat \<times> nat list) option" where
  "GetResponseQueueIndex sems =
     (case GetResponseQueueIndex_for sems 0 of
        Inl e \<Rightarrow> Some (Inl e)
      | Inr (Some r) \<Rightarrow> Some (Inr r)
      | Inr None \<Rightarrow> GetResponseQueueIndex sems)"

section \<open>PutRequest and the bytes of the command area\<close>

text \<open>
  The command area as bytes: \<open>area a\<close> is the byte at offset \<open>a\<close> from
  \<open>ptr->area\<close>. The area itself is the offsets below \<open>BUFSIZE\<close> (a macro of
  kv_fdw.h, here a parameter); an offset from \<open>BUFSIZE\<close> on is memory behind the area.
  \<open>memcpy\<close> writes wherever it is told to.
\<close>

definition memcpy :: "(nat \<Rightarrow> nat) \<Rightarrow> nat \<Rightarrow> nat list \<Rightarrow> (nat \<Rightarrow> nat)" where
  "memcpy m dst bs = (\<lambda>a. if dst \<le> a \<and> a < dst + length bs then bs ! (a - dst) else m a)"

text \<open>The \<open>n\<close> bytes of an unsigned value, least significant first.\<close>

fun le_bytes :: "nat \<Rightarrow> nat \<Rightarrow> nat list" where
  "le_bytes 0 x = []"
| "le_bytes (Suc n) x = (x mod 256) # le_bytes n (x div 256)"

text \<open>
  How far a request function gets on its own: it waits for a semaphore nobody posts, it
  spins in \<open>GetResponseQueueIndex\<close>, it raises ERROR, or it has signalled the worker
  and waits for \<open>responseSync[responseId]\<close>.
\<close>

datatype 'a request_outcome = Blocked | NeverReturns | Raised string 'a | Sent nat 'a

text \<open>
  \<open>PutRequest\<close> up to its wait for the response. \<open>code\<close> gives the numeric value of
  an enumerator of \<open>FuncName\<close>; sizeof(FuncName), sizeof(uint32) and sizeof(Oid) are 4,
  sizeof(size_t) is 8. The key and the value are byte lists, their lengths the
  arguments \<open>keyLen\<close> and \<open>valLen\<close>. The size test stands where the source has it:
  after the last memcpy.
\<close>

definition PutRequest ::
  "nat \<Rightarrow> (FuncName \<Rightarrow> nat) \<Rightarrow> nat \<Rightarrow> nat list \<Rightarrow> nat list
     \<Rightarrow> (nat \<Rightarrow> nat) SharedMem \<Rightarrow> (nat \<Rightarrow> nat) SharedMem request_outcome" where
  "PutRequest BUFSIZE code rel key val ptr =
     (if mutex ptr = 0 then Blocked
      else if full ptr = 0 then Blocked
      else
        let keyLen = length key;
            valLen = length val;
            p1 = ptr\<lparr>mutex := mutex ptr - 1, full := full ptr - 1\<rparr>;
            p2 = p1\<lparr>area := memcpy (area p1) 0 (le_bytes 4 (code PUT))\<rparr>
        in case GetResponseQueueIndex (responseMutex p2) of
             None \<Rightarrow> NeverReturns
           | Some (Inl e) \<Rightarrow> Raised e p2
           | Some (Inr (rid, sems)) \<Rightarrow>
               let a1 = memcpy (area p2) 4 (le_bytes 4 rid);
                   a2 = memcpy a1 (4 + 4) (le_bytes 4 rel);
                   current = 4 + 4 + 4;
                   a3 = memcpy a2 current (le_bytes 8 keyLen);
                   current = current + 8;
                   a4 = memcpy a3 current key;
                   current = current + keyLen;
                   a5 = memcpy a4 current (le_bytes 8 valLen);
                   current = current + 8;
                   a6 = memcpy a5 current val;
                   p3 = p2\<lparr>area := a6, responseMutex := sems\<rparr>
               in if current + valLen > BUFSIZE
                  then Raised ''PutRequest tuple is too long, increase BUFSIZE''
                         (p3\<lparr>mutex := sem_post (mutex p3),
                             responseMutex := sems[rid := sem_post (sems ! rid)]\<rparr>)
                  else Sent rid (p3\<lparr>worker := sem_post (worker p3), mutex := sem_post (mutex p3)\<rparr>))"

text \<open>A control block as \<open>KVStorageThreadFun\<close> initialises it, with a zeroed area.\<close>

definition SharedMem_init :: "'a \<Rightarrow> nat \<Rightarrow> 'a SharedMem" where
  "SharedMem_init a n =
     \<lparr>area = a, mutex = 1, full = 1, worker = 0, responseMutex = replicate n 1,
      responseSync = replicate n 0\<rparr>"

section \<open>Concurrent callers of GetResponseQueueIndex\<close>

text \<open>
  Where a process stands with respect to the response slots: outside a request, in
  the for loop of \<open>GetResponseQueueIndex\<close> about to try slot \<open>i\<close>, back from it with
  slot \<open>i\<close> (until its \<open>SemPost\<close> on \<open>responseMutex[i]\<close> at the end of the request),
  or ended by the ERROR of \<open>SemTryWait\<close>.
\<close>

datatype lessee = Outside | Trying nat | Leased nat | Aborted string

record pool =
  locks :: "nat list"
  procs :: "lessee list"

text \<open>
  One atomic step of process \<open>k\<close>: the call, one iteration of the for loop (one
  \<open>SemTryWait\<close>; past the last slot the \<open>while (true)\<close> starts the scan again), or the
  \<open>SemPost\<close> that gives the slot back.
\<close>

definition lease_step :: "nat \<Rightarrow> pool \<Rightarrow> pool" where
  "lease_step k S =
     (if k < length (procs S)
      then (case procs S ! k of
              Outside \<Rightarrow> S\<lparr>procs := (procs S)[k := Trying 0]\<rparr>
            | Trying i \<Rightarrow>
                if i < length (locks S)
                then (case SemTryWait (fst (sem_trywait (locks S ! i))) EAGAIN
                             ''GetResponseQueueIndex'' of
                        Inl e \<Rightarrow> S\<lparr>procs := (procs S)[k := Aborted e]\<rparr>
                      | Inr (ret, ws) \<Rightarrow>
                          if ret = 0
                          then S\<lparr>locks := (locks S)[i := snd (sem_trywait (locks S ! i))],
                                 procs := (procs S)[k := Leased i]\<rparr>
                          else S\<lparr>locks := (locks S)[i := snd (sem_trywait (locks S ! i))],
                                 procs := (procs S)[k := Trying (i + 1)]\<rparr>)
                else S\<lparr>procs := (procs S)[k := Trying 0]\<rparr>
            | Leased i \<Rightarrow>
                S\<lparr>locks := (locks S)[i := sem_post (locks S ! i)],
                  procs := (procs S)[k := Outside]\<rparr>
            | Aborted e \<Rightarrow> S)
      else S)"

text \<open>A schedule is the list of the processes that step, in order.\<close>

fun lease_run :: "nat list \<Rightarrow> pool \<Rightarrow> pool" where
  "lease_run [] S = S"
| "lease_run (k # ks) S = lease_run ks (lease_step k S)"

text \<open>
  \<open>KVStorageThreadFun\<close> initialises every \<open>responseMutex[i]\<close> with the value 1; no process
  is in a request.
\<close>

definition pool_init :: "nat \<Rightarrow> nat \<Rightarrow> pool" where
  "pool_init n m = \<lparr>locks = replicate n 1, procs = replicate m Outside\<rparr>"

text \<open>
  The invariant of the pool: a lock and the processes that hold its slot add up to one.
\<close>

definition lease_inv :: "pool \<Rightarrow> bool" where
  "lease_inv S \<longleftrightarrow>
     (\<forall>i<length (locks S). locks S ! i + count_list (procs S) (Leased i) = 1)
     \<and> (\<forall>k<length (procs S). \<forall>i. procs S ! k = Leased i \<longrightarrow> i < length (locks S))"

section \<open>CountRequest and KVWorkerMain step by step\<close>


text \<open>
  The statements of \<open>CountRequest\<close> that touch shared memory, in the order of the
  source text (lines 636 to 656).
\<close>

datatype call_step =
    TakeMutex | TakeFull | WriteFunc | LeaseSlot | WriteResponseId | WriteRelationId
  | PostWorker | PostMutex | TakeResponseSync | ReadResponse | PostResponseMutex


text \<open>
  The statement a caller of \<open>CountRequest\<close> executes next, with its local variable
  \<open>responseId\<close> once it is set; \<open>AtLease i\<close> is the iteration on slot \<open>i\<close> of
  \<open>GetResponseQueueIndex\<close>. \<open>Returned\<close> carries what was read from the response buffer.
\<close>

datatype client_pc =
    AtWaitMutex | AtWaitFull | AtWriteFunc | AtLease nat | AtWriteRid nat | AtWriteRel nat
  | AtPostWorker nat | AtPostMutex nat | AtWaitSync nat | AtReadCount nat
  | AtUnlease nat response | Returned response | Failed string

text \<open>
  A caller: where it stands, its argument \<open>relationId\<close>, and the list of the steps it
  has completed so far, which each statement extends by its own name.
\<close>

record client =
  cpc :: client_pc
  rel_arg :: nat
  steps :: "call_step list"










fun holds_area :: "client_pc \<Rightarrow> bool" where
  "holds_area AtWriteFunc = True"
| "holds_area (AtLease i) = True"
| "holds_area (AtWriteRid rid) = True"
| "holds_area (AtWriteRel rid) = True"
| "holds_area (AtPostWorker rid) = True"
| "holds_area pc = False"









text \<open>What a caller has put into the command area by the statement it stands at.\<close>

definition written :: "command \<Rightarrow> client \<Rightarrow> bool" where
  "written a c =
     (case cpc c of
        AtLease i \<Rightarrow> func a = COUNT
      | AtWriteRid rid \<Rightarrow> func a = COUNT
      | AtWriteRel rid \<Rightarrow> func a = COUNT \<and> responseId a = rid
      | AtPostWorker rid \<Rightarrow> a = \<lparr>func = COUNT, responseId = rid, body = PRel (rel_arg c)\<rparr>
      | _ \<Rightarrow> True)"









chapter \<open>Theorems\<close>

section \<open>Teardown wrappers\<close>

text \<open>
  C8 (as amended). Of the three teardown wrappers only \<open>ShmUnlink\<close> logs and continues:
  whatever \<open>shm_unlink\<close> returned, it returns to its caller, and on failure (-1) it has
  logged exactly one warning. \<open>Munmap\<close> and \<open>SemDestroy\<close> raise ERROR exactly when
  their system call failed, so the caller is left at that point.
\<close>

theorem teardown_wrappers_on_failure:
  "\<not> aborts (ShmUnlink rc caller)
   \<and> warnings (ShmUnlink (-1) caller) = [caller @ '' ShmUnlink failed'']
   \<and> (aborts (Munmap rc caller) = (rc = -1))
   \<and> (aborts (SemDestroy rc caller) = (rc = -1))"
  by (simp add: aborts_def warnings_def ShmUnlink_def Munmap_def SemDestroy_def)

text \<open>
  C8 (as stated) fails: with a failing system call, \<open>Munmap\<close> and \<open>SemDestroy\<close> do
  not let the caller continue.
\<close>

theorem teardown_abort_counterexample:
  "aborts (Munmap (-1) ''cleanup_handler'') \<and> aborts (SemDestroy (-1) ''cleanup_handler'')"
  by (simp add: aborts_def Munmap_def SemDestroy_def)

section \<open>The receive loops\<close>

text \<open>A worker that has served a prefix of its messages goes on from the state reached.\<close>

lemma Run_append:
  "Run S w (xs @ ys) =
     (case Run S w xs of Returns w' \<Rightarrow> Run S w' ys | Raises e \<Rightarrow> Raises e | Diverges \<Rightarrow> Diverges)"
proof (induction xs arbitrary: w)
  case Nil
  show ?case by simp
next
  case (Cons x xs)
  obtain m env where x: "x = (m, env)" by (cases x)
  show ?case
  proof (cases "running_s w")
    case True
    then show ?thesis using Cons x by (simp split: outcome.splits)
  next
    case False
    then show ?thesis using x by (cases ys) (auto split: outcome.splits)
  qed
qed

section \<open>Open and its reply\<close>

lemma sent_Open: "sent (Open S w msg) = sent w"
  by (simp add: Open_def Let_def split: prod.splits)

lemma sent_Open_m: "sent_m (Open_m T v msg) = sent_m v @ [SimpleSuccessMessage (resChan (hdr msg))]"
  by (simp add: Open_m_def Let_def Send_m_def split: prod.splits)

lemma status_SimpleSuccessMessage: "status (hdr (SimpleSuccessMessage c)) = KVStatusSuccess"
  by (simp add: SimpleSuccessMessage_def SuccessMessage_def KVMessage0_def KVMessageHeader0_def)

text \<open>
  C10. A message whose opcode is \<open>KVOpOpen\<close> is served by the Open handler. The
  handler of src/server/kv_worker.cc sends no message at all; the one of src/kv_worker.cc
  sends exactly one, the Success message for the request's response channel. This holds
  for every storage engine, also one whose \<open>OpenConn\<close> returns the null connection:
  every reply to an Open has the status Success.
\<close>

theorem open_reply_is_success:
  "Run_switch S env w (msg\<lparr>hdr := (hdr msg)\<lparr>op := KVOpOpen\<rparr>\<rparr>)
     = Returns (Open S w (msg\<lparr>hdr := (hdr msg)\<lparr>op := KVOpOpen\<rparr>\<rparr>))
   \<and> Run_switch_m T env v (msg\<lparr>hdr := (hdr msg)\<lparr>op := KVOpOpen\<rparr>\<rparr>)
     = Returns (Open_m T v (msg\<lparr>hdr := (hdr msg)\<lparr>op := KVOpOpen\<rparr>\<rparr>))
   \<and> replies (sent w) (sent (Open S w msg)) = []
   \<and> replies (sent_m v) (sent_m (Open_m T v msg)) = [SimpleSuccessMessage (resChan (hdr msg))]
   \<and> list_all (\<lambda>m. status (hdr m) = KVStatusSuccess) (replies (sent w) (sent (Open S w msg)))
   \<and> list_all (\<lambda>m. status (hdr m) = KVStatusSuccess) (replies (sent_m v) (sent_m (Open_m T v msg)))"
  by (simp add: Run_switch_def Run_switch_m_def replies_def sent_Open sent_Open_m
      status_SimpleSuccessMessage)

section \<open>Reference counting\<close>

lemma op_SimpleMessage: "op (hdr (SimpleMessage opc rid d)) = opc"
  by (simp add: SimpleMessage_def KVMessage0_def KVMessageHeader0_def)

lemma Open_with_conn: "conn_s w = Some h \<Longrightarrow> Open S w msg = w\<lparr>ref_s := ref_s w + 1\<rparr>"
  by (simp add: Open_def Let_def)

lemma Close_with_conn: "conn_s w = Some h \<Longrightarrow> Close w msg = w\<lparr>ref_s := ref_s w - 1\<rparr>"
  by (simp add: Close_def)

lemma Run_open_close:
  assumes "list_all (\<lambda>(m, env). op (hdr m) = KVOpOpen \<or> op (hdr m) = KVOpClose) msgs"
    and "running_s w" and "conn_s w = Some h"
  shows "Run S w msgs =
           Returns (w\<lparr>ref_s := ref_s w
                        + int (length (filter (\<lambda>(m, env). op (hdr m) = KVOpOpen) msgs))
                        - int (length (filter (\<lambda>(m, env). op (hdr m) = KVOpClose) msgs))\<rparr>)"
  using assms
proof (induction msgs arbitrary: w)
  case Nil
  then show ?case by simp
next
  case (Cons x msgs)
  obtain m env where x: "x = (m, env)" by (cases x)
  from Cons.prems x have disj: "op (hdr m) = KVOpOpen \<or> op (hdr m) = KVOpClose"
    and rest: "list_all (\<lambda>(m, env). op (hdr m) = KVOpOpen \<or> op (hdr m) = KVOpClose) msgs"
    by auto
  from disj show ?case
  proof
    assume o: "op (hdr m) = KVOpOpen"
    let ?w = "w\<lparr>ref_s := ref_s w + 1\<rparr>"
    have step: "Run_switch S env w m = Returns ?w"
      using o Cons.prems(3) by (simp add: Run_switch_def Open_with_conn)
    have "Run S ?w msgs = Returns (?w\<lparr>ref_s := ref_s ?w
             + int (length (filter (\<lambda>(m, env). op (hdr m) = KVOpOpen) msgs))
             - int (length (filter (\<lambda>(m, env). op (hdr m) = KVOpClose) msgs))\<rparr>)"
      using Cons.prems by (intro Cons.IH rest) simp_all
    then show ?thesis using x o step Cons.prems(2) by simp
  next
    assume c: "op (hdr m) = KVOpClose"
    let ?w = "w\<lparr>ref_s := ref_s w - 1\<rparr>"
    have step: "Run_switch S env w m = Returns ?w"
      using c Cons.prems(3) by (simp add: Run_switch_def Close_with_conn)
    have "Run S ?w msgs = Returns (?w\<lparr>ref_s := ref_s ?w
             + int (length (filter (\<lambda>(m, env). op (hdr m) = KVOpOpen) msgs))
             - int (length (filter (\<lambda>(m, env). op (hdr m) = KVOpClose) msgs))\<rparr>)"
      using Cons.prems by (intro Cons.IH rest) simp_all
    then show ?thesis using x c step Cons.prems(2) by simp
  qed
qed

lemma map_of_hash_update:
  "map_of (hash_update k f t) k' = (if k' = k then map_option f (map_of t k) else map_of t k')"
  by (induction t) (auto simp: hash_update_def)

lemma handles_hash_update:
  "map (\<lambda>(k, e). (k, db_h e)) (hash_update k (\<lambda>e. e\<lparr>ref_l := g e\<rparr>) t) = map (\<lambda>(k, e). (k, db_h e)) t"
  by (induction t) (auto simp: hash_update_def)

lemma CloseResponse_found:
  assumes "map_of (kvTableHash p) (payload_rel bd) = Some e"
  shows "\<exists>p'. CloseResponse p bd = Inr p'
           \<and> map (\<lambda>(k, e). (k, db_h e)) (kvTableHash p') = map (\<lambda>(k, e). (k, db_h e)) (kvTableHash p)
           \<and> map_of (kvTableHash p') (payload_rel bd) = Some (e\<lparr>ref_l := ref_l e - 1\<rparr>)
           \<and> store_l p' = store_l p"
  using assms by (simp add: CloseResponse_def Let_def handles_hash_update map_of_hash_update)

section \<open>Closing a cursor or a range query\<close>

lemma CloseCursor_twice: "CloseCursor S (CloseCursor S w msg) msg = CloseCursor S w msg"
  by (simp add: CloseCursor_def Let_def split: option.splits)

lemma ClearRangeQuery_twice:
  "ClearRangeQuery S env' (ClearRangeQuery S env w msg) msg = ClearRangeQuery S env w msg"
  by (simp add: ClearRangeQuery_def Let_def split: option.splits)

lemma DelIterResponse_twice:
  "DelIterResponse L q bd = Inr q' \<Longrightarrow> DelIterResponse L q' bd = Inr q'"
  by (auto simp: DelIterResponse_def Let_def split: option.splits)

text \<open>
  C6 (as amended). In src/server/kv_worker.cc, CloseCursor and ClearRangeQuery for a key
  that has no entry return the worker's state as it was, and the switch of the receive
  loop returns normally; closing or clearing twice gives the state that closing or
  clearing once gives. In kv_shm.c, DelIterResponse raises ERROR for a key that has no
  entry; once it has returned for a key, a second call for that key changes nothing
  (the entry stays, with a null iterator).
\<close>

theorem close_unknown_key:
  "(cursors_s w (cursor_key (ety msg)) = None \<longrightarrow>
      CloseCursor S w msg = w
      \<and> Run_switch S env w (msg\<lparr>hdr := (hdr msg)\<lparr>op := KVOpDelCursor\<rparr>\<rparr>) = Returns w)
   \<and> (ranges_s w (cursor_key (ety msg)) = None \<longrightarrow>
      ClearRangeQuery S env w msg = w
      \<and> Run_switch S env w (msg\<lparr>hdr := (hdr msg)\<lparr>op := KVOpClearRangeQuery\<rparr>\<rparr>) = Returns w)
   \<and> CloseCursor S (CloseCursor S w msg) msg = CloseCursor S w msg
   \<and> ClearRangeQuery S env' (ClearRangeQuery S env w msg) msg = ClearRangeQuery S env w msg
   \<and> (kvIterHash p (payload_iter bd) = None \<longrightarrow>
        DelIterResponse L p bd = Inl ''DelIterResponse failed in hash search'')
   \<and> (DelIterResponse L q bd' = Inr q' \<longrightarrow> DelIterResponse L q' bd' = Inr q')"
proof -
  have a: "cursors_s w (cursor_key (ety msg)) = None \<longrightarrow>
      CloseCursor S w msg = w
      \<and> Run_switch S env w (msg\<lparr>hdr := (hdr msg)\<lparr>op := KVOpDelCursor\<rparr>\<rparr>) = Returns w"
    by (simp add: CloseCursor_def Run_switch_def Let_def)
  have b: "ranges_s w (cursor_key (ety msg)) = None \<longrightarrow>
      ClearRangeQuery S env w msg = w
      \<and> Run_switch S env w (msg\<lparr>hdr := (hdr msg)\<lparr>op := KVOpClearRangeQuery\<rparr>\<rparr>) = Returns w"
    by (simp add: ClearRangeQuery_def Run_switch_def Let_def)
  have c: "kvIterHash p (payload_iter bd) = None \<longrightarrow>
        DelIterResponse L p bd = Inl ''DelIterResponse failed in hash search''"
    by (simp add: DelIterResponse_def Let_def)
  have d: "DelIterResponse L q bd' = Inr q' \<longrightarrow> DelIterResponse L q' bd' = Inr q'"
    using DelIterResponse_twice by blast
  from a b c d CloseCursor_twice ClearRangeQuery_twice show ?thesis by blast
qed

text \<open>
  A fresh worker has no cursor and no range query; the legacy worker \<open>KVWorkerProc0\<close>
  has no iterator, and one with iterator 5 for relation 7 and process 100 closes it
  once and then does nothing.
\<close>

theorem close_unknown_key_witness:
  "cursors_s (Start (KVWorker_new ([]::(bool \<times> nat) list))) (cursor_key (CursorEntity \<lparr>pid = 100, opid = 1\<rparr>)) = None
   \<and> ranges_s (Start (KVWorker_new ([]::(bool \<times> nat) list))) (cursor_key (CursorEntity \<lparr>pid = 100, opid = 1\<rparr>)) = None
   \<and> CloseCursor synthetic (Start (KVWorker_new ([]::(bool \<times> nat) list)))
        \<lparr>hdr = KVMessageHeader0, ety = CursorEntity \<lparr>pid = 100, opid = 1\<rparr>\<rparr> = Start (KVWorker_new ([]::(bool \<times> nat) list))
   \<and> ClearRangeQuery synthetic sys_ok (Start (KVWorker_new ([]::(bool \<times> nat) list)))
        \<lparr>hdr = KVMessageHeader0, ety = CursorEntity \<lparr>pid = 100, opid = 1\<rparr>\<rparr> = Start (KVWorker_new ([]::(bool \<times> nat) list))
   \<and> kvIterHash KVWorkerProc0 (payload_iter (PIter \<lparr>relationId = 7, pid_k = 100\<rparr>)) = None
   \<and> DelIterResponse synthetic_l KVWorkerProc0 (PIter \<lparr>relationId = 7, pid_k = 100\<rparr>)
       = Inl ''DelIterResponse failed in hash search''
   \<and> DelIterResponse synthetic_l
        (KVWorkerProc0\<lparr>kvIterHash := [\<lparr>relationId = 7, pid_k = 100\<rparr> \<mapsto> Some 5]\<rparr>)
        (PIter \<lparr>relationId = 7, pid_k = 100\<rparr>)
       = Inr (KVWorkerProc0\<lparr>kvIterHash := [\<lparr>relationId = 7, pid_k = 100\<rparr> \<mapsto> None]\<rparr>)
   \<and> DelIterResponse synthetic_l
        (KVWorkerProc0\<lparr>kvIterHash := [\<lparr>relationId = 7, pid_k = 100\<rparr> \<mapsto> None]\<rparr>)
        (PIter \<lparr>relationId = 7, pid_k = 100\<rparr>)
       = Inr (KVWorkerProc0\<lparr>kvIterHash := [\<lparr>relationId = 7, pid_k = 100\<rparr> \<mapsto> None]\<rparr>)"
proof -
  let ?w = "Start (KVWorker_new ([]::(bool \<times> nat) list))"
  let ?m = "\<lparr>hdr = KVMessageHeader0, ety = CursorEntity \<lparr>pid = 100, opid = 1\<rparr>\<rparr>"
  let ?k = "\<lparr>relationId = 7, pid_k = 100\<rparr>"
  let ?q = "KVWorkerProc0\<lparr>kvIterHash := [?k \<mapsto> Some 5]\<rparr>"
  let ?q' = "KVWorkerProc0\<lparr>kvIterHash := [?k \<mapsto> None]\<rparr>"
  have h1: "cursors_s ?w (cursor_key (ety ?m)) = None" "ranges_s ?w (cursor_key (ety ?m)) = None"
    by (simp_all add: Start_def KVWorker_new_def)
  have h2: "kvIterHash KVWorkerProc0 (payload_iter (PIter ?k)) = None"
    by (simp add: KVWorkerProc0_def)
  have h3: "DelIterResponse synthetic_l ?q (PIter ?k) = Inr ?q'"
    by (simp add: DelIterResponse_def Let_def KVWorkerProc0_def synthetic_l_def)
  note main = close_unknown_key [where w = ?w and msg = ?m and S = synthetic and env = sys_ok
      and p = KVWorkerProc0 and bd = "PIter ?k" and L = synthetic_l
      and q = ?q and bd' = "PIter ?k" and q' = ?q']
  from main h1 have c1: "CloseCursor synthetic ?w ?m = ?w" and c2: "ClearRangeQuery synthetic sys_ok ?w ?m = ?w"
    by blast+
  from main h2 have c3: "DelIterResponse synthetic_l KVWorkerProc0 (PIter ?k)
       = Inl ''DelIterResponse failed in hash search''" by blast
  from main h3 have c4: "DelIterResponse synthetic_l ?q' (PIter ?k) = Inr ?q'" by blast
  from h1 h2 h3 c1 c2 c3 c4 show ?thesis by simp
qed

text \<open>
  C6 (as stated) fails in kv_shm.c: closing an iterator for a key that was never
  registered raises ERROR.
\<close>

theorem close_unknown_key_counterexample:
  "DelIterResponse synthetic_l KVWorkerProc0 (PIter \<lparr>relationId = 7, pid_k = 100\<rparr>)
     = Inl ''DelIterResponse failed in hash search''"
  by (simp add: DelIterResponse_def Let_def KVWorkerProc0_def)

section \<open>Unknown opcodes and Terminate\<close>

lemma KVWorkerMain_append:
  "KVWorkerMain L p (xs @ ys) =
     (case KVWorkerMain L p xs of Waiting p1 \<Rightarrow> KVWorkerMain L p1 ys
      | Exited q \<Rightarrow> Exited q | Died e q \<Rightarrow> Died e q)"
  by (induction xs arbitrary: p) (auto simp: Let_def split: sum.splits)

lemma Run_m_append:
  "Run_m T v (xs @ ys) =
     (case Run_m T v xs of Returns v' \<Rightarrow> Run_m T v' ys | Raises e \<Rightarrow> Raises e | Diverges \<Rightarrow> Diverges)"
proof (induction xs arbitrary: v)
  case Nil
  show ?case by simp
next
  case (Cons x xs)
  obtain m env where x: "x = (m, env)" by (cases x)
  show ?case
  proof (cases "running v")
    case True
    then show ?thesis using Cons x by (simp split: outcome.splits)
  next
    case False
    then show ?thesis using x by (cases ys) (auto split: outcome.splits)
  qed
qed

text \<open>
  C7 (as amended). In both queue-based workers an opcode that the switch does not know
  is reported as a warning: the switch returns the worker's state with one more
  diagnostic and nothing else changed, and a running worker goes on with the messages
  that follow. In kv_shm.c the default branch raises ERROR: the process ends there, with
  \<open>full\<close> posted and no \<open>responseSync\<close> posted, whatever commands would follow. A
  message served by one worker of a pool leaves every other worker as it was.
\<close>

theorem unknown_opcode:
  "Run_switch S env w (msg\<lparr>hdr := (hdr msg)\<lparr>op := KVOpUnknown n\<rparr>\<rparr>)
     = Returns (w\<lparr>diag := diag w @ [''invalid operation'']\<rparr>)
   \<and> (running_s w \<longrightarrow>
        Run S w ((msg\<lparr>hdr := (hdr msg)\<lparr>op := KVOpUnknown n\<rparr>\<rparr>, env) # rest)
          = Run S (w\<lparr>diag := diag w @ [''invalid operation'']\<rparr>) rest)
   \<and> Run_switch_m T env v (msg\<lparr>hdr := (hdr msg)\<lparr>op := KVOpUnknown n\<rparr>\<rparr>)
     = Returns (v\<lparr>diag_m := diag_m v @ [''unsupported op in kv worker'']\<rparr>)
   \<and> (running v \<longrightarrow>
        Run_m T v ((msg\<lparr>hdr := (hdr msg)\<lparr>op := KVOpUnknown n\<rparr>\<rparr>, env) # rest)
          = Run_m T (v\<lparr>diag_m := diag_m v @ [''unsupported op in kv worker'']\<rparr>) rest)
   \<and> KVWorkerMain L p (c\<lparr>func := FuncOther n\<rparr> # cs)
       = Died ''KVWorkerMain failed in switch'' (post_full p)
   \<and> (j \<noteq> wid \<longrightarrow> serve S pool wid (m, env) j = pool j)"
  by (simp add: Run_switch_def Run_switch_m_def KVWorkerMain_switch_def Let_def serve_def)

theorem unknown_opcode_witness:
  "running_s (Start (KVWorker_new ([]::(bool \<times> nat) list)))
   \<and> map_option running_s (returned (Run synthetic (Start (KVWorker_new ([]::(bool \<times> nat) list)))
        [(SimpleMessage (KVOpUnknown 99) 1 1, sys_ok), (SimpleMessage KVOpCount 1 1, sys_ok)]))
       = Some True
   \<and> map_option (map ety \<circ> sent) (returned (Run synthetic (Start (KVWorker_new ([]::(bool \<times> nat) list)))
        [(SimpleMessage (KVOpUnknown 99) 1 1, sys_ok), (SimpleMessage KVOpCount 1 1, sys_ok)]))
       = Some [CountEntity 0]
   \<and> map_option diag (returned (Run synthetic (Start (KVWorker_new ([]::(bool \<times> nat) list)))
        [(SimpleMessage (KVOpUnknown 99) 1 1, sys_ok), (SimpleMessage KVOpCount 1 1, sys_ok)]))
       = Some [''invalid operation'']
   \<and> running (\<lparr>running = True, conn = None, ref = 0, cursors = Map.empty, ranges = Map.empty,
                channel_terminated = False, sent_m = [], diag_m = [], store_m = ([]::(bool \<times> nat) list)\<rparr>)
   \<and> map_option diag_m (returned (Run_m synthetic_m
        \<lparr>running = True, conn = None, ref = 0, cursors = Map.empty, ranges = Map.empty,
         channel_terminated = False, sent_m = [], diag_m = [], store_m = ([]::(bool \<times> nat) list)\<rparr>
        [(SimpleMessage (KVOpUnknown 99) 1 1, sys_ok), (SimpleMessage KVOpCount 1 1, sys_ok)]))
       = Some [''unsupported op in kv worker'']
   \<and> map_option (map ety \<circ> sent_m) (returned (Run_m synthetic_m
        \<lparr>running = True, conn = None, ref = 0, cursors = Map.empty, ranges = Map.empty,
         channel_terminated = False, sent_m = [], diag_m = [], store_m = ([]::(bool \<times> nat) list)\<rparr>
        [(SimpleMessage (KVOpUnknown 99) 1 1, sys_ok), (SimpleMessage KVOpCount 1 1, sys_ok)]))
       = Some [CountEntity 0]
   \<and> KVWorkerMain synthetic_l KVWorkerProc0
        [\<lparr>func = FuncOther 99, responseId = 0, body = PNone\<rparr>,
         \<lparr>func = COUNT, responseId = 1, body = PRel 7\<rparr>]
       = Died ''KVWorkerMain failed in switch'' (KVWorkerProc0\<lparr>full_posts := 1\<rparr>)
   \<and> (2::nat) \<noteq> 1
   \<and> serve synthetic (\<lambda>i. Returns (Start (KVWorker_new ([]::(bool \<times> nat) list)))) 1
        (SimpleMessage (KVOpUnknown 99) 1 1, sys_ok) 2 = Returns (Start (KVWorker_new ([]::(bool \<times> nat) list)))"
proof -
  let ?w = "Start (KVWorker_new ([]::(bool \<times> nat) list))"
  let ?v = "\<lparr>running = True, conn = None, ref = 0, cursors = Map.empty, ranges = Map.empty,
             channel_terminated = False, sent_m = [], diag_m = [], store_m = ([]::(bool \<times> nat) list)\<rparr>"
  let ?u = "SimpleMessage (KVOpUnknown 99) 1 1"
  let ?c = "\<lparr>func = COUNT, responseId = 1, body = PRel 7\<rparr>"
  have u: "?u\<lparr>hdr := (hdr ?u)\<lparr>op := KVOpUnknown 99\<rparr>\<rparr> = ?u"
    by (simp add: SimpleMessage_def KVMessage0_def KVMessageHeader0_def)
  have h1: "running_s ?w" by (simp add: Start_def)
  have h2: "running ?v" by simp
  note main = unknown_opcode [where S = synthetic and env = sys_ok and w = ?w and msg = ?u
      and n = 99 and rest = "[(SimpleMessage KVOpCount 1 1, sys_ok)]" and T = synthetic_m
      and v = ?v and L = synthetic_l and p = KVWorkerProc0
      and c = "\<lparr>func = COUNT, responseId = 0, body = PNone\<rparr>" and cs = "[?c]"
      and j = 2 and wid = 1 and pool = "\<lambda>i. Returns ?w" and m = ?u]
  note main' = main [unfolded u]
  have r1: "Run synthetic ?w [(?u, sys_ok), (SimpleMessage KVOpCount 1 1, sys_ok)]
      = Run synthetic (?w\<lparr>diag := diag ?w @ [''invalid operation'']\<rparr>) [(SimpleMessage KVOpCount 1 1, sys_ok)]"
    by (rule main' [THEN conjunct2, THEN conjunct1, rule_format, OF h1])
  have r1': "Run synthetic (?w\<lparr>diag := diag ?w @ [''invalid operation'']\<rparr>) [(SimpleMessage KVOpCount 1 1, sys_ok)]
      = Returns (?w\<lparr>diag := [''invalid operation''],
            sent := [KVMessage0\<lparr>hdr := KVMessageHeader0\<lparr>etySize := 8, rpsId := 0\<rparr>, ety := CountEntity 0\<rparr>]\<rparr>)"
    by (simp add: Start_def Run_switch_def SimpleMessage_def KVMessage0_def KVMessageHeader0_def
        Count_def Send_def KVWorker_new_def synthetic_def)
  have r2: "Run_m synthetic_m ?v [(?u, sys_ok), (SimpleMessage KVOpCount 1 1, sys_ok)]
      = Run_m synthetic_m (?v\<lparr>diag_m := diag_m ?v @ [''unsupported op in kv worker'']\<rparr>)
          [(SimpleMessage KVOpCount 1 1, sys_ok)]"
    by (rule main' [THEN conjunct2, THEN conjunct2, THEN conjunct2, THEN conjunct1, rule_format, OF h2])
  have r2': "Run_m synthetic_m (?v\<lparr>diag_m := diag_m ?v @ [''unsupported op in kv worker'']\<rparr>)
          [(SimpleMessage KVOpCount 1 1, sys_ok)]
      = Returns (?v\<lparr>diag_m := [''unsupported op in kv worker''],
            sent_m := [KVMessage0\<lparr>hdr := KVMessageHeader0\<lparr>etySize := 8, rpsId := 0\<rparr>, ety := CountEntity 0\<rparr>]\<rparr>)"
    by (simp add: Run_switch_m_def SimpleMessage_def KVMessage0_def KVMessageHeader0_def
        Count_m_def Send_m_def synthetic_m_def)
  have cf: "\<lparr>func = COUNT, responseId = 0, body = PNone\<rparr>\<lparr>func := FuncOther 99\<rparr>
      = \<lparr>func = FuncOther 99, responseId = 0, body = PNone\<rparr>" by simp
  have r3: "KVWorkerMain synthetic_l KVWorkerProc0
        [\<lparr>func = FuncOther 99, responseId = 0, body = PNone\<rparr>, ?c]
       = Died ''KVWorkerMain failed in switch'' (post_full KVWorkerProc0)"
    by (rule main' [THEN conjunct2, THEN conjunct2, THEN conjunct2, THEN conjunct2, THEN conjunct1,
          unfolded cf])
  have ne: "(2::nat) \<noteq> 1" by simp
  have r4: "serve synthetic (\<lambda>i. Returns ?w) 1 (?u, sys_ok) 2 = Returns ?w"
    by (rule main' [THEN conjunct2, THEN conjunct2, THEN conjunct2, THEN conjunct2, THEN conjunct2,
          rule_format, OF ne])
  have pf: "post_full KVWorkerProc0 = KVWorkerProc0\<lparr>full_posts := 1\<rparr>"
    by (simp add: post_full_def KVWorkerProc0_def)
  show ?thesis
    unfolding r1 r1' r2 r2' r3 r4 pf
    using h1 by (simp add: returned_def Start_def KVMessage0_def)
qed

text \<open>
  C7 (as stated) fails for the queue-based worker: after a message with the unknown
  opcode 99 the worker is still running and answers the Count that follows.
\<close>

theorem unknown_opcode_counterexample:
  "map_option running_s (returned (Run synthetic (Start (KVWorker_new ([]::(bool \<times> nat) list)))
        [(SimpleMessage (KVOpUnknown 99) 1 1, sys_ok), (SimpleMessage KVOpCount 1 1, sys_ok)]))
       = Some True
   \<and> map_option (map ety \<circ> sent) (returned (Run synthetic (Start (KVWorker_new ([]::(bool \<times> nat) list)))
        [(SimpleMessage (KVOpUnknown 99) 1 1, sys_ok), (SimpleMessage KVOpCount 1 1, sys_ok)]))
       = Some [CountEntity 0]"
  by (simp add: returned_def Start_def KVWorker_new_def Run_switch_def SimpleMessage_def
      KVMessage0_def KVMessageHeader0_def Count_def Send_def synthetic_def)

lemma Run_stopped: "\<not> running_s w \<Longrightarrow> Run S w later = Returns w"
  by (cases later) auto

text \<open>
  C9 (as amended). In kv_shm.c a worker that has served the commands \<open>pre\<close> and then
  finds TERMINATE in the command area posts \<open>full\<close>, posts the \<open>responseSync\<close> of the
  response id named in the command, leaves its loop and shuts down; the commands that
  would follow play no part in the result. In src/server/kv_worker.cc a running worker
  that receives Terminate stops: \<open>running_\<close> is false, the queue is told to stop, no
  message is sent, and whatever arrives later is not served. The client's Terminate
  names no response channel of its own: the header keeps the default id 0.
\<close>

theorem terminate_ends_loop:
  "(KVWorkerMain L p pre = Waiting pa \<longrightarrow>
      KVWorkerMain L p (pre @ c\<lparr>func := TERMINATE\<rparr> # rest)
        = Exited (shutdown L (post_responseSync (responseId c) (post_full pa)))
      \<and> responseSync_posts (shutdown L (post_responseSync (responseId c) (post_full pa)))
        = responseSync_posts pa @ [responseId c])
   \<and> (Run S w pre' = Returns wa \<and> running_s wa \<longrightarrow>
      Run S w (pre' @ (t\<lparr>hdr := (hdr t)\<lparr>op := KVOpTerminate\<rparr>\<rparr>, env) # rest') = Returns (Stop wa)
      \<and> Run S (Stop wa) later = Returns (Stop wa))
   \<and> \<not> running_s (Stop wa) \<and> queue_stopped (Stop wa) \<and> sent (Stop wa) = sent wa
   \<and> op (hdr (KVWorkerClient_Terminate wid d)) = KVOpTerminate
   \<and> rpsId (hdr (KVWorkerClient_Terminate wid d)) = 0"
proof -
  have a: "KVWorkerMain L p pre = Waiting pa \<longrightarrow>
      KVWorkerMain L p (pre @ c\<lparr>func := TERMINATE\<rparr> # rest)
        = Exited (shutdown L (post_responseSync (responseId c) (post_full pa)))
      \<and> responseSync_posts (shutdown L (post_responseSync (responseId c) (post_full pa)))
        = responseSync_posts pa @ [responseId c]"
    by (simp add: KVWorkerMain_append Let_def shutdown_def post_responseSync_def post_full_def)
  have s: "\<not> running_s (Stop wa)" by (simp add: Stop_def)
  have b: "Run S w pre' = Returns wa \<and> running_s wa \<longrightarrow>
      Run S w (pre' @ (t\<lparr>hdr := (hdr t)\<lparr>op := KVOpTerminate\<rparr>\<rparr>, env) # rest') = Returns (Stop wa)
      \<and> Run S (Stop wa) later = Returns (Stop wa)"
  proof (intro impI conjI)
    assume h: "Run S w pre' = Returns wa \<and> running_s wa"
    have "Run S wa ((t\<lparr>hdr := (hdr t)\<lparr>op := KVOpTerminate\<rparr>\<rparr>, env) # rest') = Run S (Stop wa) rest'"
      using h by (simp add: Run_switch_def Terminate_def)
    also have "\<dots> = Returns (Stop wa)" using s by (rule Run_stopped)
    finally show "Run S w (pre' @ (t\<lparr>hdr := (hdr t)\<lparr>op := KVOpTerminate\<rparr>\<rparr>, env) # rest') = Returns (Stop wa)"
      using h by (simp add: Run_append)
    show "Run S (Stop wa) later = Returns (Stop wa)" using s by (rule Run_stopped)
  qed
  have c: "queue_stopped (Stop wa) \<and> sent (Stop wa) = sent wa" by (simp add: Stop_def)
  have d: "op (hdr (KVWorkerClient_Terminate wid d)) = KVOpTerminate
     \<and> rpsId (hdr (KVWorkerClient_Terminate wid d)) = 0"
    by (simp add: KVWorkerClient_Terminate_def SimpleMessage_def KVMessage0_def KVMessageHeader0_def)
  from a b s c d show ?thesis by blast
qed

text \<open>
  The legacy worker with relation 7 open serves a Count for response id 3, then finds
  TERMINATE with response id 5: it has posted \<open>responseSync\<close> 3 and 5 and \<open>full\<close>
  twice, and the Count behind the TERMINATE is never served. The queue-based worker
  serves a Count, stops at Terminate and does not answer the Count behind it.
\<close>

theorem terminate_ends_loop_witness:
  "KVWorkerMain synthetic_l (KVWorkerProc0\<lparr>kvTableHash := [(7, \<lparr>ref_l = 1, db_h = 42\<rparr>)]\<rparr>)
      [\<lparr>func = COUNT, responseId = 3, body = PRel 7\<rparr>]
     = Waiting (KVWorkerProc0\<lparr>kvTableHash := [(7, \<lparr>ref_l = 1, db_h = 42\<rparr>)],
                  ResponseQueue := (\<lambda>i. RNothing)(3 := RCount 0),
                  responseSync_posts := [3], full_posts := 1\<rparr>)
   \<and> KVWorkerMain synthetic_l (KVWorkerProc0\<lparr>kvTableHash := [(7, \<lparr>ref_l = 1, db_h = 42\<rparr>)]\<rparr>)
      [\<lparr>func = COUNT, responseId = 3, body = PRel 7\<rparr>,
       \<lparr>func = TERMINATE, responseId = 5, body = PNone\<rparr>,
       \<lparr>func = COUNT, responseId = 4, body = PRel 7\<rparr>]
     = Exited (KVWorkerProc0\<lparr>kvTableHash := [(7, \<lparr>ref_l = 1, db_h = 42\<rparr>)],
                  ResponseQueue := (\<lambda>i. RNothing)(3 := RCount 0),
                  responseSync_posts := [3, 5], full_posts := 2\<rparr>)
   \<and> Run synthetic (Start (KVWorker_new ([]::(bool \<times> nat) list)))
        [(SimpleMessage KVOpCount 1 1, sys_ok)]
     = Returns (Start (KVWorker_new ([]::(bool \<times> nat) list))
         \<lparr>sent := [KVMessage0\<lparr>hdr := KVMessageHeader0\<lparr>etySize := 8, rpsId := 0\<rparr>,
                              ety := CountEntity 0\<rparr>]\<rparr>)
   \<and> running_s (Start (KVWorker_new ([]::(bool \<times> nat) list))
         \<lparr>sent := [KVMessage0\<lparr>hdr := KVMessageHeader0\<lparr>etySize := 8, rpsId := 0\<rparr>,
                              ety := CountEntity 0\<rparr>]\<rparr>)
   \<and> Run synthetic (Start (KVWorker_new ([]::(bool \<times> nat) list)))
        [(SimpleMessage KVOpCount 1 1, sys_ok), (KVWorkerClient_Terminate 1 1, sys_ok),
         (SimpleMessage KVOpCount 1 1, sys_ok)]
     = Returns (Stop (Start (KVWorker_new ([]::(bool \<times> nat) list))
         \<lparr>sent := [KVMessage0\<lparr>hdr := KVMessageHeader0\<lparr>etySize := 8, rpsId := 0\<rparr>,
                              ety := CountEntity 0\<rparr>]\<rparr>))"
proof -
  let ?p = "KVWorkerProc0\<lparr>kvTableHash := [(7, \<lparr>ref_l = 1, db_h = 42\<rparr>)]\<rparr>"
  let ?p1 = "KVWorkerProc0\<lparr>kvTableHash := [(7, \<lparr>ref_l = 1, db_h = 42\<rparr>)],
                  ResponseQueue := (\<lambda>i. RNothing)(3 := RCount 0),
                  responseSync_posts := [3], full_posts := 1\<rparr>"
  let ?c3 = "\<lparr>func = COUNT, responseId = 3, body = PRel 7\<rparr>"
  let ?c4 = "\<lparr>func = COUNT, responseId = 4, body = PRel 7\<rparr>"
  let ?w = "Start (KVWorker_new ([]::(bool \<times> nat) list))"
  let ?w1 = "?w\<lparr>sent := [KVMessage0\<lparr>hdr := KVMessageHeader0\<lparr>etySize := 8, rpsId := 0\<rparr>,
                              ety := CountEntity 0\<rparr>]\<rparr>"
  let ?cm = "(SimpleMessage KVOpCount 1 1, sys_ok)"
  let ?t = "KVWorkerClient_Terminate 1 1"
  have h1: "KVWorkerMain synthetic_l ?p [?c3] = Waiting ?p1"
    by (simp add: KVWorkerMain_switch_def CountResponse_def KVWorkerProc0_def synthetic_l_def
        post_full_def post_responseSync_def)
  have h2: "Run synthetic ?w [?cm] = Returns ?w1"
    by (simp add: Start_def Run_switch_def SimpleMessage_def KVMessage0_def KVMessageHeader0_def
        Count_def Send_def KVWorker_new_def synthetic_def)
  have h3: "running_s ?w1" by (simp add: Start_def)
  have tf: "\<lparr>func = COUNT, responseId = 5, body = PNone\<rparr>\<lparr>func := TERMINATE\<rparr>
      = \<lparr>func = TERMINATE, responseId = 5, body = PNone\<rparr>" by simp
  have tt: "?t\<lparr>hdr := (hdr ?t)\<lparr>op := KVOpTerminate\<rparr>\<rparr> = ?t"
    by (simp add: KVWorkerClient_Terminate_def SimpleMessage_def KVMessage0_def KVMessageHeader0_def)
  note main = terminate_ends_loop [where L = synthetic_l and p = ?p and pre = "[?c3]" and pa = ?p1
      and c = "\<lparr>func = COUNT, responseId = 5, body = PNone\<rparr>" and rest = "[?c4]"
      and S = synthetic and w = ?w and pre' = "[?cm]" and wa = ?w1 and t = ?t and env = sys_ok
      and rest' = "[?cm]" and later = "[]" and wid = 1 and d = 1, unfolded tf tt]
  have r1: "KVWorkerMain synthetic_l ?p ([?c3] @ [\<lparr>func = TERMINATE, responseId = 5, body = PNone\<rparr>, ?c4])
      = Exited (shutdown synthetic_l (post_responseSync (responseId \<lparr>func = COUNT, responseId = 5, body = PNone\<rparr>) (post_full ?p1)))"
    by (rule main [THEN conjunct1, rule_format, OF h1, THEN conjunct1])
  have sh: "shutdown synthetic_l (post_responseSync (responseId \<lparr>func = COUNT, responseId = 5, body = PNone\<rparr>) (post_full ?p1))
      = KVWorkerProc0\<lparr>kvTableHash := [(7, \<lparr>ref_l = 1, db_h = 42\<rparr>)],
                  ResponseQueue := (\<lambda>i. RNothing)(3 := RCount 0),
                  responseSync_posts := [3, 5], full_posts := 2\<rparr>"
    by (simp add: shutdown_def post_responseSync_def post_full_def KVWorkerProc0_def synthetic_l_def)
  have r2: "Run synthetic ?w ([?cm] @ [(?t, sys_ok), ?cm]) = Returns (Stop ?w1)"
    by (rule main [THEN conjunct2, THEN conjunct1, rule_format, OF conjI [OF h2 h3], THEN conjunct1])
  show ?thesis
    using h1 h2 h3 r1 [unfolded sh] r2 by simp
qed

text \<open>
  C9 (as stated) fails for the queue-based worker: serving the client's Terminate it
  stops without sending anything, so no response channel is signalled.
\<close>

theorem terminate_ends_loop_counterexample:
  "map_option sent (returned (Run synthetic (Start (KVWorker_new ([]::(bool \<times> nat) list)))
        [(KVWorkerClient_Terminate 1 1, sys_ok)])) = Some []
   \<and> map_option running_s (returned (Run synthetic (Start (KVWorker_new ([]::(bool \<times> nat) list)))
        [(KVWorkerClient_Terminate 1 1, sys_ok)])) = Some False"
  by (simp add: returned_def Start_def KVWorker_new_def Run_switch_def KVWorkerClient_Terminate_def
      SimpleMessage_def KVMessage0_def KVMessageHeader0_def Terminate_def Stop_def)

section \<open>Open and Close over sequences\<close>

lemma CloseResponse_missing:
  "map_of (kvTableHash p) (payload_rel bd) = None
     \<Longrightarrow> CloseResponse p bd = Inl ''CloseResponse failed in hash search''"
  by (simp add: CloseResponse_def Let_def)

lemma handles_map_of:
  assumes "map (\<lambda>(k, e). (k, db_h e)) t' = map (\<lambda>(k, e). (k, db_h e)) t"
  shows "map_option db_h (map_of t' r) = map_option db_h (map_of t r)"
proof -
  have "map_of (map (\<lambda>(k, e). (k, db_h e)) u) r = map_option db_h (map_of u r)" for u
    by (induction u) auto
  with assms show ?thesis by metis
qed

lemma Run_differs_in_ref:
  assumes "list_all (\<lambda>(m, env). op (hdr m) = KVOpOpen \<or> op (hdr m) = KVOpClose) msgs"
    and "running_s w" and "conn_s w = Some h"
  shows "\<exists>w'. Run S w msgs = Returns w' \<and> w'\<lparr>ref_s := ref_s w\<rparr> = w"
  using Run_open_close [OF assms, of S] by simp

lemma KVWorkerMain_closes:
  assumes "list_all (\<lambda>c. func c = CLOSE \<and> map_of (kvTableHash p0) (payload_rel (body c)) \<noteq> None) cs"
    and "map (\<lambda>(k, e). (k, db_h e)) (kvTableHash p) = map (\<lambda>(k, e). (k, db_h e)) (kvTableHash p0)"
  shows "\<exists>p'. KVWorkerMain L p cs = Waiting p'
           \<and> map (\<lambda>(k, e). (k, db_h e)) (kvTableHash p') = map (\<lambda>(k, e). (k, db_h e)) (kvTableHash p0)
           \<and> store_l p' = store_l p
           \<and> ResponseQueue p' = ResponseQueue p"
  using assms
proof (induction cs arbitrary: p)
  case Nil
  then show ?case by simp
next
  case (Cons c cs)
  from Cons.prems(1) have fc: "func c = CLOSE"
    and ent: "map_of (kvTableHash p0) (payload_rel (body c)) \<noteq> None"
    and rest: "list_all (\<lambda>c. func c = CLOSE \<and> map_of (kvTableHash p0) (payload_rel (body c)) \<noteq> None) cs"
    by simp_all
  from handles_map_of [OF Cons.prems(2), of "payload_rel (body c)"] ent
  obtain e where e: "map_of (kvTableHash p) (payload_rel (body c)) = Some e"
    by (cases "map_of (kvTableHash p) (payload_rel (body c))") auto
  then have e1: "map_of (kvTableHash (post_full p)) (payload_rel (body c)) = Some e"
    by (simp add: post_full_def)
  from CloseResponse_found [OF e1] obtain p1 where
    cr: "CloseResponse (post_full p) (body c) = Inr p1"
    and hd: "map (\<lambda>(k, e). (k, db_h e)) (kvTableHash p1)
               = map (\<lambda>(k, e). (k, db_h e)) (kvTableHash (post_full p))"
    and st: "store_l p1 = store_l (post_full p)"
    by blast
  have rq: "ResponseQueue p1 = ResponseQueue p"
    using cr e1 by (auto simp: CloseResponse_def Let_def post_full_def)
  let ?p2 = "post_responseSync (responseId c) p1"
  have h2: "map (\<lambda>(k, e). (k, db_h e)) (kvTableHash ?p2)
              = map (\<lambda>(k, e). (k, db_h e)) (kvTableHash p0)"
    using hd Cons.prems(2) by (simp add: post_responseSync_def post_full_def)
  from Cons.IH [OF rest h2] obtain p' where
    r: "KVWorkerMain L ?p2 cs = Waiting p'"
    and h': "map (\<lambda>(k, e). (k, db_h e)) (kvTableHash p') = map (\<lambda>(k, e). (k, db_h e)) (kvTableHash p0)"
    and s': "store_l p' = store_l ?p2" and q': "ResponseQueue p' = ResponseQueue ?p2"
    by blast
  have "KVWorkerMain L p (c # cs) = KVWorkerMain L ?p2 cs"
    using fc cr by (simp add: Let_def KVWorkerMain_switch_def)
  with r h' s' q' st rq show ?case
    by (simp add: post_responseSync_def post_full_def)
qed

lemma KVWorkerMain_close_missing:
  assumes "map_of (kvTableHash p) (payload_rel bd) = None"
  shows "KVWorkerMain L p (\<lparr>func = CLOSE, responseId = rid, body = bd\<rparr> # later)
           = Died ''CloseResponse failed in hash search'' (post_full p)"
proof -
  from assms have "map_of (kvTableHash (post_full p)) (payload_rel bd) = None"
    by (simp add: post_full_def)
  from CloseResponse_missing [OF this] show ?thesis
    by (simp add: Let_def KVWorkerMain_switch_def)
qed

lemma KVWorkerMain_count:
  assumes "map_of (kvTableHash p) r = Some e"
  shows "\<exists>p'. KVWorkerMain L p [\<lparr>func = COUNT, responseId = rid, body = PRel r\<rparr>] = Waiting p'
           \<and> ResponseQueue p' rid = RCount (Count_db L (db_h e) (store_l p))"
  using assms
  by (simp add: Let_def KVWorkerMain_switch_def CountResponse_def post_full_def
        post_responseSync_def)

text \<open>
  C4 (as amended). In src/server/kv_worker.cc, Open always counts one up and asks the
  storage engine for a connection only when the worker has none; Close changes nothing
  but the counter, which it counts down when there is a connection, whatever its
  value: the connection and the engine's state are the same before and after. A running
  worker with connection \<open>h\<close> that serves any sequence of Open and Close messages
  ends with the same connection, still running, with the counter moved by the opens
  minus the closes (zero or below included), and it serves a following Count from
  that connection. In kv_shm.c, CloseResponse for a relation that has an entry in the
  table counts the entry down and leaves every entry's database handle and the engine's
  state as they were; a worker that serves any sequence of CLOSE commands for relations
  with an entry is waiting for the next command afterwards, with the same handles, and
  serves a following COUNT from the handle of its relation. For a relation without an
  entry CloseResponse raises ERROR: the worker has posted \<open>full\<close> and ends there,
  whatever commands follow.
\<close>

theorem close_never_closes_connection:
  "ref_s (Open S w msg) = ref_s w + 1
   \<and> conn_s (Open S w msg) =
       (case conn_s w of None \<Rightarrow> fst (OpenConn S (open_args (ety msg)) (store w)) | Some c \<Rightarrow> Some c)
   \<and> (conn_s w \<noteq> None \<longrightarrow> store (Open S w msg) = store w)
   \<and> Close w msg = w\<lparr>ref_s := (if conn_s w = None then ref_s w else ref_s w - 1)\<rparr>
   \<and> (Close w msg)\<lparr>ref_s := ref_s w\<rparr> = w
   \<and> (list_all (\<lambda>(m, env). op (hdr m) = KVOpOpen \<or> op (hdr m) = KVOpClose) msgs
        \<and> running_s w \<and> conn_s w = Some h \<and> op (hdr cnt) = KVOpCount \<longrightarrow>
        (\<exists>w'. Run S w msgs = Returns w'
           \<and> w' = w\<lparr>ref_s := ref_s w
                        + int (length (filter (\<lambda>(m, env). op (hdr m) = KVOpOpen) msgs))
                        - int (length (filter (\<lambda>(m, env). op (hdr m) = KVOpClose) msgs))\<rparr>
           \<and> conn_s w' = Some h \<and> running_s w' \<and> store w' = store w
           \<and> w'\<lparr>ref_s := ref_s w\<rparr> = w
           \<and> Run S w (msgs @ [(cnt, env)]) = Returns (Count S w' cnt)
           \<and> replies (sent w') (sent (Count S w' cnt))
               = [KVMessage0\<lparr>hdr := KVMessageHeader0\<lparr>etySize := 8, rpsId := rpsId (hdr cnt)\<rparr>,
                             ety := CountEntity (GetCount S (Some h) (store w))\<rparr>]))
   \<and> (map_of (kvTableHash p) (payload_rel bd) = Some e \<longrightarrow>
        (\<exists>p'. CloseResponse p bd = Inr p'
           \<and> map (\<lambda>(k, e). (k, db_h e)) (kvTableHash p') = map (\<lambda>(k, e). (k, db_h e)) (kvTableHash p)
           \<and> map_of (kvTableHash p') (payload_rel bd) = Some (e\<lparr>ref_l := ref_l e - 1\<rparr>)
           \<and> store_l p' = store_l p))
   \<and> (map_of (kvTableHash q) (payload_rel bd') = None \<longrightarrow>
        CloseResponse q bd' = Inl ''CloseResponse failed in hash search''
        \<and> KVWorkerMain L q (\<lparr>func = CLOSE, responseId = rid, body = bd'\<rparr> # later)
            = Died ''CloseResponse failed in hash search'' (post_full q))
   \<and> (list_all (\<lambda>c. func c = CLOSE \<and> map_of (kvTableHash t) (payload_rel (body c)) \<noteq> None) cs
        \<and> map_of (kvTableHash t) r = Some en \<longrightarrow>
        (\<exists>t'. KVWorkerMain L t cs = Waiting t'
           \<and> map (\<lambda>(k, e). (k, db_h e)) (kvTableHash t') = map (\<lambda>(k, e). (k, db_h e)) (kvTableHash t)
           \<and> store_l t' = store_l t
           \<and> (\<exists>t''. KVWorkerMain L t (cs @ [\<lparr>func = COUNT, responseId = rq, body = PRel r\<rparr>])
                       = Waiting t''
                  \<and> ResponseQueue t'' rq = RCount (Count_db L (db_h en) (store_l t)))))"
proof -
  have a: "ref_s (Open S w msg) = ref_s w + 1"
    by (simp add: Open_def Let_def split: prod.splits)
  have b: "conn_s (Open S w msg) =
       (case conn_s w of None \<Rightarrow> fst (OpenConn S (open_args (ety msg)) (store w)) | Some c \<Rightarrow> Some c)"
    by (simp add: Open_def Let_def split: prod.splits option.splits)
  have c: "conn_s w \<noteq> None \<longrightarrow> store (Open S w msg) = store w"
    by (simp add: Open_def Let_def)
  have d: "Close w msg = w\<lparr>ref_s := (if conn_s w = None then ref_s w else ref_s w - 1)\<rparr>"
    by (simp add: Close_def)
  have d': "(Close w msg)\<lparr>ref_s := ref_s w\<rparr> = w"
    by (simp add: Close_def)
  have e: "list_all (\<lambda>(m, env). op (hdr m) = KVOpOpen \<or> op (hdr m) = KVOpClose) msgs
        \<and> running_s w \<and> conn_s w = Some h \<and> op (hdr cnt) = KVOpCount \<longrightarrow>
        (\<exists>w'. Run S w msgs = Returns w'
           \<and> w' = w\<lparr>ref_s := ref_s w
                        + int (length (filter (\<lambda>(m, env). op (hdr m) = KVOpOpen) msgs))
                        - int (length (filter (\<lambda>(m, env). op (hdr m) = KVOpClose) msgs))\<rparr>
           \<and> conn_s w' = Some h \<and> running_s w' \<and> store w' = store w
           \<and> w'\<lparr>ref_s := ref_s w\<rparr> = w
           \<and> Run S w (msgs @ [(cnt, env)]) = Returns (Count S w' cnt)
           \<and> replies (sent w') (sent (Count S w' cnt))
               = [KVMessage0\<lparr>hdr := KVMessageHeader0\<lparr>etySize := 8, rpsId := rpsId (hdr cnt)\<rparr>,
                             ety := CountEntity (GetCount S (Some h) (store w))\<rparr>])"
  proof (intro impI)
    assume h: "list_all (\<lambda>(m, env). op (hdr m) = KVOpOpen \<or> op (hdr m) = KVOpClose) msgs
        \<and> running_s w \<and> conn_s w = Some h \<and> op (hdr cnt) = KVOpCount"
    let ?w = "w\<lparr>ref_s := ref_s w
                        + int (length (filter (\<lambda>(m, env). op (hdr m) = KVOpOpen) msgs))
                        - int (length (filter (\<lambda>(m, env). op (hdr m) = KVOpClose) msgs))\<rparr>"
    have run: "Run S w msgs = Returns ?w"
      using h by (intro Run_open_close) simp_all
    have cntrun: "Run S w (msgs @ [(cnt, env)]) = Returns (Count S ?w cnt)"
      using h by (simp add: Run_append run Run_switch_def)
    have rep: "replies (sent ?w) (sent (Count S ?w cnt))
               = [KVMessage0\<lparr>hdr := KVMessageHeader0\<lparr>etySize := 8, rpsId := rpsId (hdr cnt)\<rparr>,
                             ety := CountEntity (GetCount S (Some h) (store w))\<rparr>]"
      using h by (simp add: replies_def Count_def Send_def)
    show "\<exists>w'. Run S w msgs = Returns w'
           \<and> w' = ?w
           \<and> conn_s w' = Some h \<and> running_s w' \<and> store w' = store w
           \<and> w'\<lparr>ref_s := ref_s w\<rparr> = w
           \<and> Run S w (msgs @ [(cnt, env)]) = Returns (Count S w' cnt)
           \<and> replies (sent w') (sent (Count S w' cnt))
               = [KVMessage0\<lparr>hdr := KVMessageHeader0\<lparr>etySize := 8, rpsId := rpsId (hdr cnt)\<rparr>,
                             ety := CountEntity (GetCount S (Some h) (store w))\<rparr>]"
      using run cntrun rep h by simp
  qed
  have f: "map_of (kvTableHash p) (payload_rel bd) = Some e \<longrightarrow>
        (\<exists>p'. CloseResponse p bd = Inr p'
           \<and> map (\<lambda>(k, e). (k, db_h e)) (kvTableHash p') = map (\<lambda>(k, e). (k, db_h e)) (kvTableHash p)
           \<and> map_of (kvTableHash p') (payload_rel bd) = Some (e\<lparr>ref_l := ref_l e - 1\<rparr>)
           \<and> store_l p' = store_l p)"
    using CloseResponse_found by blast
  have g: "map_of (kvTableHash q) (payload_rel bd') = None \<longrightarrow>
        CloseResponse q bd' = Inl ''CloseResponse failed in hash search''
        \<and> KVWorkerMain L q (\<lparr>func = CLOSE, responseId = rid, body = bd'\<rparr> # later)
            = Died ''CloseResponse failed in hash search'' (post_full q)"
    using CloseResponse_missing [of q bd'] KVWorkerMain_close_missing [of q bd' L rid later]
    by blast
  have hh: "list_all (\<lambda>c. func c = CLOSE \<and> map_of (kvTableHash t) (payload_rel (body c)) \<noteq> None) cs
        \<and> map_of (kvTableHash t) r = Some en \<longrightarrow>
        (\<exists>t'. KVWorkerMain L t cs = Waiting t'
           \<and> map (\<lambda>(k, e). (k, db_h e)) (kvTableHash t') = map (\<lambda>(k, e). (k, db_h e)) (kvTableHash t)
           \<and> store_l t' = store_l t
           \<and> (\<exists>t''. KVWorkerMain L t (cs @ [\<lparr>func = COUNT, responseId = rq, body = PRel r\<rparr>])
                       = Waiting t''
                  \<and> ResponseQueue t'' rq = RCount (Count_db L (db_h en) (store_l t))))"
  proof (intro impI)
    assume as: "list_all (\<lambda>c. func c = CLOSE \<and> map_of (kvTableHash t) (payload_rel (body c)) \<noteq> None) cs
        \<and> map_of (kvTableHash t) r = Some en"
    from KVWorkerMain_closes [of t cs t L] as obtain t' where
      r1: "KVWorkerMain L t cs = Waiting t'"
      and h1: "map (\<lambda>(k, e). (k, db_h e)) (kvTableHash t') = map (\<lambda>(k, e). (k, db_h e)) (kvTableHash t)"
      and s1: "store_l t' = store_l t"
      by blast
    from handles_map_of [OF h1, of r] as obtain en' where
      e1: "map_of (kvTableHash t') r = Some en'" and dh: "db_h en' = db_h en"
      by (cases "map_of (kvTableHash t') r") auto
    from KVWorkerMain_count [OF e1, of L rq] obtain t'' where
      r2: "KVWorkerMain L t' [\<lparr>func = COUNT, responseId = rq, body = PRel r\<rparr>] = Waiting t''"
      and q2: "ResponseQueue t'' rq = RCount (Count_db L (db_h en') (store_l t'))"
      by blast
    have r3: "KVWorkerMain L t (cs @ [\<lparr>func = COUNT, responseId = rq, body = PRel r\<rparr>]) = Waiting t''"
      unfolding KVWorkerMain_append r1 using r2 by simp
    from r1 h1 s1 r3 q2 dh
    show "\<exists>t'. KVWorkerMain L t cs = Waiting t'
           \<and> map (\<lambda>(k, e). (k, db_h e)) (kvTableHash t') = map (\<lambda>(k, e). (k, db_h e)) (kvTableHash t)
           \<and> store_l t' = store_l t
           \<and> (\<exists>t''. KVWorkerMain L t (cs @ [\<lparr>func = COUNT, responseId = rq, body = PRel r\<rparr>])
                       = Waiting t''
                  \<and> ResponseQueue t'' rq = RCount (Count_db L (db_h en) (store_l t)))"
      by auto
  qed
  show ?thesis
    by (rule conjI a b c d d' e f g hh)+
qed

text \<open>
  The scenario of the spec at the synthetic engine: after a first Open (counter 1,
  connection 1) the worker serves Open, Close, Close; the counter is 0, the connection is
  still 1, and the Count that follows is answered. In kv_shm.c, with relation 7 in the
  table (count 1, handle 42): one Close leaves the entry with count 0 and its handle;
  after two CLOSE commands a COUNT on relation 7 is answered from handle 42; a Close of
  relation 8, which has no entry, raises ERROR and ends the worker.
\<close>

theorem close_never_closes_connection_witness:
  "list_all (\<lambda>(m, env). op (hdr m) = KVOpOpen \<or> op (hdr m) = KVOpClose)
      [(SimpleMessage KVOpOpen 7 1, sys_ok), (SimpleMessage KVOpClose 7 1, sys_ok),
       (SimpleMessage KVOpClose 7 1, sys_ok)]
   \<and> running_s (Open synthetic (Start (KVWorker_new ([]::(bool \<times> nat) list))) (SimpleMessage KVOpOpen 7 1))
   \<and> conn_s (Open synthetic (Start (KVWorker_new ([]::(bool \<times> nat) list))) (SimpleMessage KVOpOpen 7 1)) = Some 1
   \<and> ref_s (Open synthetic (Start (KVWorker_new ([]::(bool \<times> nat) list))) (SimpleMessage KVOpOpen 7 1)) = 1
   \<and> conn_s (Open synthetic (Start (KVWorker_new ([]::(bool \<times> nat) list))) (SimpleMessage KVOpOpen 7 1)) \<noteq> None
   \<and> store (Open synthetic (Open synthetic (Start (KVWorker_new ([]::(bool \<times> nat) list))) (SimpleMessage KVOpOpen 7 1)) (SimpleMessage KVOpOpen 7 1))
       = store (Open synthetic (Start (KVWorker_new ([]::(bool \<times> nat) list))) (SimpleMessage KVOpOpen 7 1))
   \<and> map_option ref_s (returned (Run synthetic
        (Open synthetic (Start (KVWorker_new ([]::(bool \<times> nat) list))) (SimpleMessage KVOpOpen 7 1))
        [(SimpleMessage KVOpOpen 7 1, sys_ok), (SimpleMessage KVOpClose 7 1, sys_ok),
       (SimpleMessage KVOpClose 7 1, sys_ok)])) = Some 0
   \<and> map_option conn_s (returned (Run synthetic
        (Open synthetic (Start (KVWorker_new ([]::(bool \<times> nat) list))) (SimpleMessage KVOpOpen 7 1))
        [(SimpleMessage KVOpOpen 7 1, sys_ok), (SimpleMessage KVOpClose 7 1, sys_ok),
       (SimpleMessage KVOpClose 7 1, sys_ok)])) = Some (Some 1)
   \<and> map_option (\<lambda>w. map ety (sent w)) (returned (Run synthetic
        (Open synthetic (Start (KVWorker_new ([]::(bool \<times> nat) list))) (SimpleMessage KVOpOpen 7 1))
        ([(SimpleMessage KVOpOpen 7 1, sys_ok), (SimpleMessage KVOpClose 7 1, sys_ok),
       (SimpleMessage KVOpClose 7 1, sys_ok)] @ [(SimpleMessage KVOpCount 7 1, sys_ok)])))
       = Some [CountEntity 0]
   \<and> map_of (kvTableHash (KVWorkerProc0\<lparr>kvTableHash := [(7, \<lparr>ref_l = 1, db_h = 42\<rparr>)]\<rparr>))
        (payload_rel (PRel 7)) = Some \<lparr>ref_l = 1, db_h = 42\<rparr>
   \<and> CloseResponse (KVWorkerProc0\<lparr>kvTableHash := [(7, \<lparr>ref_l = 1, db_h = 42\<rparr>)]\<rparr>) (PRel 7)
       = Inr (KVWorkerProc0\<lparr>kvTableHash := [(7, \<lparr>ref_l = 0, db_h = 42\<rparr>)]\<rparr>)
   \<and> map_of (kvTableHash (KVWorkerProc0\<lparr>kvTableHash := [(7, \<lparr>ref_l = 1, db_h = 42\<rparr>)]\<rparr>)) (payload_rel (PRel 8)) = None
   \<and> KVWorkerMain synthetic_l (KVWorkerProc0\<lparr>kvTableHash := [(7, \<lparr>ref_l = 1, db_h = 42\<rparr>)]\<rparr>) [\<lparr>func = CLOSE, responseId = 0, body = PRel 8\<rparr>]
       = Died ''CloseResponse failed in hash search'' (post_full (KVWorkerProc0\<lparr>kvTableHash := [(7, \<lparr>ref_l = 1, db_h = 42\<rparr>)]\<rparr>))
   \<and> list_all (\<lambda>c. func c = CLOSE
          \<and> map_of (kvTableHash (KVWorkerProc0\<lparr>kvTableHash := [(7, \<lparr>ref_l = 1, db_h = 42\<rparr>)]\<rparr>)) (payload_rel (body c)) \<noteq> None)
        [\<lparr>func = CLOSE, responseId = 0, body = PRel 7\<rparr>, \<lparr>func = CLOSE, responseId = 0, body = PRel 7\<rparr>]
   \<and> (case KVWorkerMain synthetic_l (KVWorkerProc0\<lparr>kvTableHash := [(7, \<lparr>ref_l = 1, db_h = 42\<rparr>)]\<rparr>)
              ([\<lparr>func = CLOSE, responseId = 0, body = PRel 7\<rparr>, \<lparr>func = CLOSE, responseId = 0, body = PRel 7\<rparr>] @ [\<lparr>func = COUNT, responseId = 1, body = PRel 7\<rparr>]) of
         Waiting t \<Rightarrow> ResponseQueue t 1 = RCount 0 | Exited t \<Rightarrow> False | Died e t \<Rightarrow> False)"
proof -
  let ?w0 = "(Open synthetic (Start (KVWorker_new ([]::(bool \<times> nat) list))) (SimpleMessage KVOpOpen 7 1))"
  let ?ms = "[(SimpleMessage KVOpOpen 7 1, sys_ok), (SimpleMessage KVOpClose 7 1, sys_ok),
       (SimpleMessage KVOpClose 7 1, sys_ok)]"
  let ?p0 = "(KVWorkerProc0\<lparr>kvTableHash := [(7, \<lparr>ref_l = 1, db_h = 42\<rparr>)]\<rparr>)"
  note ops = op_SimpleMessage
  have h1: "list_all (\<lambda>(m, env). op (hdr m) = KVOpOpen \<or> op (hdr m) = KVOpClose) ?ms"
    by (simp add: ops)
  have h2: "running_s ?w0" "conn_s ?w0 = Some 1" "ref_s ?w0 = 1" "store ?w0 = []" "sent ?w0 = []"
    by (simp_all add: Open_def Start_def KVWorker_new_def synthetic_def Let_def)
  have h3: "map_of (kvTableHash ?p0) (payload_rel (PRel 7)) = Some \<lparr>ref_l = 1, db_h = 42\<rparr>"
    by simp
  have h4: "map_of (kvTableHash ?p0) (payload_rel (PRel 8)) = None"
    by simp
  have h5: "list_all (\<lambda>c. func c = CLOSE
          \<and> map_of (kvTableHash ?p0) (payload_rel (body c)) \<noteq> None)
        [\<lparr>func = CLOSE, responseId = 0, body = PRel 7\<rparr>, \<lparr>func = CLOSE, responseId = 0, body = PRel 7\<rparr>]"
    by simp
  note main = close_never_closes_connection [where S = synthetic and w = ?w0 and msgs = ?ms
      and msg = "SimpleMessage KVOpOpen 7 1"
      and h = 1 and cnt = "SimpleMessage KVOpCount 7 1" and env = sys_ok and p = ?p0
      and bd = "PRel 7" and e = "\<lparr>ref_l = 1, db_h = 42\<rparr>"
      and q = ?p0 and bd' = "PRel 8" and L = synthetic_l and rid = 0 and later = "[]"
      and t = ?p0 and cs = "[\<lparr>func = CLOSE, responseId = 0, body = PRel 7\<rparr>, \<lparr>func = CLOSE, responseId = 0, body = PRel 7\<rparr>]" and r = 7
      and en = "\<lparr>ref_l = 1, db_h = 42\<rparr>" and rq = 1]
  have hc: "conn_s ?w0 \<noteq> None" using h2 by simp
  from main [THEN conjunct2, THEN conjunct2, THEN conjunct1, THEN mp, OF hc]
  have cc: "store (Open synthetic ?w0 (SimpleMessage KVOpOpen 7 1)) = store ?w0" .
  have he: "list_all (\<lambda>(m, env). op (hdr m) = KVOpOpen \<or> op (hdr m) = KVOpClose) ?ms
        \<and> running_s ?w0 \<and> conn_s ?w0 = Some 1 \<and> op (hdr (SimpleMessage KVOpCount 7 1)) = KVOpCount"
    using h1 h2 by (simp add: ops)
  from main [THEN conjunct2, THEN conjunct2, THEN conjunct2, THEN conjunct2, THEN conjunct2, THEN conjunct1, THEN mp, OF he] obtain w' where
    r: "Run synthetic ?w0 ?ms = Returns w'" and w': "w' = ?w0\<lparr>ref_s := ref_s ?w0 + int (length (filter (\<lambda>(m, env). op (hdr m) = KVOpOpen) ?ms)) - int (length (filter (\<lambda>(m, env). op (hdr m) = KVOpClose) ?ms))\<rparr>"
    and c: "conn_s w' = Some 1"
    and rc: "Run synthetic ?w0 (?ms @ [(SimpleMessage KVOpCount 7 1, sys_ok)]) = Returns (Count synthetic w' (SimpleMessage KVOpCount 7 1))"
    by (elim exE conjE) (rule that; assumption)
  have ref0: "ref_s w' = 0" using w' h2 by (simp add: ops)
  have snt: "map ety (sent (Count synthetic w' (SimpleMessage KVOpCount 7 1))) = [CountEntity 0]"
    using w' h2 c by (simp add: Count_def Send_def synthetic_def KVMessage0_def)
  have p': "CloseResponse ?p0 (PRel 7) = Inr (KVWorkerProc0\<lparr>kvTableHash := [(7, \<lparr>ref_l = 0, db_h = 42\<rparr>)]\<rparr>)"
    using main [THEN conjunct2, THEN conjunct2, THEN conjunct2, THEN conjunct2, THEN conjunct2, THEN conjunct2, THEN conjunct1, THEN mp, OF h3]
    by (simp add: CloseResponse_def Let_def hash_update_def KVWorkerProc0_def)
  have died: "KVWorkerMain synthetic_l ?p0 [\<lparr>func = CLOSE, responseId = 0, body = PRel 8\<rparr>]
       = Died ''CloseResponse failed in hash search'' (post_full ?p0)"
    using main [THEN conjunct2, THEN conjunct2, THEN conjunct2, THEN conjunct2, THEN conjunct2, THEN conjunct2, THEN conjunct2, THEN conjunct1, THEN mp, OF h4] by blast
  have hh: "list_all (\<lambda>c. func c = CLOSE
          \<and> map_of (kvTableHash ?p0) (payload_rel (body c)) \<noteq> None)
        [\<lparr>func = CLOSE, responseId = 0, body = PRel 7\<rparr>, \<lparr>func = CLOSE, responseId = 0, body = PRel 7\<rparr>]
      \<and> map_of (kvTableHash ?p0) 7 = Some \<lparr>ref_l = 1, db_h = 42\<rparr>"
    using h5 by simp
  from main [THEN conjunct2, THEN conjunct2, THEN conjunct2, THEN conjunct2, THEN conjunct2, THEN conjunct2, THEN conjunct2, THEN conjunct2, THEN mp, OF hh] obtain t'' where
    t1: "KVWorkerMain synthetic_l ?p0 ([\<lparr>func = CLOSE, responseId = 0, body = PRel 7\<rparr>, \<lparr>func = CLOSE, responseId = 0, body = PRel 7\<rparr>] @ [\<lparr>func = COUNT, responseId = 1, body = PRel 7\<rparr>]) = Waiting t''"
    and t2: "ResponseQueue t'' 1 = RCount (Count_db synthetic_l (db_h \<lparr>ref_l = 1, db_h = 42\<rparr>) (store_l ?p0))"
    by (elim exE conjE) (rule that; assumption)
  have served: "(case KVWorkerMain synthetic_l ?p0
              ([\<lparr>func = CLOSE, responseId = 0, body = PRel 7\<rparr>, \<lparr>func = CLOSE, responseId = 0, body = PRel 7\<rparr>] @ [\<lparr>func = COUNT, responseId = 1, body = PRel 7\<rparr>]) of
         Waiting t \<Rightarrow> ResponseQueue t 1 = RCount 0 | Exited t \<Rightarrow> False | Died e t \<Rightarrow> False)"
    unfolding t1 using t2 by (simp add: synthetic_l_def)
  have ra: "map_option ref_s (returned (Run synthetic ?w0 ?ms)) = Some 0"
    unfolding r using ref0 by (simp add: returned_def)
  have rb: "map_option conn_s (returned (Run synthetic ?w0 ?ms)) = Some (Some 1)"
    unfolding r using c by (simp add: returned_def)
  have rd: "map_option (\<lambda>w. map ety (sent w)) (returned (Run synthetic ?w0
        (?ms @ [(SimpleMessage KVOpCount 7 1, sys_ok)]))) = Some [CountEntity 0]"
    unfolding rc using snt by (simp add: returned_def)
  show ?thesis
    by (rule conjI h1 h2(1) h2(2) h2(3) hc cc ra rb rd h3 p' h4 died h5 served)+
qed

text \<open>
  C4 (as stated) fails in kv_shm.c: a CLOSE for relation 8, which has no entry, ends the
  worker with ERROR, and the COUNT on relation 7 that follows is never served.
\<close>

theorem close_without_entry_counterexample:
  "KVWorkerMain synthetic_l (KVWorkerProc0\<lparr>kvTableHash := [(7, \<lparr>ref_l = 1, db_h = 42\<rparr>)]\<rparr>)
      [\<lparr>func = CLOSE, responseId = 0, body = PRel 8\<rparr>, \<lparr>func = COUNT, responseId = 1, body = PRel 7\<rparr>]
     = Died ''CloseResponse failed in hash search'' (post_full (KVWorkerProc0\<lparr>kvTableHash := [(7, \<lparr>ref_l = 1, db_h = 42\<rparr>)]\<rparr>))
   \<and> CloseResponse (KVWorkerProc0\<lparr>kvTableHash := [(7, \<lparr>ref_l = 1, db_h = 42\<rparr>)]\<rparr>) (PRel 8) = Inl ''CloseResponse failed in hash search''"
  by (simp add: Let_def KVWorkerMain_switch_def CloseResponse_def post_full_def
        KVWorkerProc0_def)

section \<open>Range queries\<close>

lemma RangeQueryRead_loop_nonempty:
  assumes "RangeQueryRead_loop S c r ro db = Some y"
  shows "\<not> (fst (fst y) \<and> snd (fst y) = 0)"
  using assms
  by (rule RangeQueryRead_loop.raw_induct
        [where P = "\<lambda>S c r ro db y. \<not> (fst (fst y) \<and> snd (fst y) = 0)", rotated])
     (auto split: prod.splits if_splits)

lemma RangeQueryRead_loop_m_nonempty:
  assumes "RangeQueryRead_loop_m S r ro db = Some y"
  shows "\<not> (fst (fst y) \<and> snd (fst y) = 0)"
  using assms
  by (rule RangeQueryRead_loop_m.raw_induct
        [where P = "\<lambda>S r ro db y. \<not> (fst (fst y) \<and> snd (fst y) = 0)", rotated])
     (auto split: prod.splits if_splits)

lemma synthetic_loop_returns:
  "RangeQueryRead_loop synthetic c r ro db \<noteq> None"
proof (induction db)
  case Nil
  have rd: "RangeQueryRead synthetic c r ro [] = ((False, 0), ro, [])" by (simp add: synthetic_def)
  show ?case by (subst RangeQueryRead_loop.simps) (simp add: rd)
next
  case (Cons x xs)
  have rd: "RangeQueryRead synthetic c r ro (x # xs) = (x, ro, xs)" by (simp add: synthetic_def)
  show ?case using Cons
    by (subst RangeQueryRead_loop.simps) (auto simp: rd split: prod.splits)
qed

lemma synthetic_m_loop_returns:
  "RangeQueryRead_loop_m synthetic_m r ro db \<noteq> None"
proof (induction db)
  case Nil
  have rd: "RangeQueryRead_m synthetic_m r ro [] = ((False, 0), ro, [])" by (simp add: synthetic_m_def)
  show ?case by (subst RangeQueryRead_loop_m.simps) (simp add: rd)
next
  case (Cons x xs)
  have rd: "RangeQueryRead_m synthetic_m r ro (x # xs) = (x, ro, xs)" by (simp add: synthetic_m_def)
  show ?case using Cons
    by (subst RangeQueryRead_loop_m.simps) (auto simp: rd split: prod.splits)
qed

lemma ebind_Returns:
  "ebind r k = Returns x \<Longrightarrow> \<exists>v ws. r = Inr (v, ws) \<and> k v ws = Returns x"
  by (auto simp: ebind_def split: sum.splits)

lemma tail_reply:
  assumes "ebind (ShmUnlink u ''RangeQuery'') (\<lambda>_ ws.
             ebind (if sz > 0 then ShmOpen fd0 ''RangeQuery'' else Inr (0, [])) (\<lambda>fd _.
             ebind (if sz > 0 then Ftruncate ft ''RangeQuery'' else Inr ((), [])) (\<lambda>_ _.
             ebind (if sz > 0 then Mmap mp ''RangeQuery'' else Inr (0, [])) (\<lambda>shm _.
             ebind (if sz > 0 then Fclose cl ''RangeQuery'' else Inr ((), [])) (\<lambda>_ _.
             ebind (if sz > 0 then Munmap mu ''RangeQuery'' else Inr ((), [])) (\<lambda>_ _.
               Returns (f ws))))))) = Returns w'"
  shows "\<exists>ws. w' = f ws"
proof -
  from ebind_Returns [OF assms] obtain ws where
    a: "ebind (if sz > 0 then ShmOpen fd0 ''RangeQuery'' else Inr (0, [])) (\<lambda>fd _.
             ebind (if sz > 0 then Ftruncate ft ''RangeQuery'' else Inr ((), [])) (\<lambda>_ _.
             ebind (if sz > 0 then Mmap mp ''RangeQuery'' else Inr (0, [])) (\<lambda>shm _.
             ebind (if sz > 0 then Fclose cl ''RangeQuery'' else Inr ((), [])) (\<lambda>_ _.
             ebind (if sz > 0 then Munmap mu ''RangeQuery'' else Inr ((), [])) (\<lambda>_ _.
               Returns (f ws)))))) = Returns w'" by blast
  from ebind_Returns [OF a] have
    b: "ebind (if sz > 0 then Ftruncate ft ''RangeQuery'' else Inr ((), [])) (\<lambda>_ _.
             ebind (if sz > 0 then Mmap mp ''RangeQuery'' else Inr (0, [])) (\<lambda>shm _.
             ebind (if sz > 0 then Fclose cl ''RangeQuery'' else Inr ((), [])) (\<lambda>_ _.
             ebind (if sz > 0 then Munmap mu ''RangeQuery'' else Inr ((), [])) (\<lambda>_ _.
               Returns (f ws))))) = Returns w'" by blast
  from ebind_Returns [OF b] have
    c: "ebind (if sz > 0 then Mmap mp ''RangeQuery'' else Inr (0, [])) (\<lambda>shm _.
             ebind (if sz > 0 then Fclose cl ''RangeQuery'' else Inr ((), [])) (\<lambda>_ _.
             ebind (if sz > 0 then Munmap mu ''RangeQuery'' else Inr ((), [])) (\<lambda>_ _.
               Returns (f ws)))) = Returns w'" by blast
  from ebind_Returns [OF c] have
    d: "ebind (if sz > 0 then Fclose cl ''RangeQuery'' else Inr ((), [])) (\<lambda>_ _.
             ebind (if sz > 0 then Munmap mu ''RangeQuery'' else Inr ((), [])) (\<lambda>_ _.
               Returns (f ws))) = Returns w'" by blast
  from ebind_Returns [OF d] have
    e: "ebind (if sz > 0 then Munmap mu ''RangeQuery'' else Inr ((), [])) (\<lambda>_ _.
               Returns (f ws)) = Returns w'" by blast
  from ebind_Returns [OF e] have "Returns (f ws) = Returns w'" by blast
  then show ?thesis by auto
qed

lemma RangeQuery_reply:
  assumes "RangeQuery S env w msg = Returns w'"
  shows "\<exists>nxt sz. replies (sent w) (sent w') = [StateMessage (rpsId (hdr msg)) nxt sz]
           \<and> \<not> (nxt \<and> sz = 0)"
proof -
  define ew where "ew =
       (case ranges_s w (cursor_key (ety msg)) of
          None \<Rightarrow> (case ParseRangeQueryOptions S (range_opts (ety msg)) (store w) of
                     (e, db) \<Rightarrow> (e, w\<lparr>ranges_s := (ranges_s w)(cursor_key (ety msg) \<mapsto> e), store := db\<rparr>))
        | Some e \<Rightarrow> (e, w))"
  define entry where "entry = fst ew"
  define wa where "wa = snd ew"
  have swa: "sent wa = sent w"
    unfolding wa_def ew_def by (simp split: option.splits prod.splits)
  have unf: "RangeQuery S env w msg =
      (case RangeQueryRead_loop S (conn_s wa) (range_h entry) (readOpts entry) (store wa) of
           None \<Rightarrow> Diverges
         | Some ((nxt, sz), ro, db) \<Rightarrow>
             ebind (ShmUnlink (unlink_rc env) ''RangeQuery'') (\<lambda>_ ws.
             ebind (if sz > 0 then ShmOpen (open_fd env) ''RangeQuery'' else Inr (0, [])) (\<lambda>fd _.
             ebind (if sz > 0 then Ftruncate (ftruncate_rc env) ''RangeQuery'' else Inr ((), [])) (\<lambda>_ _.
             ebind (if sz > 0 then Mmap (mmap_ptr env) ''RangeQuery'' else Inr (0, [])) (\<lambda>shm _.
             ebind (if sz > 0 then Fclose (close_rc env) ''RangeQuery'' else Inr ((), [])) (\<lambda>_ _.
             ebind (if sz > 0 then Munmap (munmap_rc env) ''RangeQuery'' else Inr ((), [])) (\<lambda>_ _.
               Returns (Send (StateMessage (rpsId (hdr msg)) nxt sz)
                          (wa\<lparr>store := db, diag := diag wa @ ws\<rparr>)))))))))"
    unfolding RangeQuery_def Let_def entry_def wa_def ew_def
    by (simp add: case_prod_beta)
  obtain y where
    lp: "RangeQueryRead_loop S (conn_s wa) (range_h entry) (readOpts entry) (store wa) = Some y"
    using assms unfolding unf
    by (cases "RangeQueryRead_loop S (conn_s wa) (range_h entry) (readOpts entry) (store wa)") simp_all
  obtain nxt sz ro db where y: "y = ((nxt, sz), ro, db)" by (cases y) auto
  have ne: "\<not> (nxt \<and> sz = 0)" using RangeQueryRead_loop_nonempty [OF lp] y by simp
  have "ebind (ShmUnlink (unlink_rc env) ''RangeQuery'') (\<lambda>_ ws.
             ebind (if sz > 0 then ShmOpen (open_fd env) ''RangeQuery'' else Inr (0, [])) (\<lambda>fd _.
             ebind (if sz > 0 then Ftruncate (ftruncate_rc env) ''RangeQuery'' else Inr ((), [])) (\<lambda>_ _.
             ebind (if sz > 0 then Mmap (mmap_ptr env) ''RangeQuery'' else Inr (0, [])) (\<lambda>shm _.
             ebind (if sz > 0 then Fclose (close_rc env) ''RangeQuery'' else Inr ((), [])) (\<lambda>_ _.
             ebind (if sz > 0 then Munmap (munmap_rc env) ''RangeQuery'' else Inr ((), [])) (\<lambda>_ _.
               Returns (Send (StateMessage (rpsId (hdr msg)) nxt sz)
                          (wa\<lparr>store := db, diag := diag wa @ ws\<rparr>)))))))) = Returns w'"
    using assms unfolding unf lp y by simp
  from tail_reply [OF this] obtain ws where
    "w' = Send (StateMessage (rpsId (hdr msg)) nxt sz) (wa\<lparr>store := db, diag := diag wa @ ws\<rparr>)"
    by blast
  then have "sent w' = sent wa @ [StateMessage (rpsId (hdr msg)) nxt sz]"
    by (simp add: Send_def)
  then show ?thesis using ne swa by (auto simp: replies_def)
qed

lemma RangeQuery_m_reply:
  assumes "RangeQuery_m T env v msg = Returns v'"
  shows "\<exists>nxt sz. replies (sent_m v) (sent_m v') = [StateMessage_m (resChan (hdr msg)) nxt sz]
           \<and> \<not> (nxt \<and> sz = 0)"
proof -
  define ew where "ew =
       (case ranges v (cursor_key (bdy msg)) of
          None \<Rightarrow> (case ParseRangeQueryOptions T (range_opts (bdy msg)) (store_m v) of
                     (e, db) \<Rightarrow> (e, v\<lparr>ranges := (ranges v)(cursor_key (bdy msg) \<mapsto> e), store_m := db\<rparr>))
        | Some e \<Rightarrow> (e, v))"
  define entry where "entry = fst ew"
  define va where "va = snd ew"
  have sva: "sent_m va = sent_m v"
    unfolding va_def ew_def by (simp split: option.splits prod.splits)
  have unf: "RangeQuery_m T env v msg =
      (case RangeQueryRead_loop_m T (range_h entry) (readOpts entry) (store_m va) of
           None \<Rightarrow> Diverges
         | Some ((nxt, sz), ro, db) \<Rightarrow>
             ebind (ShmUnlink (unlink_rc env) ''RangeQuery'') (\<lambda>_ ws.
             ebind (if sz > 0 then ShmOpen (open_fd env) ''RangeQuery'' else Inr (0, [])) (\<lambda>fd _.
             ebind (if sz > 0 then Ftruncate (ftruncate_rc env) ''RangeQuery'' else Inr ((), [])) (\<lambda>_ _.
             ebind (if sz > 0 then Mmap (mmap_ptr env) ''RangeQuery'' else Inr (0, [])) (\<lambda>shm _.
             ebind (if sz > 0 then Fclose (close_rc env) ''RangeQuery'' else Inr ((), [])) (\<lambda>_ _.
             ebind (if sz > 0 then Munmap (munmap_rc env) ''RangeQuery'' else Inr ((), [])) (\<lambda>_ _.
               Returns (Send_m (StateMessage_m (resChan (hdr msg)) nxt sz)
                          (va\<lparr>store_m := db, diag_m := diag_m va @ ws\<rparr>)))))))))"
    unfolding RangeQuery_m_def Let_def entry_def va_def ew_def
    by (simp add: case_prod_beta)
  obtain y where
    lp: "RangeQueryRead_loop_m T (range_h entry) (readOpts entry) (store_m va) = Some y"
    using assms unfolding unf
    by (cases "RangeQueryRead_loop_m T (range_h entry) (readOpts entry) (store_m va)") simp_all
  obtain nxt sz ro db where y: "y = ((nxt, sz), ro, db)" by (cases y) auto
  have ne: "\<not> (nxt \<and> sz = 0)" using RangeQueryRead_loop_m_nonempty [OF lp] y by simp
  have "ebind (ShmUnlink (unlink_rc env) ''RangeQuery'') (\<lambda>_ ws.
             ebind (if sz > 0 then ShmOpen (open_fd env) ''RangeQuery'' else Inr (0, [])) (\<lambda>fd _.
             ebind (if sz > 0 then Ftruncate (ftruncate_rc env) ''RangeQuery'' else Inr ((), [])) (\<lambda>_ _.
             ebind (if sz > 0 then Mmap (mmap_ptr env) ''RangeQuery'' else Inr (0, [])) (\<lambda>shm _.
             ebind (if sz > 0 then Fclose (close_rc env) ''RangeQuery'' else Inr ((), [])) (\<lambda>_ _.
             ebind (if sz > 0 then Munmap (munmap_rc env) ''RangeQuery'' else Inr ((), [])) (\<lambda>_ _.
               Returns (Send_m (StateMessage_m (resChan (hdr msg)) nxt sz)
                          (va\<lparr>store_m := db, diag_m := diag_m va @ ws\<rparr>)))))))) = Returns v'"
    using assms unfolding unf lp y by simp
  from tail_reply [OF this] obtain ws where
    "v' = Send_m (StateMessage_m (resChan (hdr msg)) nxt sz) (va\<lparr>store_m := db, diag_m := diag_m va @ ws\<rparr>)"
    by blast
  then have "sent_m v' = sent_m va @ [StateMessage_m (resChan (hdr msg)) nxt sz]"
    by (simp add: Send_m_def)
  then show ?thesis using ne sva by (auto simp: replies_def)
qed

lemma synthetic_four_chunks:
  assumes "0 < n"
  shows "RangeQueryRead_loop synthetic c r ro [(True, 0), (True, 0), (True, n), (False, 0)]
           = Some ((True, n), ro, [(False, 0)])"
    and "RangeQueryRead_loop synthetic c r ro [(False, 0)] = Some ((False, 0), ro, [])"
  using assms by (simp_all add: RangeQueryRead_loop.simps synthetic_def)

lemma synthetic_m_four_chunks:
  assumes "0 < n"
  shows "RangeQueryRead_loop_m synthetic_m r ro [(True, 0), (True, 0), (True, n), (False, 0)]
           = Some ((True, n), ro, [(False, 0)])"
    and "RangeQueryRead_loop_m synthetic_m r ro [(False, 0)] = Some ((False, 0), ro, [])"
  using assms by (simp_all add: RangeQueryRead_loop_m.simps synthetic_m_def)

lemma synthetic_parse:
  "ParseRangeQueryOptions synthetic os db = (\<lparr>range_h = 1, readOpts = 0\<rparr>, db)"
  by (simp add: synthetic_def)

lemma synthetic_m_parse:
  "ParseRangeQueryOptions synthetic_m os db = (\<lparr>range_h = 1, readOpts = 0\<rparr>, db)"
  by (simp add: synthetic_m_def)

lemma sys_ok_calls:
  "ShmUnlink (unlink_rc sys_ok) f = Inr ((), [f @ '' ShmUnlink failed''])"
  "ShmOpen (open_fd sys_ok) f = Inr (3, [])"
  "Ftruncate (ftruncate_rc sys_ok) f = Inr ((), [])"
  "Mmap (mmap_ptr sys_ok) f = Inr (4096, [])"
  "Fclose (close_rc sys_ok) f = Inr ((), [])"
  "Munmap (munmap_rc sys_ok) f = Inr ((), [])"
  by (simp_all add: sys_ok_def ShmUnlink_def ShmOpen_def Ftruncate_def Mmap_def Fclose_def Munmap_def)

lemma ebind_Inr: "ebind (Inr (v, ws)) k = k v ws"
  by (simp add: ebind_def)

lemma scenario_server:
  assumes "0 < n"
  shows "map_option (map ety \<circ> sent)
           (returned (Run synthetic
              (Start (KVWorker_new [(True, 0), (True, 0), (True, n), (False, 0)]))
              [(RangeQuery_request, sys_ok), (RangeQuery_request, sys_ok)]))
         = Some [StateEntity True n, StateEntity False 0]"
proof -
  let ?w = "Start (KVWorker_new [(True, 0), (True, 0), (True, n), (False, 0)])"
  let ?e = "\<lparr>range_h = 1, readOpts = 0\<rparr>"
  let ?k = "\<lparr>pid = 100, opid = 1\<rparr>"
  let ?w1 = "?w\<lparr>ranges_s := [?k \<mapsto> ?e], store := [(False, 0)],
                diag := [''RangeQuery ShmUnlink failed''],
                sent := [StateMessage 2 True n]\<rparr>"
  let ?w2 = "?w1\<lparr>store := [],
                diag := [''RangeQuery ShmUnlink failed'', ''RangeQuery ShmUnlink failed''],
                sent := [StateMessage 2 True n, StateMessage 2 False 0]\<rparr>"
  have k: "cursor_key (ety RangeQuery_request) = ?k" "range_opts (ety RangeQuery_request) = None" "rpsId (hdr RangeQuery_request) = 2"
    "op (hdr RangeQuery_request) = KVOpRangeQuery"
    by (simp_all add: RangeQuery_request_def SimpleMessage_def KVMessage0_def KVMessageHeader0_def)
  have a: "RangeQuery synthetic sys_ok ?w RangeQuery_request = Returns ?w1"
    using assms
    by (simp add: RangeQuery_def Let_def k synthetic_parse Start_def KVWorker_new_def
        synthetic_four_chunks [OF assms] sys_ok_calls ebind_Inr Send_def)
  have b: "RangeQuery synthetic sys_ok ?w1 RangeQuery_request = Returns ?w2"
    by (simp add: RangeQuery_def Let_def k Start_def KVWorker_new_def
        synthetic_four_chunks [OF assms] sys_ok_calls ebind_Inr Send_def)
  have r: "Run synthetic ?w [(RangeQuery_request, sys_ok), (RangeQuery_request, sys_ok)] = Returns ?w2"
    using a b by (simp add: Run_switch_def k) (simp add: Start_def)
  show ?thesis unfolding r
    by (simp add: returned_def StateMessage_def KVMessage0_def)
qed

lemma scenario_mid:
  assumes "0 < n"
  shows "map_option (map ety \<circ> sent_m)
           (returned (Run_m synthetic_m
              \<lparr>running = True, conn = None, ref = 0, cursors = Map.empty, ranges = Map.empty,
               channel_terminated = False, sent_m = [], diag_m = [],
               store_m = [(True, 0), (True, 0), (True, n), (False, 0)]\<rparr>
              [(RangeQuery_request, sys_ok), (RangeQuery_request, sys_ok)]))
         = Some [StateEntity True n, StateEntity False 0]"
proof -
  let ?v = "\<lparr>running = True, conn = None, ref = 0, cursors = Map.empty, ranges = Map.empty,
               channel_terminated = False, sent_m = [], diag_m = [],
               store_m = [(True, 0), (True, 0), (True, n), (False, 0)]\<rparr>"
  let ?e = "\<lparr>range_h = 1, readOpts = 0\<rparr>"
  let ?k = "\<lparr>pid = 100, opid = 1\<rparr>"
  let ?v1 = "?v\<lparr>ranges := [?k \<mapsto> ?e], store_m := [(False, 0)],
                diag_m := [''RangeQuery ShmUnlink failed''],
                sent_m := [StateMessage_m 2 True n]\<rparr>"
  let ?v2 = "?v1\<lparr>store_m := [],
                diag_m := [''RangeQuery ShmUnlink failed'', ''RangeQuery ShmUnlink failed''],
                sent_m := [StateMessage_m 2 True n, StateMessage_m 2 False 0]\<rparr>"
  have k: "cursor_key (ety RangeQuery_request) = ?k" "range_opts (ety RangeQuery_request) = None" "rpsId (hdr RangeQuery_request) = 2"
    "op (hdr RangeQuery_request) = KVOpRangeQuery"
    by (simp_all add: RangeQuery_request_def SimpleMessage_def KVMessage0_def KVMessageHeader0_def)
  have a: "RangeQuery_m synthetic_m sys_ok ?v RangeQuery_request = Returns ?v1"
    using assms
    by (simp add: RangeQuery_m_def Let_def k synthetic_m_parse
        synthetic_m_four_chunks [OF assms] sys_ok_calls ebind_Inr Send_m_def)
  have b: "RangeQuery_m synthetic_m sys_ok ?v1 RangeQuery_request = Returns ?v2"
    by (simp add: RangeQuery_m_def Let_def k
        synthetic_m_four_chunks [OF assms] sys_ok_calls ebind_Inr Send_m_def)
  have r: "Run_m synthetic_m ?v [(RangeQuery_request, sys_ok), (RangeQuery_request, sys_ok)] = Returns ?v2"
    using a b by (simp add: Run_switch_m_def k)
  show ?thesis unfolding r
    by (simp add: returned_def StateMessage_m_def KVMessage0_def)
qed

text \<open>
  C2. The do-while loop of RangeQuery, in both queue-based workers, ends only with a
  chunk that is non-empty or terminal, whatever the storage engine does; so whenever
  the handler returns, it has sent exactly one response, a Success message with a state
  \<open>{next, size}\<close> where \<open>size > 0\<close> or \<open>next\<close> is false. With the synthetic
  collaborator the loop always ends. When that collaborator emits (empty, more),
  (empty, more), (\<open>n\<close> bytes, more), (empty, end), two requests are answered with
  \<open>{True, n}\<close> and \<open>{False, 0}\<close>: the non-empty chunk and the end.
\<close>

theorem range_query_skips_empty_chunks:
  "(RangeQueryRead_loop S c r ro db = Some y \<longrightarrow> \<not> (fst (fst y) \<and> snd (fst y) = 0))
   \<and> (RangeQueryRead_loop_m T r ro db = Some y' \<longrightarrow> \<not> (fst (fst y') \<and> snd (fst y') = 0))
   \<and> (RangeQuery S env w msg = Returns w' \<longrightarrow>
        (\<exists>nxt sz. replies (sent w) (sent w') = [StateMessage (rpsId (hdr msg)) nxt sz]
           \<and> (0 < sz \<or> \<not> nxt)))
   \<and> (RangeQuery_m T env v msg = Returns v' \<longrightarrow>
        (\<exists>nxt sz. replies (sent_m v) (sent_m v') = [StateMessage_m (resChan (hdr msg)) nxt sz]
           \<and> (0 < sz \<or> \<not> nxt)))
   \<and> RangeQueryRead_loop synthetic c r ro chunks \<noteq> None
   \<and> RangeQueryRead_loop_m synthetic_m r ro chunks \<noteq> None
   \<and> (0 < n \<longrightarrow>
        map_option (map ety \<circ> sent)
           (returned (Run synthetic
              (Start (KVWorker_new [(True, 0), (True, 0), (True, n), (False, 0)]))
              [(RangeQuery_request, sys_ok), (RangeQuery_request, sys_ok)]))
          = Some [StateEntity True n, StateEntity False 0]
        \<and> map_option (map ety \<circ> sent_m)
           (returned (Run_m synthetic_m
              \<lparr>running = True, conn = None, ref = 0, cursors = Map.empty, ranges = Map.empty,
               channel_terminated = False, sent_m = [], diag_m = [],
               store_m = [(True, 0), (True, 0), (True, n), (False, 0)]\<rparr>
              [(RangeQuery_request, sys_ok), (RangeQuery_request, sys_ok)]))
          = Some [StateEntity True n, StateEntity False 0])"
proof -
  have a: "RangeQuery S env w msg = Returns w' \<longrightarrow>
        (\<exists>nxt sz. replies (sent w) (sent w') = [StateMessage (rpsId (hdr msg)) nxt sz]
           \<and> (0 < sz \<or> \<not> nxt))"
    using RangeQuery_reply [of S env w msg w'] by auto
  have b: "RangeQuery_m T env v msg = Returns v' \<longrightarrow>
        (\<exists>nxt sz. replies (sent_m v) (sent_m v') = [StateMessage_m (resChan (hdr msg)) nxt sz]
           \<and> (0 < sz \<or> \<not> nxt))"
    using RangeQuery_m_reply [of T env v msg v'] by auto
  show ?thesis
    using a b RangeQueryRead_loop_nonempty [of S c r ro db y]
      RangeQueryRead_loop_m_nonempty [of T r ro db y']
      synthetic_loop_returns [of c r ro chunks] synthetic_m_loop_returns [of r ro chunks]
      scenario_server [of n] scenario_mid [of n]
    by blast
qed

text \<open>
  The scenario with a chunk of 5 bytes: the loop skips the two empty chunks, the first
  request is answered with \<open>{True, 5}\<close>, and the two requests together with
  \<open>{True, 5}\<close>, \<open>{False, 0}\<close>.
\<close>

theorem range_query_skips_empty_chunks_witness:
  "RangeQueryRead_loop synthetic None 1 0 [(True, 0), (True, 0), (True, 5), (False, 0)]
     = Some ((True, 5), 0, [(False, 0)])
   \<and> RangeQueryRead_loop_m synthetic_m 1 0 [(True, 0), (True, 0), (True, 5), (False, 0)]
     = Some ((True, 5), 0, [(False, 0)])
   \<and> \<not> (fst (fst ((True, 5::nat), 0::nat, [(False, 0::nat)])) \<and> snd (fst ((True, 5::nat), 0::nat, [(False, 0::nat)])) = 0)
   \<and> map_option (\<lambda>w'. replies [] (sent w')) (returned (RangeQuery synthetic sys_ok
        (Start (KVWorker_new [(True, 0), (True, 0), (True, 5), (False, 0)])) RangeQuery_request))
     = Some [StateMessage 2 True 5]
   \<and> map_option (\<lambda>v'. replies [] (sent_m v')) (returned (RangeQuery_m synthetic_m sys_ok
        \<lparr>running = True, conn = None, ref = 0, cursors = Map.empty, ranges = Map.empty,
         channel_terminated = False, sent_m = [], diag_m = [],
         store_m = [(True, 0), (True, 0), (True, 5), (False, 0)]\<rparr> RangeQuery_request))
     = Some [StateMessage_m 2 True 5]
   \<and> (0::nat) < 5
   \<and> map_option (map ety \<circ> sent)
        (returned (Run synthetic
           (Start (KVWorker_new [(True, 0), (True, 0), (True, 5), (False, 0)]))
           [(RangeQuery_request, sys_ok), (RangeQuery_request, sys_ok)]))
       = Some [StateEntity True 5, StateEntity False 0]
   \<and> map_option (map ety \<circ> sent_m)
        (returned (Run_m synthetic_m
           \<lparr>running = True, conn = None, ref = 0, cursors = Map.empty, ranges = Map.empty,
            channel_terminated = False, sent_m = [], diag_m = [],
            store_m = [(True, 0), (True, 0), (True, 5), (False, 0)]\<rparr>
           [(RangeQuery_request, sys_ok), (RangeQuery_request, sys_ok)]))
       = Some [StateEntity True 5, StateEntity False 0]"
proof -
  let ?chunks = "[(True, 0), (True, 0), (True, 5::nat), (False, 0)]"
  let ?w = "Start (KVWorker_new ?chunks)"
  let ?v = "\<lparr>running = True, conn = None, ref = 0, cursors = Map.empty, ranges = Map.empty,
         channel_terminated = False, sent_m = [], diag_m = [], store_m = ?chunks\<rparr>"
  let ?k = "\<lparr>pid = 100, opid = 1\<rparr>"
  let ?e = "\<lparr>range_h = 1, readOpts = 0\<rparr>"
  let ?w1 = "?w\<lparr>ranges_s := [?k \<mapsto> ?e], store := [(False, 0)],
                diag := [''RangeQuery ShmUnlink failed''],
                sent := [StateMessage 2 True 5]\<rparr>"
  let ?v1 = "?v\<lparr>ranges := [?k \<mapsto> ?e], store_m := [(False, 0)],
                diag_m := [''RangeQuery ShmUnlink failed''],
                sent_m := [StateMessage_m 2 True 5]\<rparr>"
  have pos: "(0::nat) < 5" by simp
  have k: "cursor_key (ety RangeQuery_request) = ?k" "range_opts (ety RangeQuery_request) = None"
    "rpsId (hdr RangeQuery_request) = 2"
    by (simp_all add: RangeQuery_request_def SimpleMessage_def KVMessage0_def KVMessageHeader0_def)
  have l1: "RangeQueryRead_loop synthetic None 1 0 ?chunks = Some ((True, 5), 0, [(False, 0)])"
    by (rule synthetic_four_chunks (1) [OF pos])
  have l2: "RangeQueryRead_loop_m synthetic_m 1 0 ?chunks = Some ((True, 5), 0, [(False, 0)])"
    by (rule synthetic_m_four_chunks (1) [OF pos])
  have a: "RangeQuery synthetic sys_ok ?w RangeQuery_request = Returns ?w1"
    by (simp add: RangeQuery_def Let_def k synthetic_parse Start_def KVWorker_new_def
        synthetic_four_chunks [OF pos] sys_ok_calls ebind_Inr Send_def)
  have b: "RangeQuery_m synthetic_m sys_ok ?v RangeQuery_request = Returns ?v1"
    by (simp add: RangeQuery_m_def Let_def k synthetic_m_parse
        synthetic_m_four_chunks [OF pos] sys_ok_calls ebind_Inr Send_m_def)
  note main = range_query_skips_empty_chunks [where S = synthetic and c = None and r = 1
      and ro = 0 and db = ?chunks and y = "((True, 5), 0, [(False, 0)])" and T = synthetic_m
      and y' = "((True, 5), 0, [(False, 0)])" and env = sys_ok and w = ?w
      and msg = RangeQuery_request and w' = ?w1 and v = ?v and v' = ?v1 and n = 5
      and chunks = ?chunks]
  from main l1 have c1: "\<not> (fst (fst ((True, 5::nat), 0::nat, [(False, 0::nat)]))
      \<and> snd (fst ((True, 5::nat), 0::nat, [(False, 0::nat)])) = 0)" by blast
  from main pos have c2: "map_option (map ety \<circ> sent)
        (returned (Run synthetic ?w [(RangeQuery_request, sys_ok), (RangeQuery_request, sys_ok)]))
       = Some [StateEntity True 5, StateEntity False 0]"
    and c3: "map_option (map ety \<circ> sent_m)
        (returned (Run_m synthetic_m ?v [(RangeQuery_request, sys_ok), (RangeQuery_request, sys_ok)]))
       = Some [StateEntity True 5, StateEntity False 0]"
    by blast+
  have r1: "map_option (\<lambda>w'. replies [] (sent w')) (returned (RangeQuery synthetic sys_ok ?w RangeQuery_request))
     = Some [StateMessage 2 True 5]"
    unfolding a by (simp add: returned_def replies_def)
  have r2: "map_option (\<lambda>v'. replies [] (sent_m v')) (returned (RangeQuery_m synthetic_m sys_ok ?v RangeQuery_request))
     = Some [StateMessage_m 2 True 5]"
    unfolding b by (simp add: returned_def replies_def)
  from l1 l2 c1 r1 r2 pos c2 c3 show ?thesis by blast
qed

section \<open>The size check of PutRequest\<close>

lemma nth_memcpy: "memcpy m dst bs a = (if dst \<le> a \<and> a < dst + length bs then bs ! (a - dst) else m a)"
  by (simp add: memcpy_def)

lemma length_le_bytes: "length (le_bytes n x) = n"
  by (induction n arbitrary: x) auto

lemma le_bytes_first: "0 < n \<Longrightarrow> le_bytes n x ! 0 = x mod 256"
  by (cases n) auto

lemma PutRequest_unfold:
  assumes m: "0 < mutex ptr" and f: "0 < full ptr"
    and g: "GetResponseQueueIndex (responseMutex ptr) = Some (Inr (rid, sems))"
  shows "PutRequest BUFSIZE code rel key val ptr =
     (if 28 + length key + length val > BUFSIZE
      then Raised ''PutRequest tuple is too long, increase BUFSIZE''
             (ptr\<lparr>mutex := mutex ptr, full := full ptr - 1,
                  area := memcpy (memcpy (memcpy (memcpy (memcpy (memcpy (memcpy (area ptr)
                            0 (le_bytes 4 (code PUT))) 4 (le_bytes 4 rid)) 8 (le_bytes 4 rel))
                            12 (le_bytes 8 (length key))) 20 key)
                            (20 + length key) (le_bytes 8 (length val)))
                            (28 + length key) val,
                  responseMutex := sems[rid := sem_post (sems ! rid)]\<rparr>)
      else Sent rid
             (ptr\<lparr>mutex := mutex ptr, full := full ptr - 1,
                  area := memcpy (memcpy (memcpy (memcpy (memcpy (memcpy (memcpy (area ptr)
                            0 (le_bytes 4 (code PUT))) 4 (le_bytes 4 rid)) 8 (le_bytes 4 rel))
                            12 (le_bytes 8 (length key))) 20 key)
                            (20 + length key) (le_bytes 8 (length val)))
                            (28 + length key) val,
                  responseMutex := sems, worker := worker ptr + 1\<rparr>))"
  using m f g
  by (simp add: PutRequest_def Let_def sem_post_def add.commute add.left_commute)

lemma PutRequest_too_long:
  assumes m: "0 < mutex ptr" and f: "0 < full ptr"
    and g: "GetResponseQueueIndex (responseMutex ptr) = Some (Inr (rid, sems))"
    and big: "BUFSIZE < 28 + length key + length val" and v: "val \<noteq> []"
  shows "\<exists>shm. PutRequest BUFSIZE code rel key val ptr
                 = Raised ''PutRequest tuple is too long, increase BUFSIZE'' shm
           \<and> area shm 0 = code PUT mod 256
           \<and> area shm (27 + length key + length val) = last val
           \<and> full shm = full ptr - 1 \<and> worker shm = worker ptr"
proof -
  let ?a = "memcpy (memcpy (memcpy (memcpy (memcpy (memcpy (memcpy (area ptr)
                            0 (le_bytes 4 (code PUT))) 4 (le_bytes 4 rid)) 8 (le_bytes 4 rel))
                            12 (le_bytes 8 (length key))) 20 key)
                            (20 + length key) (le_bytes 8 (length val)))
                            (28 + length key) val"
  have l: "Suc 0 \<le> length val" using v by (cases val) auto
  have a0: "?a 0 = code PUT mod 256"
    by (simp add: nth_memcpy length_le_bytes le_bytes_first)
  have d: "27 + length key + length val - (28 + length key) = length val - 1" by simp
  have al: "?a (27 + length key + length val) = last val"
    using l by (simp add: nth_memcpy [of _ "28 + length key" val] last_conv_nth [OF v] d)
  show ?thesis
    unfolding PutRequest_unfold [OF m f g]
    using big a0 al by simp
qed

lemma PutRequest_fits:
  assumes m: "0 < mutex ptr" and f: "0 < full ptr"
    and g: "GetResponseQueueIndex (responseMutex ptr) = Some (Inr (rid, sems))"
    and fits: "28 + length key + length val \<le> BUFSIZE"
  shows "\<exists>shm. PutRequest BUFSIZE code rel key val ptr = Sent rid shm
           \<and> (\<forall>a\<ge>BUFSIZE. area shm a = area ptr a)
           \<and> worker shm = worker ptr + 1 \<and> mutex shm = mutex ptr \<and> full shm = full ptr - 1"
proof -
  let ?a = "memcpy (memcpy (memcpy (memcpy (memcpy (memcpy (memcpy (area ptr)
                            0 (le_bytes 4 (code PUT))) 4 (le_bytes 4 rid)) 8 (le_bytes 4 rel))
                            12 (le_bytes 8 (length key))) 20 key)
                            (20 + length key) (le_bytes 8 (length val)))
                            (28 + length key) val"
  have out: "?a a = area ptr a" if "BUFSIZE \<le> a" for a
    using that fits by (simp add: nth_memcpy length_le_bytes)
  show ?thesis
    unfolding PutRequest_unfold [OF m f g]
    using fits out by simp
qed

lemma GetResponseQueueIndex_two:
  "GetResponseQueueIndex (replicate 2 1) = Some (Inr (0, [0, 1]))"
  by (subst GetResponseQueueIndex.simps)
     (simp add: sem_trywait_def SemTryWait_def numeral_2_eq_2)

text \<open>
  C3, what the code does. A PutRequest that gets the mutex, the command slot and a
  response slot copies the whole frame (28 bytes of header and lengths, the key, the
  value) to the command area and tests the size afterwards. When the frame is longer
  than \<open>BUFSIZE\<close> the ERROR is raised, but by then the opcode is in the area and the
  last byte of the value has been written at an offset at or beyond \<open>BUFSIZE\<close>, behind
  the area; the command slot (\<open>full\<close>) stays taken and the worker is not signalled. A
  frame of at most \<open>BUFSIZE\<close> bytes is sent, and no byte behind the area changes.
\<close>

theorem put_size_check_follows_write:
  "(0 < mutex ptr \<and> 0 < full ptr
      \<and> GetResponseQueueIndex (responseMutex ptr) = Some (Inr (rid, sems))
      \<and> BUFSIZE < 28 + length key + length val \<and> val \<noteq> [] \<longrightarrow>
      (\<exists>shm. PutRequest BUFSIZE code rel key val ptr
                 = Raised ''PutRequest tuple is too long, increase BUFSIZE'' shm
         \<and> area shm 0 = code PUT mod 256
         \<and> BUFSIZE \<le> 27 + length key + length val
         \<and> area shm (27 + length key + length val) = last val
         \<and> full shm = full ptr - 1 \<and> worker shm = worker ptr))
   \<and> (0 < mutex ptr \<and> 0 < full ptr
      \<and> GetResponseQueueIndex (responseMutex ptr) = Some (Inr (rid, sems))
      \<and> 28 + length key' + length val' \<le> BUFSIZE \<longrightarrow>
      (\<exists>shm. PutRequest BUFSIZE code rel key' val' ptr = Sent rid shm
         \<and> (\<forall>a\<ge>BUFSIZE. area shm a = area ptr a)
         \<and> worker shm = worker ptr + 1 \<and> mutex shm = mutex ptr \<and> full shm = full ptr - 1))"
proof (intro conjI impI)
  assume h: "0 < mutex ptr \<and> 0 < full ptr
      \<and> GetResponseQueueIndex (responseMutex ptr) = Some (Inr (rid, sems))
      \<and> BUFSIZE < 28 + length key + length val \<and> val \<noteq> []"
  then have "BUFSIZE \<le> 27 + length key + length val" by simp
  moreover from h have "\<exists>shm. PutRequest BUFSIZE code rel key val ptr
                 = Raised ''PutRequest tuple is too long, increase BUFSIZE'' shm
           \<and> area shm 0 = code PUT mod 256
           \<and> area shm (27 + length key + length val) = last val
           \<and> full shm = full ptr - 1 \<and> worker shm = worker ptr"
    by (intro PutRequest_too_long) simp_all
  ultimately show "\<exists>shm. PutRequest BUFSIZE code rel key val ptr
                 = Raised ''PutRequest tuple is too long, increase BUFSIZE'' shm
         \<and> area shm 0 = code PUT mod 256
         \<and> BUFSIZE \<le> 27 + length key + length val
         \<and> area shm (27 + length key + length val) = last val
         \<and> full shm = full ptr - 1 \<and> worker shm = worker ptr"
    by blast
next
  assume h: "0 < mutex ptr \<and> 0 < full ptr
      \<and> GetResponseQueueIndex (responseMutex ptr) = Some (Inr (rid, sems))
      \<and> 28 + length key' + length val' \<le> BUFSIZE"
  then show "\<exists>shm. PutRequest BUFSIZE code rel key' val' ptr = Sent rid shm
         \<and> (\<forall>a\<ge>BUFSIZE. area shm a = area ptr a)
         \<and> worker shm = worker ptr + 1 \<and> mutex shm = mutex ptr \<and> full shm = full ptr - 1"
    by (intro PutRequest_fits) simp_all
qed

text \<open>
  With \<open>BUFSIZE = 32\<close>, a fresh control block with two response slots and a zeroed
  area: the key 1, 2 with the value 3, 4, 5 makes a frame of 33 bytes; the put raises
  the ERROR, and the byte at offset 32, behind the area, is then 5. With the value 3, 4
  the frame has 32 bytes; the put is sent on slot 0 and offset 32 still holds 0.
\<close>

theorem put_size_check_follows_write_witness:
  "0 < mutex (SharedMem_init (\<lambda>a. 0::nat) 2) \<and> 0 < full (SharedMem_init (\<lambda>a. 0::nat) 2)
   \<and> GetResponseQueueIndex (responseMutex (SharedMem_init (\<lambda>a. 0::nat) 2)) = Some (Inr (0, [0, 1]))
   \<and> (32::nat) < 28 + length [1, 2::nat] + length [3, 4, 5::nat] \<and> [3, 4, 5::nat] \<noteq> []
   \<and> 28 + length [1, 2::nat] + length [3, 4::nat] \<le> (32::nat)
   \<and> (case PutRequest 32 (\<lambda>f. 7) 1 [1, 2] [3, 4, 5] (SharedMem_init (\<lambda>a. 0) 2) of
         Raised e shm \<Rightarrow> e = ''PutRequest tuple is too long, increase BUFSIZE''
                           \<and> area shm 0 = 7 \<and> area shm 32 = 5 \<and> full shm = 0 \<and> worker shm = 0
       | Sent r shm \<Rightarrow> False | Blocked \<Rightarrow> False | NeverReturns \<Rightarrow> False)
   \<and> (case PutRequest 32 (\<lambda>f. 7) 1 [1, 2] [3, 4] (SharedMem_init (\<lambda>a. 0) 2) of
         Sent r shm \<Rightarrow> r = 0 \<and> area shm 32 = 0 \<and> worker shm = 1
       | Raised e shm \<Rightarrow> False | Blocked \<Rightarrow> False | NeverReturns \<Rightarrow> False)"
proof -
  let ?p = "SharedMem_init (\<lambda>a. 0::nat) 2"
  have h1: "0 < mutex ?p" "0 < full ?p" by (simp_all add: SharedMem_init_def)
  have h2: "GetResponseQueueIndex (responseMutex ?p) = Some (Inr (0, [0, 1]))"
    using GetResponseQueueIndex_two by (simp add: SharedMem_init_def)
  have h3: "(32::nat) < 28 + length [1, 2::nat] + length [3, 4, 5::nat]" "[3, 4, 5::nat] \<noteq> []"
    "28 + length [1, 2::nat] + length [3, 4::nat] \<le> (32::nat)" by simp_all
  note main = put_size_check_follows_write [where ptr = ?p and rid = 0 and sems = "[0, 1]"
      and BUFSIZE = 32 and key = "[1, 2]" and val = "[3, 4, 5]" and key' = "[1, 2]"
      and val' = "[3, 4]" and code = "\<lambda>f. 7" and rel = 1]
  have ha: "0 < mutex ?p \<and> 0 < full ?p
      \<and> GetResponseQueueIndex (responseMutex ?p) = Some (Inr (0, [0, 1]))
      \<and> (32::nat) < 28 + length [1, 2::nat] + length [3, 4, 5::nat] \<and> [3, 4, 5::nat] \<noteq> []"
    using h1 h2 h3 by blast
  have hb: "0 < mutex ?p \<and> 0 < full ?p
      \<and> GetResponseQueueIndex (responseMutex ?p) = Some (Inr (0, [0, 1]))
      \<and> 28 + length [1, 2::nat] + length [3, 4::nat] \<le> (32::nat)"
    using h1 h2 h3 by blast
  have ra: "(case PutRequest 32 (\<lambda>f. 7) 1 [1, 2] [3, 4, 5] ?p of
         Raised e shm \<Rightarrow> e = ''PutRequest tuple is too long, increase BUFSIZE''
                           \<and> area shm 0 = 7 \<and> area shm 32 = 5 \<and> full shm = 0 \<and> worker shm = 0
       | Sent r shm \<Rightarrow> False | Blocked \<Rightarrow> False | NeverReturns \<Rightarrow> False)"
    using main [THEN conjunct1, rule_format, OF ha] by (clarsimp simp: SharedMem_init_def)
  have rb: "(case PutRequest 32 (\<lambda>f. 7) 1 [1, 2] [3, 4] ?p of
         Sent r shm \<Rightarrow> r = 0 \<and> area shm 32 = 0 \<and> worker shm = 1
       | Raised e shm \<Rightarrow> False | Blocked \<Rightarrow> False | NeverReturns \<Rightarrow> False)"
    using main [THEN conjunct2, rule_format, OF hb] by (clarsimp simp: SharedMem_init_def)
  show ?thesis
    using h1 h2 h3 ra rb by blast
qed

section \<open>Leases of response slots\<close>

lemma count_list_update:
  "k < length xs \<Longrightarrow>
     count_list (xs[k := y]) a + (if xs ! k = a then 1 else 0)
       = count_list xs a + (if y = a then 1 else 0)"
proof (induction xs arbitrary: k)
  case Nil
  then show ?case by simp
next
  case (Cons x xs)
  show ?case
  proof (cases k)
    case 0
    then show ?thesis by simp
  next
    case (Suc j)
    with Cons.prems have "j < length xs" by simp
    from Cons.IH [OF this] Suc show ?thesis by (auto split: if_splits)
  qed
qed

lemma count_list_two:
  "j < length xs \<Longrightarrow> k < length xs \<Longrightarrow> j \<noteq> k \<Longrightarrow> xs ! j = a \<Longrightarrow> xs ! k = a
     \<Longrightarrow> 2 \<le> count_list xs a"
proof (induction xs arbitrary: j k)
  case Nil
  then show ?case by simp
next
  case (Cons x xs)
  have pos: "1 \<le> count_list xs a" if "i < length xs" "xs ! i = a" for i
  proof -
    from that have "a \<in> set xs" by (metis nth_mem)
    then have "count_list xs a \<noteq> 0" by (simp add: count_list_0_iff)
    then show ?thesis by simp
  qed
  show ?case
  proof (cases j)
    case 0
    with Cons.prems obtain k' where k: "k = Suc k'" by (cases k) auto
    with Cons.prems 0 have "x = a" "k' < length xs" "xs ! k' = a" by simp_all
    with pos [of k'] show ?thesis by simp
  next
    case (Suc j')
    show ?thesis
    proof (cases k)
      case 0
      with Cons.prems Suc have "x = a" "j' < length xs" "xs ! j' = a" by simp_all
      with pos [of j'] show ?thesis by simp
    next
      case (Suc k')
      with Cons.prems \<open>j = Suc j'\<close>
      have "j' < length xs" "k' < length xs" "j' \<noteq> k'" "xs ! j' = a" "xs ! k' = a"
        by simp_all
      from Cons.IH [OF this] show ?thesis by simp
    qed
  qed
qed

lemma try_lock:
  "SemTryWait (fst (sem_trywait v)) EAGAIN f = Inr (if 0 < v then 0 else - 1, [])"
  by (simp add: SemTryWait_def sem_trywait_def)

lemma lease_step_Trying:
  assumes "k < length (procs S)" "procs S ! k = Trying i" "i < length (locks S)"
  shows "lease_step k S =
           (if 0 < locks S ! i
            then S\<lparr>locks := (locks S)[i := locks S ! i - 1], procs := (procs S)[k := Leased i]\<rparr>
            else S\<lparr>procs := (procs S)[k := Trying (i + 1)]\<rparr>)"
proof (cases "0 < locks S ! i")
  case True
  then have "snd (sem_trywait (locks S ! i)) = locks S ! i - 1"
    by (simp add: sem_trywait_def)
  with True assms show ?thesis by (simp add: lease_step_def try_lock)
next
  case False
  then have "snd (sem_trywait (locks S ! i)) = locks S ! i"
    by (simp add: sem_trywait_def)
  then have "(locks S)[i := snd (sem_trywait (locks S ! i))] = locks S"
    by (simp only: list_update_id)
  with False assms show ?thesis by (simp add: lease_step_def try_lock)
qed

lemma count_keep:
  assumes "k < length xs" "xs ! k \<noteq> a" "y \<noteq> a"
  shows "count_list (xs[k := y]) a = count_list xs a"
  using count_list_update [OF assms(1), of y a] assms by simp

lemma count_gain:
  assumes "k < length xs" "xs ! k \<noteq> a"
  shows "count_list (xs[k := a]) a = count_list xs a + 1"
  using count_list_update [OF assms(1), of a a] assms by simp

lemma count_lose:
  assumes "k < length xs" "xs ! k = a" "y \<noteq> a"
  shows "count_list (xs[k := y]) a + 1 = count_list xs a"
  using count_list_update [OF assms(1), of y a] assms by simp

lemma lease_step_inv:
  assumes inv: "lease_inv S"
  shows "lease_inv (lease_step k S)"
proof (cases "k < length (procs S)")
  case False
  then show ?thesis using inv by (simp add: lease_step_def)
next
  case k: True
  from inv have cnt: "\<And>i. i < length (locks S) \<Longrightarrow> locks S ! i + count_list (procs S) (Leased i) = 1"
    and rng: "\<And>j i. j < length (procs S) \<Longrightarrow> procs S ! j = Leased i \<Longrightarrow> i < length (locks S)"
    by (auto simp: lease_inv_def)
  show ?thesis
  proof (cases "procs S ! k")
    case Outside
    then have st: "lease_step k S = S\<lparr>procs := (procs S)[k := Trying 0]\<rparr>"
      using k by (simp add: lease_step_def)
    show ?thesis unfolding st lease_inv_def
      using k Outside cnt rng by (auto simp: count_keep nth_list_update)
  next
    case (Trying i)
    show ?thesis
    proof (cases "i < length (locks S)")
      case False
      then have st: "lease_step k S = S\<lparr>procs := (procs S)[k := Trying 0]\<rparr>"
        using k Trying by (simp add: lease_step_def)
      show ?thesis unfolding st lease_inv_def
        using k Trying cnt rng by (auto simp: count_keep nth_list_update)
    next
      case i: True
      show ?thesis
      proof (cases "0 < locks S ! i")
        case False
        then have st: "lease_step k S = S\<lparr>procs := (procs S)[k := Trying (i + 1)]\<rparr>"
          using lease_step_Trying [OF k Trying i] by simp
        show ?thesis unfolding st lease_inv_def
          using k Trying cnt rng by (auto simp: count_keep nth_list_update)
      next
        case pos: True
        then have st: "lease_step k S =
            S\<lparr>locks := (locks S)[i := locks S ! i - 1], procs := (procs S)[k := Leased i]\<rparr>"
          using lease_step_Trying [OF k Trying i] by simp
        have a: "(locks S)[i := locks S ! i - 1] ! j
                   + count_list ((procs S)[k := Leased i]) (Leased j) = 1"
          if j: "j < length (locks S)" for j
        proof (cases "j = i")
          case True
          have "count_list ((procs S)[k := Leased i]) (Leased i)
                  = count_list (procs S) (Leased i) + 1"
            using k Trying by (simp add: count_gain)
          with cnt [OF i] pos True i show ?thesis by simp
        next
          case False
          have "count_list ((procs S)[k := Leased i]) (Leased j) = count_list (procs S) (Leased j)"
            using k Trying False by (simp add: count_keep)
          with cnt [OF j] False show ?thesis by simp
        qed
        have b: "ia < length (locks S)"
          if "j < length (procs S)" "(procs S)[k := Leased i] ! j = Leased ia" for j ia
          using that rng i by (cases "j = k") (auto simp: nth_list_update)
        show ?thesis unfolding st lease_inv_def using a b by simp
      qed
    qed
  next
    case (Leased i)
    from rng [OF k Leased] have i: "i < length (locks S)" .
    have st: "lease_step k S =
        S\<lparr>locks := (locks S)[i := locks S ! i + 1], procs := (procs S)[k := Outside]\<rparr>"
      using k Leased by (simp add: lease_step_def sem_post_def)
    have a: "(locks S)[i := locks S ! i + 1] ! j
               + count_list ((procs S)[k := Outside]) (Leased j) = 1"
      if j: "j < length (locks S)" for j
    proof (cases "j = i")
      case True
      have "count_list ((procs S)[k := Outside]) (Leased i) + 1
              = count_list (procs S) (Leased i)"
        using count_lose [OF k Leased, of Outside] by simp
      with cnt [OF i] True i show ?thesis by simp
    next
      case False
      have "count_list ((procs S)[k := Outside]) (Leased j) = count_list (procs S) (Leased j)"
        using k Leased False by (simp add: count_keep)
      with cnt [OF j] False show ?thesis by simp
    qed
    have b: "ia < length (locks S)"
      if "j < length (procs S)" "(procs S)[k := Outside] ! j = Leased ia" for j ia
      using that rng by (cases "j = k") (auto simp: nth_list_update)
    show ?thesis unfolding st lease_inv_def using a b by simp
  next
    case (Aborted e)
    then show ?thesis using inv k by (simp add: lease_step_def)
  qed
qed

lemma lease_run_inv: "lease_inv S \<Longrightarrow> lease_inv (lease_run ks S)"
  by (induction ks arbitrary: S) (simp_all add: lease_step_inv)

lemma count_list_replicate_other: "a \<noteq> b \<Longrightarrow> count_list (replicate m a) b = 0"
  by (induction m) simp_all

lemma pool_init_inv: "lease_inv (pool_init n m)"
  by (simp add: lease_inv_def pool_init_def count_list_replicate_other)

lemma leases_distinct:
  assumes inv: "lease_inv S"
    and "j < length (procs S)" "k < length (procs S)" "j \<noteq> k"
    and "procs S ! j = Leased a" "procs S ! k = Leased b"
  shows "a \<noteq> b"
proof
  assume "a = b"
  with assms have "2 \<le> count_list (procs S) (Leased a)"
    by (intro count_list_two [of j _ k]) simp_all
  moreover from inv assms have "a < length (locks S)" by (auto simp: lease_inv_def)
  with inv have "locks S ! a + count_list (procs S) (Leased a) = 1"
    by (simp add: lease_inv_def)
  ultimately show False by simp
qed

text \<open>The scan of one caller: it passes the taken slots and takes the first free one.\<close>

lemma for_unfold:
  "GetResponseQueueIndex_for sems i =
     (if i < length sems
      then (if 0 < sems ! i then Inr (Some (i, sems[i := sems ! i - 1]))
            else GetResponseQueueIndex_for sems (i + 1))
      else Inr None)"
proof (cases "i < length sems")
  case False
  then show ?thesis
    by (subst GetResponseQueueIndex_for.simps) (simp del: GetResponseQueueIndex_for.simps)
next
  case i: True
  show ?thesis
  proof (cases "0 < sems ! i")
    case True
    then have "snd (sem_trywait (sems ! i)) = sems ! i - 1" by (simp add: sem_trywait_def)
    with True i show ?thesis
      by (subst GetResponseQueueIndex_for.simps)
         (simp add: try_lock del: GetResponseQueueIndex_for.simps)
  next
    case False
    then have "snd (sem_trywait (sems ! i)) = sems ! i" by (simp add: sem_trywait_def)
    then have "sems[i := snd (sem_trywait (sems ! i))] = sems" by (simp only: list_update_id)
    with False i show ?thesis
      by (subst GetResponseQueueIndex_for.simps)
         (simp add: try_lock del: GetResponseQueueIndex_for.simps)
  qed
qed

lemma for_none:
  "(\<forall>j. i \<le> j \<and> j < length sems \<longrightarrow> sems ! j = 0)
     \<Longrightarrow> GetResponseQueueIndex_for sems i = Inr None"
proof (induction "length sems - i" arbitrary: i)
  case 0
  then show ?case by (subst for_unfold) (simp del: GetResponseQueueIndex_for.simps)
next
  case (Suc d)
  then have "GetResponseQueueIndex_for sems (i + 1) = Inr None"
    by (simp del: GetResponseQueueIndex_for.simps)
  with Suc.prems show ?case by (subst for_unfold) (simp del: GetResponseQueueIndex_for.simps)
qed

lemma for_least:
  "i \<le> a \<Longrightarrow> a < length sems \<Longrightarrow> 0 < sems ! a
     \<Longrightarrow> (\<forall>j. i \<le> j \<and> j < a \<longrightarrow> sems ! j = 0)
     \<Longrightarrow> GetResponseQueueIndex_for sems i = Inr (Some (a, sems[a := sems ! a - 1]))"
proof (induction "a - i" arbitrary: i)
  case 0
  then have "i = a" by simp
  with 0 show ?case by (subst for_unfold) (simp del: GetResponseQueueIndex_for.simps)
next
  case (Suc d)
  then have i: "i < a" "sems ! i = 0" "i < length sems" by simp_all
  from Suc have "GetResponseQueueIndex_for sems (i + 1)
                   = Inr (Some (a, sems[a := sems ! a - 1]))"
    by (simp del: GetResponseQueueIndex_for.simps)
  with i show ?case by (subst for_unfold) (simp del: GetResponseQueueIndex_for.simps)
qed

lemma free_or_not:
  "(\<forall>j<length sems. sems ! j = (0::nat))
     \<or> (\<exists>a<length sems. 0 < sems ! a \<and> (\<forall>j<a. sems ! j = 0))"
proof (cases "\<exists>j<length sems. 0 < sems ! j")
  case False
  then show ?thesis by simp
next
  case True
  define a where "a = (LEAST j. j < length sems \<and> 0 < sems ! j)"
  from True have "a < length sems \<and> 0 < sems ! a"
    unfolding a_def by (rule LeastI_ex [where P = "\<lambda>j. j < length sems \<and> 0 < sems ! j"])
  moreover have "sems ! j = 0" if "j < a" for j
  proof -
    from that have "\<not> (j < length sems \<and> 0 < sems ! j)"
      unfolding a_def by (rule not_less_Least)
    moreover from that \<open>a < length sems \<and> 0 < sems ! a\<close> have "j < length sems" by simp
    ultimately show ?thesis by simp
  qed
  ultimately show ?thesis by blast
qed

lemma lease_none:
  assumes "\<forall>j<length sems. sems ! j = 0"
  shows "GetResponseQueueIndex sems = None"
proof -
  have "GetResponseQueueIndex_for s 0 \<noteq> Inr None" if "GetResponseQueueIndex s = Some y" for s y
    using that
    by (rule GetResponseQueueIndex.raw_induct
          [where P = "\<lambda>s y. GetResponseQueueIndex_for s 0 \<noteq> Inr None", rotated])
       (auto simp del: GetResponseQueueIndex_for.simps split: sum.splits option.splits)
  moreover from assms have "GetResponseQueueIndex_for sems 0 = Inr None"
    by (intro for_none) simp
  ultimately show ?thesis by (cases "GetResponseQueueIndex sems") auto
qed

lemma lease_least:
  assumes "a < length sems" "0 < sems ! a" "\<forall>j<a. sems ! j = 0"
  shows "GetResponseQueueIndex sems = Some (Inr (a, sems[a := sems ! a - 1]))"
proof -
  from assms have "GetResponseQueueIndex_for sems 0 = Inr (Some (a, sems[a := sems ! a - 1]))"
    by (intro for_least) simp_all
  then show ?thesis
    by (subst GetResponseQueueIndex.simps) (simp del: GetResponseQueueIndex_for.simps)
qed

lemma lease_returns:
  assumes "GetResponseQueueIndex sems = Some r"
  shows "\<exists>a<length sems. 0 < sems ! a \<and> (\<forall>j<a. sems ! j = 0)
           \<and> r = Inr (a, sems[a := sems ! a - 1])"
proof -
  from free_or_not [of sems] show ?thesis
  proof
    assume "\<forall>j<length sems. sems ! j = 0"
    from lease_none [OF this] assms show ?thesis by simp
  next
    assume "\<exists>a<length sems. 0 < sems ! a \<and> (\<forall>j<a. sems ! j = 0)"
    then obtain a where a: "a < length sems" "0 < sems ! a" "\<forall>j<a. sems ! j = 0" by blast
    from lease_least [OF this] assms have "r = Inr (a, sems[a := sems ! a - 1])" by simp
    with a show ?thesis by blast
  qed
qed

text \<open>A caller that runs alone goes through the scan of \<open>GetResponseQueueIndex_for\<close>.\<close>

lemma solo_lease:
  "GetResponseQueueIndex_for sems i = Inr (Some (a, sems')) \<Longrightarrow> k < length ps
     \<Longrightarrow> \<exists>n. lease_run (replicate n k) \<lparr>locks = sems, procs = ps[k := Trying i]\<rparr>
               = \<lparr>locks = sems', procs = ps[k := Leased a]\<rparr>"
proof (induction "length sems - i" arbitrary: i)
  case 0
  then have "GetResponseQueueIndex_for sems i = Inr None"
    by (subst for_unfold) (simp del: GetResponseQueueIndex_for.simps)
  with 0 show ?case by (simp del: GetResponseQueueIndex_for.simps)
next
  case (Suc d)
  then have i: "i < length sems" by simp
  let ?S = "\<lparr>locks = sems, procs = ps[k := Trying i]\<rparr>"
  have st: "lease_step k ?S =
           (if 0 < sems ! i
            then ?S\<lparr>locks := sems[i := sems ! i - 1], procs := (procs ?S)[k := Leased i]\<rparr>
            else ?S\<lparr>procs := (procs ?S)[k := Trying (i + 1)]\<rparr>)"
    using lease_step_Trying [of k ?S i] i Suc.prems by simp
  show ?case
  proof (cases "0 < sems ! i")
    case True
    with i Suc.prems(1) have "a = i" "sems' = sems[i := sems ! i - 1]"
      by (subst (asm) for_unfold, simp del: GetResponseQueueIndex_for.simps)+
    with True st have "lease_run (replicate 1 k) ?S = \<lparr>locks = sems', procs = ps[k := Leased a]\<rparr>"
      by simp
    then show ?thesis by blast
  next
    case False
    with i Suc.prems(1) have "GetResponseQueueIndex_for sems (i + 1) = Inr (Some (a, sems'))"
      by (subst (asm) for_unfold) (simp del: GetResponseQueueIndex_for.simps)
    moreover from Suc.hyps(2) have "d = length sems - (i + 1)" by simp
    ultimately obtain n where
      n: "lease_run (replicate n k) \<lparr>locks = sems, procs = ps[k := Trying (i + 1)]\<rparr>
            = \<lparr>locks = sems', procs = ps[k := Leased a]\<rparr>"
      using Suc.hyps(1) [of "i + 1"] Suc.prems(2) by blast
    from False st have "lease_step k ?S = \<lparr>locks = sems, procs = ps[k := Trying (i + 1)]\<rparr>"
      by simp
    with n have "lease_run (replicate (Suc n) k) ?S = \<lparr>locks = sems', procs = ps[k := Leased a]\<rparr>"
      by simp
    then show ?thesis by blast
  qed
qed

text \<open>
  A process comes to hold a slot only by its own step, from the iteration on that slot
  and with a \<open>sem_trywait\<close> that took the unit of its lock.
\<close>

lemma lease_step_acquires:
  assumes j: "j < length (procs S)"
    and after: "procs (lease_step k S) ! j = Leased a"
    and before: "procs S ! j \<noteq> Leased a"
  shows "j = k \<and> procs S ! k = Trying a \<and> a < length (locks S) \<and> 0 < locks S ! a
           \<and> sem_trywait (locks S ! a) = (0, locks S ! a - 1)
           \<and> locks (lease_step k S) = (locks S)[a := locks S ! a - 1]"
proof (cases "k < length (procs S)")
  case False
  with after before show ?thesis by (simp add: lease_step_def)
next
  case k: True
  show ?thesis
  proof (cases "procs S ! k")
    case Outside
    with k j after before show ?thesis
      by (auto simp: lease_step_def nth_list_update split: if_splits)
  next
    case (Trying i)
    show ?thesis
    proof (cases "i < length (locks S)")
      case False
      with Trying k j after before show ?thesis
        by (auto simp: lease_step_def nth_list_update split: if_splits)
    next
      case True
      from lease_step_Trying [OF k Trying True] k j after before Trying True
      show ?thesis
        by (auto simp: nth_list_update sem_trywait_def split: if_splits)
    qed
  next
    case (Leased i)
    with k j after before show ?thesis
      by (auto simp: lease_step_def nth_list_update split: if_splits)
  next
    case (Aborted e)
    with k j after before show ?thesis
      by (auto simp: lease_step_def nth_list_update split: if_splits)
  qed
qed

lemma lease_step_others:
  "j \<noteq> k \<Longrightarrow> procs (lease_step k S) ! j = procs S ! j"
  by (auto simp: lease_step_def try_lock split: lessee.splits)

lemma length_procs_step: "length (procs (lease_step k S)) = length (procs S)"
  by (auto simp: lease_step_def try_lock split: lessee.splits)

lemma length_procs_run: "length (procs (lease_run ks S)) = length (procs S)"
  by (induction ks arbitrary: S) (simp_all add: length_procs_step)

text \<open>
  C1. With \<open>n\<close> response slots whose locks start at 1 and \<open>m\<close> processes that each
  lease a slot with \<open>GetResponseQueueIndex\<close> and give it back with \<open>SemPost\<close>, under
  any interleaving of their steps two processes never hold the same slot at the same
  time. A process comes to hold slot \<open>c\<close> only by its own step, in the iteration on
  \<open>c\<close>, with a \<open>sem_trywait\<close> that returned 0 and took the unit of that lock. One call
  scans the slots from 0 upwards: it returns the first slot whose lock is free, with
  that lock taken and nothing else changed; it never returns while no lock is free;
  whatever it returns is such a first free slot, never an ERROR; and a process that
  steps alone reaches the result of the scan.
\<close>

theorem leases_are_distinct:
  "(j < m \<and> k < m \<and> j \<noteq> k
      \<and> procs (lease_run ks (pool_init n m)) ! j = Leased a
      \<and> procs (lease_run ks (pool_init n m)) ! k = Leased b \<longrightarrow> a \<noteq> b)
   \<and> (p < length (procs S) \<and> procs (lease_step q S) ! p = Leased c
        \<and> procs S ! p \<noteq> Leased c \<longrightarrow>
        p = q \<and> procs S ! q = Trying c \<and> c < length (locks S) \<and> 0 < locks S ! c
        \<and> sem_trywait (locks S ! c) = (0, locks S ! c - 1)
        \<and> locks (lease_step q S) = (locks S)[c := locks S ! c - 1])
   \<and> (d < length sa \<and> 0 < sa ! d \<and> (\<forall>i<d. sa ! i = 0) \<longrightarrow>
        GetResponseQueueIndex sa = Some (Inr (d, sa[d := sa ! d - 1])))
   \<and> ((\<forall>i<length sb. sb ! i = 0) \<longrightarrow> GetResponseQueueIndex sb = None)
   \<and> (GetResponseQueueIndex sc = Some r \<longrightarrow>
        (\<exists>e<length sc. 0 < sc ! e \<and> (\<forall>i<e. sc ! i = 0)
           \<and> r = Inr (e, sc[e := sc ! e - 1])))
   \<and> (GetResponseQueueIndex_for sd 0 = Inr (Some (f, sd')) \<and> w < length ps \<longrightarrow>
        (\<exists>cnt. lease_run (replicate cnt w) \<lparr>locks = sd, procs = ps[w := Trying 0]\<rparr>
                 = \<lparr>locks = sd', procs = ps[w := Leased f]\<rparr>))"
proof -
  let ?S = "lease_run ks (pool_init n m)"
  have inv: "lease_inv ?S" by (intro lease_run_inv pool_init_inv)
  have len: "length (procs ?S) = m" by (simp add: length_procs_run pool_init_def)
  have pa: "j < m \<and> k < m \<and> j \<noteq> k
      \<and> procs (lease_run ks (pool_init n m)) ! j = Leased a
      \<and> procs (lease_run ks (pool_init n m)) ! k = Leased b \<longrightarrow> a \<noteq> b"
    using inv len leases_distinct [of ?S j k a b] by simp
  have pb: "p < length (procs S) \<and> procs (lease_step q S) ! p = Leased c
        \<and> procs S ! p \<noteq> Leased c \<longrightarrow>
        p = q \<and> procs S ! q = Trying c \<and> c < length (locks S) \<and> 0 < locks S ! c
        \<and> sem_trywait (locks S ! c) = (0, locks S ! c - 1)
        \<and> locks (lease_step q S) = (locks S)[c := locks S ! c - 1]"
    using lease_step_acquires [of p S q c] by blast
  have pc: "d < length sa \<and> 0 < sa ! d \<and> (\<forall>i<d. sa ! i = 0) \<longrightarrow>
        GetResponseQueueIndex sa = Some (Inr (d, sa[d := sa ! d - 1]))"
    using lease_least [of d sa] by blast
  have pd: "(\<forall>i<length sb. sb ! i = 0) \<longrightarrow> GetResponseQueueIndex sb = None"
    using lease_none [of sb] by blast
  have pe: "GetResponseQueueIndex sc = Some r \<longrightarrow>
        (\<exists>e<length sc. 0 < sc ! e \<and> (\<forall>i<e. sc ! i = 0)
           \<and> r = Inr (e, sc[e := sc ! e - 1]))"
    using lease_returns [of sc r] by blast
  have pf: "GetResponseQueueIndex_for sd 0 = Inr (Some (f, sd')) \<and> w < length ps \<longrightarrow>
        (\<exists>cnt. lease_run (replicate cnt w) \<lparr>locks = sd, procs = ps[w := Trying 0]\<rparr>
                 = \<lparr>locks = sd', procs = ps[w := Leased f]\<rparr>)"
    using solo_lease [of sd 0 f sd' w ps] by blast
  show ?thesis by (rule conjI pa pb pc pd pe pf)+
qed

text \<open>
  Two slots and two processes. After the schedule 0, 0, 1, 1, 1 process 0 holds slot 0
  and process 1, whose first try found slot 0 taken, holds slot 1. The step that gives
  process 0 its slot is the one from the iteration on slot 0, and it leaves the locks
  0, 1. With the locks 0, 1 a call returns slot 1 and the locks 0, 0; with the locks
  0, 0 it never returns; a process alone reaches slot 1 in two steps.
\<close>

theorem leases_are_distinct_witness:
  "(0::nat) < 2 \<and> (1::nat) < 2 \<and> (0::nat) \<noteq> 1
   \<and> procs (lease_run [0, 0, 1, 1, 1] (pool_init 2 2)) ! 0 = Leased 0
   \<and> procs (lease_run [0, 0, 1, 1, 1] (pool_init 2 2)) ! 1 = Leased 1
   \<and> 0 < length (procs (lease_run [0] (pool_init 2 2)))
   \<and> procs (lease_step 0 (lease_run [0] (pool_init 2 2))) ! 0 = Leased 0
   \<and> procs (lease_run [0] (pool_init 2 2)) ! 0 = Trying 0
   \<and> sem_trywait (locks (lease_run [0] (pool_init 2 2)) ! 0) = (0, 0)
   \<and> locks (lease_step 0 (lease_run [0] (pool_init 2 2))) = [0, 1]
   \<and> GetResponseQueueIndex [0, 1] = Some (Inr (1, [0, 0]))
   \<and> GetResponseQueueIndex [0, 0] = None
   \<and> GetResponseQueueIndex_for [0, 1] 0 = Inr (Some (1, [0, 0]))
   \<and> (\<exists>e. e < length [0, 1::nat] \<and> 0 < [0, 1::nat] ! e
          \<and> Inr (1, [0, 0]) = (Inr (e, [0, 1][e := [0, 1] ! e - 1]) :: string + nat \<times> nat list))
   \<and> (\<exists>cnt. lease_run (replicate cnt 0) \<lparr>locks = [0, 1], procs = [Trying 0]\<rparr>
               = \<lparr>locks = [0, 0], procs = [Leased 1]\<rparr>)"
proof -
  have ev: "pool_init 2 2 = \<lparr>locks = [1, 1], procs = [Outside, Outside]\<rparr>"
    by (simp add: pool_init_def numeral_2_eq_2)
  have r1: "lease_run [0] (pool_init 2 2) = \<lparr>locks = [1, 1], procs = [Trying 0, Outside]\<rparr>"
    unfolding ev by (simp add: lease_step_def)
  have r2: "lease_step 0 \<lparr>locks = [1, 1], procs = [Trying 0, Outside]\<rparr>
              = \<lparr>locks = [0, 1], procs = [Leased 0, Outside]\<rparr>"
    by (simp add: lease_step_def SemTryWait_def sem_trywait_def)
  have r3: "lease_run [1, 1, 1] \<lparr>locks = [0, 1], procs = [Leased 0, Outside]\<rparr>
              = \<lparr>locks = [0, 0], procs = [Leased 0, Leased 1]\<rparr>"
    by (simp add: lease_step_def SemTryWait_def sem_trywait_def)
  have r4: "lease_run [0, 0, 1, 1, 1] (pool_init 2 2)
              = \<lparr>locks = [0, 0], procs = [Leased 0, Leased 1]\<rparr>"
    using r1 r2 r3 by simp
  have f1: "GetResponseQueueIndex_for [0, 1] 0 = Inr (Some (1, [0, 0]))"
    using for_least [of 0 1 "[0, 1]"] by simp
  note main = leases_are_distinct [where j = 0 and k = 1 and m = 2 and n = 2
      and ks = "[0, 0, 1, 1, 1]" and a = 0 and b = 1
      and p = 0 and q = 0 and c = 0 and S = "lease_run [0] (pool_init 2 2)"
      and d = 1 and sa = "[0, 1]" and sb = "[0, 0]"
      and sc = "[0, 1]" and r = "Inr (1, [0, 0])"
      and sd = "[0, 1]" and f = 1 and sd' = "[0, 0]" and w = 0 and ps = "[Outside]"]
  have ha: "(0::nat) < 2 \<and> (1::nat) < 2 \<and> (0::nat) \<noteq> 1
      \<and> procs (lease_run [0, 0, 1, 1, 1] (pool_init 2 2)) ! 0 = Leased 0
      \<and> procs (lease_run [0, 0, 1, 1, 1] (pool_init 2 2)) ! 1 = Leased 1"
    unfolding r4 by simp
  have hb: "0 < length (procs (lease_run [0] (pool_init 2 2)))
      \<and> procs (lease_step 0 (lease_run [0] (pool_init 2 2))) ! 0 = Leased 0
      \<and> procs (lease_run [0] (pool_init 2 2)) ! 0 \<noteq> Leased 0"
    unfolding r1 r2 by simp
  have hc: "1 < length [0, 1::nat] \<and> 0 < [0, 1::nat] ! 1 \<and> (\<forall>i<1. [0, 1::nat] ! i = 0)"
    by simp
  have hd: "\<forall>i<length [0, 0::nat]. [0, 0::nat] ! i = 0"
    by (simp add: less_Suc_eq)
  from main [THEN conjunct1, rule_format, OF ha] have ca: "(0::nat) \<noteq> 1" .
  from main [THEN conjunct2, THEN conjunct1, rule_format, OF hb]
  have cb: "procs (lease_run [0] (pool_init 2 2)) ! 0 = Trying 0"
    "sem_trywait (locks (lease_run [0] (pool_init 2 2)) ! 0) = (0, 0)"
    "locks (lease_step 0 (lease_run [0] (pool_init 2 2))) = [0, 1]"
    unfolding r1 r2 by simp_all
  from main [THEN conjunct2, THEN conjunct2, THEN conjunct1, rule_format, OF hc]
  have cc: "GetResponseQueueIndex [0, 1] = Some (Inr (1, [0, 0]))" by simp
  from main [THEN conjunct2, THEN conjunct2, THEN conjunct2, THEN conjunct1, THEN mp, OF hd]
  have cd: "GetResponseQueueIndex [0, 0] = None" .
  from main [THEN conjunct2, THEN conjunct2, THEN conjunct2, THEN conjunct2, THEN conjunct1,
      rule_format, OF cc]
  have ce: "\<exists>e. e < length [0, 1::nat] \<and> 0 < [0, 1::nat] ! e
          \<and> Inr (1, [0, 0]) = (Inr (e, [0, 1][e := [0, 1] ! e - 1]) :: string + nat \<times> nat list)"
    by blast
  have hf: "GetResponseQueueIndex_for [0, 1] 0 = Inr (Some (1, [0, 0])) \<and> 0 < length [Outside]"
    using f1 by simp
  from main [THEN conjunct2, THEN conjunct2, THEN conjunct2, THEN conjunct2, THEN conjunct2,
      rule_format, OF hf]
  have cf: "\<exists>cnt. lease_run (replicate cnt 0) \<lparr>locks = [0, 1], procs = [Trying 0]\<rparr>
               = \<lparr>locks = [0, 0], procs = [Leased 1]\<rparr>"
    by simp
  show ?thesis
    using ha hb cb cc cd f1 ce cf by blast
qed

section \<open>The protocol of a synchronous call\<close>


































lemma written_holder: "written a c \<Longrightarrow> holds_area (cpc c) \<Longrightarrow> cpc c \<noteq> AtWriteFunc \<Longrightarrow> func a = COUNT"
  by (cases "cpc c") (simp_all add: written_def)








































end
